(* ===== verification/Prelude.thy ===== *)
theory Prelude
  imports Main "HOL-Library.Word" "HOL-Library.Finite_Map" "HOL-Library.Char_ord"
    "HOL-Library.List_Lexorder" "HOL-Library.Product_Lexorder" "HOL-Library.Sublist"
begin

text \<open>
  Shared vocabulary of the development: the Rust \<open>Result\<close> type and the \<open>?\<close> operator, machine
  integers with their saturating and checked additions, UTF-8 strings with \<open>str::trim\<close> and the
  ASCII case operations, \<open>HashMap\<close> as a finite map whose values are enumerated in key order, and
  the facts on filtering, sorting and folding that the component theories share.

  Two collections carry the component proofs: \<open>rust_simps\<close> unfolds the combinators below, and
  \<open>store_defs\<close> collects the definitions of the store operations.
\<close>

named_theorems rust_simps "unfolding of the result combinators and integer operations"
named_theorems store_defs "definitions of the store operations"
named_theorems guard_defs "definitions of the guard functions of the store"

section \<open>Results and the question-mark operator\<close>

text \<open>
  \<open>Result<T, E>\<close> is the sum \<open>'e + 'a\<close> with \<open>Inl\<close> for \<open>Err\<close>. Inside a pure function \<open>r?\<close> is
  \<open>bindR\<close>. Inside an operation that owns a mutable state, \<open>r?\<close> returns early with the state as it
  is at that point; \<open>attempt r s k\<close> is that early return, and \<open>k\<close> is the rest of the body.
\<close>

definition bindR :: "'e + 'a \<Rightarrow> ('a \<Rightarrow> 'e + 'b) \<Rightarrow> 'e + 'b" where
  "bindR r k = (case r of Inl e \<Rightarrow> Inl e | Inr a \<Rightarrow> k a)"

definition attempt :: "'e + 'a \<Rightarrow> 's \<Rightarrow> ('a \<Rightarrow> ('e + 'b) \<times> 's) \<Rightarrow> ('e + 'b) \<times> 's" where
  "attempt r s k = (case r of Inl e \<Rightarrow> (Inl e, s) | Inr a \<Rightarrow> k a)"

definition ok_or :: "'a option \<Rightarrow> 'e \<Rightarrow> 'e + 'a" where
  "ok_or x e = (case x of None \<Rightarrow> Inl e | Some a \<Rightarrow> Inr a)"

definition ensure :: "bool \<Rightarrow> 'e \<Rightarrow> 'e + unit" where
  "ensure b e = (if b then Inr () else Inl e)"

definition map_err :: "('e \<Rightarrow> 'f) \<Rightarrow> 'e + 'a \<Rightarrow> 'f + 'a" where
  "map_err f r = (case r of Inl e \<Rightarrow> Inl (f e) | Inr a \<Rightarrow> Inr a)"

text \<open>\<open>iter.map(f).collect::<Result<Vec<_>, _>>()\<close> stops at the first error.\<close>

fun mapR :: "('a \<Rightarrow> 'e + 'b) \<Rightarrow> 'a list \<Rightarrow> 'e + 'b list" where
  "mapR f [] = Inr []"
| "mapR f (x # xs) = bindR (f x) (\<lambda>y. bindR (mapR f xs) (\<lambda>ys. Inr (y # ys)))"

text \<open>\<open>Option<Result<T, E>>::transpose\<close>, which the row decoders use.\<close>

fun transposeR :: "('e + 'a) option \<Rightarrow> 'e + 'a option" where
  "transposeR None = Inr None"
| "transposeR (Some r) = bindR r (\<lambda>a. Inr (Some a))"

lemma bindR_simps [simp]:
  "bindR (Inl e) k = Inl e"
  "bindR (Inr a) k = k a"
  by (simp_all add: bindR_def)

lemma attempt_simps [simp]:
  "attempt (Inl e) s k = (Inl e, s)"
  "attempt (Inr a) s k = k a"
  by (simp_all add: attempt_def)

lemma ok_or_simps [simp]:
  "ok_or None e = Inl e"
  "ok_or (Some a) e = Inr a"
  by (simp_all add: ok_or_def)

lemma ensure_simps [simp]:
  "ensure True e = Inr ()"
  "ensure False e = Inl e"
  by (simp_all add: ensure_def)

lemma map_err_simps [simp]:
  "map_err f (Inl e) = Inl (f e)"
  "map_err f (Inr a) = Inr a"
  by (simp_all add: map_err_def)

lemma bindR_eq_Inr: "bindR r k = Inr b \<longleftrightarrow> (\<exists>a. r = Inr a \<and> k a = Inr b)"
  by (cases r) auto

lemma bindR_eq_Inl: "bindR r k = Inl e \<longleftrightarrow> r = Inl e \<or> (\<exists>a. r = Inr a \<and> k a = Inl e)"
  by (cases r) auto

lemma attempt_split:
  "P (attempt r s k) \<longleftrightarrow> (\<forall>e. r = Inl e \<longrightarrow> P (Inl e, s)) \<and> (\<forall>a. r = Inr a \<longrightarrow> P (k a))"
  by (cases r) auto

lemma attempt_split_asm:
  "P (attempt r s k) \<longleftrightarrow> \<not> ((\<exists>e. r = Inl e \<and> \<not> P (Inl e, s)) \<or> (\<exists>a. r = Inr a \<and> \<not> P (k a)))"
  by (cases r) auto

lemmas attempt_splits = attempt_split attempt_split_asm

lemma attempt_eq_ok:
  "attempt r s k = (Inr b, s') \<longleftrightarrow> (\<exists>a. r = Inr a \<and> k a = (Inr b, s'))"
  by (cases r) auto

lemma ok_or_eq_Inr [simp]: "ok_or x e = Inr a \<longleftrightarrow> x = Some a"
  by (cases x) auto

lemma ok_or_eq_Inl [simp]: "ok_or x e = Inl e' \<longleftrightarrow> x = None \<and> e' = e"
  by (cases x) auto

lemma ensure_eq_Inr [simp]: "ensure b e = Inr u \<longleftrightarrow> b"
  by (simp add: ensure_def)

lemma ensure_eq_Inl [simp]: "ensure b e = Inl e' \<longleftrightarrow> \<not> b \<and> e' = e"
  by (auto simp: ensure_def)

lemma map_err_eq_Inr [simp]: "map_err f r = Inr a \<longleftrightarrow> r = Inr a"
  by (cases r) auto

lemma map_err_eq_Inl: "map_err f r = Inl e \<longleftrightarrow> (\<exists>e'. r = Inl e' \<and> e = f e')"
  by (cases r) auto

lemma mapR_append:
  "mapR f (xs @ ys) = bindR (mapR f xs) (\<lambda>as. bindR (mapR f ys) (\<lambda>bs. Inr (as @ bs)))"
  by (induction xs) (auto simp: bindR_def split: sum.splits)

lemma mapR_all_ok: "(\<And>x. x \<in> set xs \<Longrightarrow> f x = Inr (g x)) \<Longrightarrow> mapR f xs = Inr (map g xs)"
  by (induction xs) auto

lemma mapR_round:
  "(\<And>x. x \<in> set xs \<Longrightarrow> dec (enc x) = Inr x) \<Longrightarrow> mapR dec (map enc xs) = Inr xs"
  by (induction xs) auto

section \<open>Machine integers\<close>

type_synonym u8 = "8 word"
type_synonym u32 = "32 word"
type_synonym u64 = "64 word"
type_synonym bytes = "u8 list"

text \<open>
  Unsigned counters are words, with Rust's \<open>saturating_add\<close> and \<open>checked_add\<close> written out.
  Timestamps are \<open>i64\<close> milliseconds, modelled as integers; the only arithmetic the code does on
  them is the saturating addition \<open>sat_add_i64\<close>.
\<close>

definition sat_add :: "'a::len word \<Rightarrow> 'a word \<Rightarrow> 'a word" where
  "sat_add a b = (if unat a + unat b < 2 ^ LENGTH('a) then a + b else - 1)"

definition i64_min :: int where "i64_min = - (2 ^ 63)"

definition i64_max :: int where "i64_max = 2 ^ 63 - 1"

definition sat_add_i64 :: "int \<Rightarrow> int \<Rightarrow> int" where
  "sat_add_i64 a b = max i64_min (min i64_max (a + b))"

lemma unat_sat_add: "unat (sat_add a b) = min (2 ^ LENGTH('a) - 1) (unat a + unat b)"
  for a b :: "'a::len word"
proof (cases "unat a + unat b < 2 ^ LENGTH('a)")
  case True
  then show ?thesis by (simp add: sat_add_def unat_word_ariths)
next
  case False
  then show ?thesis by (simp add: sat_add_def unsigned_minus_1_eq_mask mask_eq_exp_minus_1)
qed

lemma sat_add_le_iff:
  "unat (sat_add a b) \<le> m \<longleftrightarrow> 2 ^ LENGTH('a) - 1 \<le> m \<or> unat a + unat b \<le> m"
  for a b :: "'a::len word"
  by (auto simp: unat_sat_add)

lemma sat_add_i64_within:
  "i64_min \<le> a + b \<Longrightarrow> a + b \<le> i64_max \<Longrightarrow> sat_add_i64 a b = a + b"
  by (simp add: sat_add_i64_def)

lemma sat_add_i64_range: "i64_min \<le> sat_add_i64 a b \<and> sat_add_i64 a b \<le> i64_max"
  by (simp add: sat_add_i64_def i64_min_def i64_max_def)

section \<open>Strings\<close>

text \<open>
  A Rust \<open>String\<close> is its UTF-8 byte sequence, so \<open>length\<close> is \<open>str::len\<close> and the order of
  \<open>List_Lexorder\<close> over \<open>Char_ord\<close> is \<open>str::cmp\<close>. \<open>str::trim\<close> removes Unicode white space; on
  the byte level these are the encodings below (U+0009 to U+000D, U+0020, U+0085, U+00A0, U+1680,
  U+2000 to U+200A, U+2028, U+2029, U+202F, U+205F and U+3000).
\<close>

definition white_space :: "string list" where
  "white_space =
     map (\<lambda>n. [char_of (n::nat)]) [9, 10, 11, 12, 13, 32]
     @ [[CHR 0xC2, CHR 0x85], [CHR 0xC2, CHR 0xA0], [CHR 0xE1, CHR 0x9A, CHR 0x80]]
     @ map (\<lambda>n. [CHR 0xE2, CHR 0x80, char_of (n::nat)])
         [0x80, 0x81, 0x82, 0x83, 0x84, 0x85, 0x86, 0x87, 0x88, 0x89, 0x8A, 0xA8, 0xA9, 0xAF]
     @ [[CHR 0xE2, CHR 0x81, CHR 0x9F], [CHR 0xE3, CHR 0x80, CHR 0x80]]"

text \<open>\<open>strip_front ws s\<close> removes leading members of \<open>ws\<close> as long as there is one.\<close>

function strip_front :: "string list \<Rightarrow> string \<Rightarrow> string" where
  "strip_front ws s =
     (case find (\<lambda>w. w \<noteq> [] \<and> prefix w s) ws of
        None \<Rightarrow> s
      | Some w \<Rightarrow> strip_front ws (drop (length w) s))"
  by pat_completeness auto
termination
proof (relation "measure (\<lambda>(ws, s). length s)")
  fix ws :: "string list" and s w :: string
  assume "find (\<lambda>w. w \<noteq> [] \<and> prefix w s) ws = Some w"
  then have "w \<noteq> [] \<and> prefix w s"
    by (auto simp: find_Some_iff)
  then show "((ws, drop (length w) s), ws, s) \<in> measure (\<lambda>(ws, s). length s)"
    by (cases s) auto
qed auto

declare strip_front.simps [simp del]

definition trim_start :: "string \<Rightarrow> string" where
  "trim_start s = strip_front white_space s"

definition trim_end :: "string \<Rightarrow> string" where
  "trim_end s = rev (strip_front (map rev white_space) (rev s))"

definition trim :: "string \<Rightarrow> string" where
  "trim s = trim_end (trim_start s)"

definition is_ascii_alphanumeric :: "char \<Rightarrow> bool" where
  "is_ascii_alphanumeric c =
     (let n = of_char c :: nat in
      48 \<le> n \<and> n \<le> 57 \<or> 65 \<le> n \<and> n \<le> 90 \<or> 97 \<le> n \<and> n \<le> 122)"

definition is_ascii_hexdigit :: "char \<Rightarrow> bool" where
  "is_ascii_hexdigit c =
     (let n = of_char c :: nat in
      48 \<le> n \<and> n \<le> 57 \<or> 65 \<le> n \<and> n \<le> 70 \<or> 97 \<le> n \<and> n \<le> 102)"

definition to_ascii_lower :: "char \<Rightarrow> char" where
  "to_ascii_lower c =
     (let n = of_char c :: nat in if 65 \<le> n \<and> n \<le> 90 then char_of (n + 32) else c)"

definition to_ascii_lowercase :: "string \<Rightarrow> string" where
  "to_ascii_lowercase s = map to_ascii_lower s"

text \<open>\<open>str::contains\<close>.\<close>

fun contains :: "string \<Rightarrow> string \<Rightarrow> bool" where
  "contains [] needle = (needle = [])"
| "contains (c # cs) needle = (take (length needle) (c # cs) = needle \<or> contains cs needle)"

lemma strip_front_no_prefix:
  "(\<And>w. w \<in> set ws \<Longrightarrow> w \<noteq> [] \<Longrightarrow> \<not> prefix w s) \<Longrightarrow> strip_front ws s = s"
proof -
  assume "\<And>w. w \<in> set ws \<Longrightarrow> w \<noteq> [] \<Longrightarrow> \<not> prefix w s"
  then have "find (\<lambda>w. w \<noteq> [] \<and> prefix w s) ws = None"
    by (auto simp: find_None_iff)
  then show ?thesis
    by (simp add: strip_front.simps [of ws s])
qed

lemma strip_front_result: "w \<in> set ws \<Longrightarrow> w \<noteq> [] \<Longrightarrow> \<not> prefix w (strip_front ws s)"
proof (induction ws s rule: strip_front.induct)
  case (1 ws s)
  show ?case
  proof (cases "find (\<lambda>w. w \<noteq> [] \<and> prefix w s) ws")
    case None
    then have "strip_front ws s = s"
      by (simp add: strip_front.simps [of ws s])
    with None "1.prems" show ?thesis
      by (auto simp: find_None_iff)
  next
    case (Some v)
    with "1.IH" "1.prems" show ?thesis
      by (simp add: strip_front.simps [of ws s])
  qed
qed

lemma suffix_strip_front: "suffix (strip_front ws s) s"
proof (induction ws s rule: strip_front.induct)
  case (1 ws s)
  show ?case
  proof (cases "find (\<lambda>w. w \<noteq> [] \<and> prefix w s) ws")
    case None
    then show ?thesis by (simp add: strip_front.simps [of ws s])
  next
    case (Some w)
    with "1.IH" have "suffix (strip_front ws (drop (length w) s)) (drop (length w) s)"
      by simp
    then show ?thesis
      using Some suffix_drop [of "length w" s]
      by (simp add: strip_front.simps [of ws s] suffix_order.trans)
  qed
qed

section \<open>Hash maps\<close>

text \<open>
  \<open>HashMap<K, V>\<close> is a finite map. Its iteration order is unspecified; wherever the source
  iterates it sorts afterwards by a key that determines the element, so the model enumerates in
  key order.
\<close>

definition fmkeys :: "('k::linorder, 'v) fmap \<Rightarrow> 'k list" where
  "fmkeys m = sorted_list_of_set (fmdom' m)"

definition fmvalues :: "('k::linorder, 'v) fmap \<Rightarrow> 'v list" where
  "fmvalues m = map (\<lambda>k. the (fmlookup m k)) (fmkeys m)"

lemma set_fmkeys [simp]: "set (fmkeys m) = fmdom' m"
  by (simp add: fmkeys_def)

lemma distinct_fmkeys [simp]: "distinct (fmkeys m)"
  by (simp add: fmkeys_def)

lemma sorted_fmkeys [simp]: "sorted (fmkeys m)"
  by (simp add: fmkeys_def)

lemma set_fmvalues: "set (fmvalues m) = {v. \<exists>k. fmlookup m k = Some v}"
  by (force simp: fmvalues_def fmlookup_dom'_iff image_iff)

lemma fmvaluesI: "fmlookup m k = Some v \<Longrightarrow> v \<in> set (fmvalues m)"
  by (auto simp: set_fmvalues)

lemma map_fmvalues:
  "(\<And>k v. fmlookup m k = Some v \<Longrightarrow> f v = k) \<Longrightarrow> map f (fmvalues m) = fmkeys m"
  by (auto simp: fmvalues_def fmlookup_dom'_iff intro!: map_idI)

lemma distinct_fmvalues:
  "(\<And>k v. fmlookup m k = Some v \<Longrightarrow> f v = k) \<Longrightarrow> distinct (fmvalues m)"
  using distinct_map [of f "fmvalues m"] by (simp add: map_fmvalues)

section \<open>Mapping and filtering at once\<close>

lemma set_map_filter: "set (List.map_filter f xs) = {y. \<exists>x \<in> set xs. f x = Some y}"
  by (induction xs) (auto simp: List.map_filter_def split: option.splits)

lemma distinct_map_filter_inj:
  assumes "distinct xs" and "\<And>x y. f x = Some y \<Longrightarrow> g y = x"
  shows "distinct (List.map_filter f xs)"
  using assms unfolding List.map_filter_def
  by (auto simp: distinct_map inj_on_def) (metis option.exhaust_sel)

lemma map_filter_key:
  "(\<And>x y. f x = Some y \<Longrightarrow> g y = h x) \<Longrightarrow> map g (List.map_filter f xs) = map h (filter (\<lambda>x. f x \<noteq> None) xs)"
  by (induction xs) (auto simp: map_filter_simps split: option.split)

section \<open>Sorting by a key that identifies the element\<close>

text \<open>
  Two enumerations of the same elements sort to the same list when the sort key is injective on
  them: the result does not depend on the iteration order of the hash map or on the row order of
  a table.
\<close>

lemma sort_key_unique:
  assumes "inj_on f (set xs)" and "distinct xs" and "distinct ys" and "set xs = set ys"
  shows "sort_key f xs = sort_key f ys"
proof (rule map_sorted_distinct_set_unique [where f = f])
  show "inj_on f (set (sort_key f xs) \<union> set (sort_key f ys))"
    using assms by simp
  show "sorted (map f (sort_key f xs))" and "sorted (map f (sort_key f ys))"
    by simp_all
  show "distinct (map f (sort_key f xs))" and "distinct (map f (sort_key f ys))"
    using assms by (simp_all add: distinct_map)
  show "set (sort_key f xs) = set (sort_key f ys)"
    using assms by simp
qed

end
