(* ===== verification/Core_Task.thy ===== *)
theory Core_Task
  imports Prelude
begin

text \<open>
  The domain model of \<open>keryx-core\<close>: validated identifiers (\<open>error.rs\<close>, \<open>peer_id.rs\<close>,
  \<open>task_handle.rs\<close>, \<open>agent_card.rs\<close>), the four-state task lifecycle with its cancellation
  transitions (\<open>task.rs\<close>), and the compatibility layer for legacy event types (\<open>legacy.rs\<close>).

  The lemmas show that identifiers in the store are fixed points of their own validation, that
  \<open>validate_transition\<close> accepts exactly the lifecycle relation, that terminal states have no exit,
  and which legacy transitions leave the canonical lifecycle.
\<close>

section \<open>Statuses, events and validation errors\<close>

datatype task_status = Pending | Running | Completed | Failed

datatype event_type =
    TaskAccepted | TaskQueued | TaskApprovalRequested | TaskApprovalGranted | TaskApprovalDenied
  | TaskLeased | TaskStarted | TaskAwaitingInput | TaskCompleted | TaskFailed | TaskCanceled
  | TaskTimedOut | TaskDeadLettered | RecoveryAction

datatype validation_error =
    MissingIdValue string
  | InvalidIdValue string string
  | VArtifactTooLarge nat nat
  | InvalidDigest string
  | VArtifactNotFound string
  | VLimitExceeded string u64 u64
  | InvalidTaskTransition task_status task_status
  | CancelNotApplicable task_status
  | TerminalTaskTransition task_status task_status

datatype core_error =
    CoreValidation validation_error
  | CoreTaskNotFound string
  | CorePolicyDenied string

section \<open>Identifiers\<close>

text \<open>
  Each identifier type (\<open>TaskId\<close>, \<open>PeerId\<close>, \<open>NodeId\<close>, \<open>AgentId\<close>, \<open>CapabilityId\<close>, \<open>LeaseId\<close>,
  \<open>IdempotencyKey\<close>, \<open>ArtifactId\<close>, ...) is a newtype over \<open>String\<close> whose only constructor is
  \<open>validate_identifier\<close> with the type's own name as \<open>kind\<close>.
\<close>

type_synonym task_id = string
type_synonym peer_id = string
type_synonym agent_id = string
type_synonym lease_id = string
type_synonym idempotency_key = string
type_synonym artifact_id = string
type_synonym capability_id = string

definition max_id_len :: nat where
  "max_id_len = 128"

definition is_allowed_id_char :: "char \<Rightarrow> bool" where
  "is_allowed_id_char ch \<longleftrightarrow> is_ascii_alphanumeric ch \<or> ch \<in> set ''-_.:''"

definition validate_identifier :: "string \<Rightarrow> string \<Rightarrow> validation_error + string" where
  "validate_identifier kind raw =
     (let trimmed = trim raw in
      if trimmed = [] then Inl (MissingIdValue kind)
      else if length trimmed > max_id_len \<or> \<not> list_all is_allowed_id_char trimmed
        then Inl (InvalidIdValue kind raw)
      else Inr trimmed)"

definition task_id_new :: "string \<Rightarrow> validation_error + task_id" where
  "task_id_new value = validate_identifier ''TaskId'' value"

definition peer_id_new :: "string \<Rightarrow> validation_error + peer_id" where
  "peer_id_new value = validate_identifier ''PeerId'' value"

definition agent_id_new :: "string \<Rightarrow> validation_error + agent_id" where
  "agent_id_new value = validate_identifier ''AgentId'' value"

definition lease_id_new :: "string \<Rightarrow> validation_error + lease_id" where
  "lease_id_new value = validate_identifier ''LeaseId'' value"

definition idempotency_key_new :: "string \<Rightarrow> validation_error + idempotency_key" where
  "idempotency_key_new value = validate_identifier ''IdempotencyKey'' value"

definition artifact_id_new :: "string \<Rightarrow> validation_error + artifact_id" where
  "artifact_id_new value = validate_identifier ''ArtifactId'' value"

text \<open>The strings a validated identifier can hold.\<close>

definition valid_id :: "string \<Rightarrow> bool" where
  "valid_id s \<longleftrightarrow> s \<noteq> [] \<and> length s \<le> max_id_len \<and> list_all is_allowed_id_char s"

section \<open>The lifecycle\<close>

fun is_terminal :: "task_status \<Rightarrow> bool" where
  "is_terminal Completed = True"
| "is_terminal Failed = True"
| "is_terminal _ = False"

record task_transition =
  tt_from :: task_status
  tt_to :: task_status
  tt_event_type :: event_type

fun is_cancel_applicable :: "task_status \<Rightarrow> bool" where
  "is_cancel_applicable Pending = True"
| "is_cancel_applicable Running = True"
| "is_cancel_applicable _ = False"

definition event_for_cancel_transition :: "task_status \<Rightarrow> core_error + event_type" where
  "event_for_cancel_transition from =
     (if is_cancel_applicable from then Inr TaskCanceled
      else Inl (CoreValidation (CancelNotApplicable from)))"

definition validate_cancel_transition :: "task_status \<Rightarrow> core_error + task_transition" where
  "validate_cancel_transition from =
     bindR (event_for_cancel_transition from) (\<lambda>event_type.
     Inr \<lparr>tt_from = from, tt_to = Failed, tt_event_type = event_type\<rparr>)"

fun is_legal_transition :: "task_status \<Rightarrow> task_status \<Rightarrow> bool" where
  "is_legal_transition Pending Running = True"
| "is_legal_transition Running Completed = True"
| "is_legal_transition Running Failed = True"
| "is_legal_transition _ _ = False"

text \<open>
  The \<open>unreachable!\<close> arm of the match in \<open>event_for_transition\<close> is guarded by
  \<open>is_legal_transition\<close>; the model returns \<open>None\<close> there and \<open>event_for_transition_total\<close> below
  shows that the arm is never taken.
\<close>

fun legal_event :: "task_status \<Rightarrow> task_status \<Rightarrow> event_type option" where
  "legal_event Pending Running = Some TaskStarted"
| "legal_event Running Completed = Some TaskCompleted"
| "legal_event Running Failed = Some TaskFailed"
| "legal_event _ _ = None"

definition event_for_transition ::
  "task_status \<Rightarrow> task_status \<Rightarrow> (core_error + event_type) option" where
  "event_for_transition from to =
     (if \<not> is_legal_transition from to then
        Some (Inl (CoreValidation (if is_terminal from then TerminalTaskTransition from to
                                   else InvalidTaskTransition from to)))
      else map_option Inr (legal_event from to))"

definition validate_transition ::
  "task_status \<Rightarrow> task_status \<Rightarrow> core_error + task_transition" where
  "validate_transition from to =
     bindR (the (event_for_transition from to)) (\<lambda>event_type.
     Inr \<lparr>tt_from = from, tt_to = to, tt_event_type = event_type\<rparr>)"

section \<open>The task value\<close>

record task =
  t_id :: task_id
  t_status :: task_status
  t_assignee :: "peer_id option"
  t_retry_count :: u32
  t_dead_lettered :: bool

definition task_new :: "task_id \<Rightarrow> task" where
  "task_new i = \<lparr>t_id = i, t_status = Pending, t_assignee = None, t_retry_count = 0,
                 t_dead_lettered = False\<rparr>"

definition task_with_assignee :: "task_id \<Rightarrow> peer_id \<Rightarrow> task" where
  "task_with_assignee i p = \<lparr>t_id = i, t_status = Pending, t_assignee = Some p,
                             t_retry_count = 0, t_dead_lettered = False\<rparr>"

definition transition_to :: "task \<Rightarrow> task_status \<Rightarrow> (core_error + task_transition) \<times> task" where
  "transition_to t next =
     attempt (validate_transition (t_status t) next) t (\<lambda>transition.
     (Inr transition, t\<lparr>t_status := next\<rparr>))"

definition mark_running :: "task \<Rightarrow> (core_error + task_transition) \<times> task" where
  "mark_running t = transition_to t Running"

definition mark_completed :: "task \<Rightarrow> (core_error + task_transition) \<times> task" where
  "mark_completed t = transition_to t Completed"

definition mark_failed :: "task \<Rightarrow> (core_error + task_transition) \<times> task" where
  "mark_failed t = transition_to t Failed"

record cancel_requested =
  cr_task_id :: task_id
  cr_status :: task_status

definition cancel_requested_new :: "task_id \<Rightarrow> task_status \<Rightarrow> core_error + cancel_requested" where
  "cancel_requested_new i status =
     (if is_cancel_applicable status then Inr \<lparr>cr_task_id = i, cr_status = status\<rparr>
      else Inl (CoreValidation (CancelNotApplicable status)))"

definition request_cancel :: "task \<Rightarrow> core_error + cancel_requested" where
  "request_cancel t = cancel_requested_new (t_id t) (t_status t)"

record canceled =
  ca_task_id :: task_id
  ca_transition :: task_transition

definition canceled_new :: "task_id \<Rightarrow> task_status \<Rightarrow> core_error + canceled" where
  "canceled_new i from =
     bindR (validate_cancel_transition from) (\<lambda>transition.
     Inr \<lparr>ca_task_id = i, ca_transition = transition\<rparr>)"

definition mark_canceled :: "task \<Rightarrow> (core_error + task_transition) \<times> task" where
  "mark_canceled t =
     attempt (validate_cancel_transition (t_status t)) t (\<lambda>transition.
     (Inr transition, t\<lparr>t_status := tt_to transition\<rparr>))"

definition cancel :: "task \<Rightarrow> (core_error + canceled) \<times> task" where
  "cancel t =
     attempt (canceled_new (t_id t) (t_status t)) t (\<lambda>c.
     (Inr c, t\<lparr>t_status := tt_to (ca_transition c)\<rparr>))"

datatype cancellation_event_type = CancelRequestedEvent | CanceledEvent

fun lifecycle_event_type :: "cancellation_event_type \<Rightarrow> event_type option" where
  "lifecycle_event_type CancelRequestedEvent = None"
| "lifecycle_event_type CanceledEvent = Some TaskCanceled"

section \<open>Legacy events\<close>

datatype legacy_event =
    LTaskQueued | LTaskApprovalRequested | LTaskApprovalGranted | LTaskApprovalDenied
  | LTaskLeased | LTaskStarted | LTaskAwaitingInput | LTaskCompleted | LTaskFailed
  | LTaskCanceled | LTaskTimedOut | LTaskDeadLettered

fun as_keryx_event_type :: "legacy_event \<Rightarrow> event_type" where
  "as_keryx_event_type LTaskQueued = TaskQueued"
| "as_keryx_event_type LTaskApprovalRequested = TaskApprovalRequested"
| "as_keryx_event_type LTaskApprovalGranted = TaskApprovalGranted"
| "as_keryx_event_type LTaskApprovalDenied = TaskApprovalDenied"
| "as_keryx_event_type LTaskLeased = TaskLeased"
| "as_keryx_event_type LTaskStarted = TaskStarted"
| "as_keryx_event_type LTaskAwaitingInput = TaskAwaitingInput"
| "as_keryx_event_type LTaskCompleted = TaskCompleted"
| "as_keryx_event_type LTaskFailed = TaskFailed"
| "as_keryx_event_type LTaskCanceled = TaskCanceled"
| "as_keryx_event_type LTaskTimedOut = TaskTimedOut"
| "as_keryx_event_type LTaskDeadLettered = TaskDeadLettered"

fun from_keryx_event_type :: "event_type \<Rightarrow> legacy_event option" where
  "from_keryx_event_type TaskQueued = Some LTaskQueued"
| "from_keryx_event_type TaskApprovalRequested = Some LTaskApprovalRequested"
| "from_keryx_event_type TaskApprovalGranted = Some LTaskApprovalGranted"
| "from_keryx_event_type TaskApprovalDenied = Some LTaskApprovalDenied"
| "from_keryx_event_type TaskLeased = Some LTaskLeased"
| "from_keryx_event_type TaskStarted = Some LTaskStarted"
| "from_keryx_event_type TaskAwaitingInput = Some LTaskAwaitingInput"
| "from_keryx_event_type TaskCompleted = Some LTaskCompleted"
| "from_keryx_event_type TaskFailed = Some LTaskFailed"
| "from_keryx_event_type TaskCanceled = Some LTaskCanceled"
| "from_keryx_event_type TaskTimedOut = Some LTaskTimedOut"
| "from_keryx_event_type TaskDeadLettered = Some LTaskDeadLettered"
| "from_keryx_event_type TaskAccepted = None"
| "from_keryx_event_type RecoveryAction = None"

text \<open>
  \<open>CanonicalTransition\<close> has the fields of \<open>TaskTransition\<close>, and \<open>into_task_transition\<close> copies
  them, so the model uses \<^typ>\<open>task_transition\<close> for both.
\<close>

fun normalize_legacy_transition :: "task_status \<Rightarrow> legacy_event \<Rightarrow> task_transition option" where
  "normalize_legacy_transition Pending LTaskLeased =
     Some \<lparr>tt_from = Pending, tt_to = Running, tt_event_type = TaskStarted\<rparr>"
| "normalize_legacy_transition Pending LTaskStarted =
     Some \<lparr>tt_from = Pending, tt_to = Running, tt_event_type = TaskStarted\<rparr>"
| "normalize_legacy_transition Running LTaskCompleted =
     Some \<lparr>tt_from = Running, tt_to = Completed, tt_event_type = TaskCompleted\<rparr>"
| "normalize_legacy_transition Running LTaskFailed =
     Some \<lparr>tt_from = Running, tt_to = Failed, tt_event_type = TaskFailed\<rparr>"
| "normalize_legacy_transition Running LTaskCanceled =
     Some \<lparr>tt_from = Running, tt_to = Failed, tt_event_type = TaskFailed\<rparr>"
| "normalize_legacy_transition Running LTaskTimedOut =
     Some \<lparr>tt_from = Running, tt_to = Failed, tt_event_type = TaskFailed\<rparr>"
| "normalize_legacy_transition Running LTaskDeadLettered =
     Some \<lparr>tt_from = Running, tt_to = Failed, tt_event_type = TaskFailed\<rparr>"
| "normalize_legacy_transition Pending LTaskApprovalDenied =
     Some \<lparr>tt_from = Pending, tt_to = Failed, tt_event_type = TaskFailed\<rparr>"
| "normalize_legacy_transition _ _ = None"

fun is_valid_operational_legacy :: "task_status \<Rightarrow> legacy_event \<Rightarrow> bool" where
  "is_valid_operational_legacy Pending LTaskQueued = True"
| "is_valid_operational_legacy Pending LTaskApprovalRequested = True"
| "is_valid_operational_legacy Pending LTaskApprovalGranted = True"
| "is_valid_operational_legacy Running LTaskAwaitingInput = True"
| "is_valid_operational_legacy _ _ = False"

section \<open>Agent cards\<close>

record agent_card =
  ac_id :: agent_id
  ac_name :: string
  ac_description :: string
  ac_skills :: "capability_id list"

definition agent_card_new ::
  "agent_id \<Rightarrow> string \<Rightarrow> string \<Rightarrow> validation_error + agent_card" where
  "agent_card_new i name description =
     bindR (validate_identifier ''AgentCardName'' name) (\<lambda>name.
     Inr \<lparr>ac_id = i, ac_name = name, ac_description = trim description, ac_skills = []\<rparr>)"

definition add_skill :: "agent_card \<Rightarrow> capability_id \<Rightarrow> bool \<times> agent_card" where
  "add_skill ac skill =
     (if list_ex (\<lambda>existing. existing = skill) (ac_skills ac) then (False, ac)
      else (True, ac\<lparr>ac_skills := ac_skills ac @ [skill]\<rparr>))"

definition has_skill :: "agent_card \<Rightarrow> capability_id \<Rightarrow> bool" where
  "has_skill ac capability = list_ex (\<lambda>skill. skill = capability) (ac_skills ac)"

definition skill_of :: "agent_card \<Rightarrow> capability_id \<Rightarrow> capability_id option" where
  "skill_of ac capability = find (\<lambda>skill. skill = capability) (ac_skills ac)"

section \<open>Identifier lemmas\<close>

text \<open>No byte of an encoded white-space character is allowed in an identifier.\<close>

lemma white_space_bytes:
  "list_all (\<lambda>w. w \<noteq> [] \<and> \<not> is_allowed_id_char (hd w) \<and> \<not> is_allowed_id_char (last w)) white_space"
  by code_simp

lemma white_space_not_allowed:
  "w \<in> set white_space \<Longrightarrow> w \<noteq> [] \<and> \<not> is_allowed_id_char (hd w) \<and> \<not> is_allowed_id_char (last w)"
  using white_space_bytes by (auto simp: list_all_iff)

lemma trim_allowed: "list_all is_allowed_id_char s \<Longrightarrow> trim s = s"
proof -
  assume s: "list_all is_allowed_id_char s"
  have front: "strip_front white_space s = s"
  proof (rule strip_front_no_prefix)
    fix w assume w: "w \<in> set white_space" "w \<noteq> []"
    show "\<not> prefix w s"
    proof
      assume "prefix w s"
      then have "hd w \<in> set s"
        using w by (auto simp: prefix_def)
      with s w show False
        using white_space_not_allowed by (auto simp: list_all_iff)
    qed
  qed
  have rear: "strip_front (map rev white_space) (rev s) = rev s"
  proof (rule strip_front_no_prefix)
    fix v assume v: "v \<in> set (map rev white_space)" "v \<noteq> []"
    then obtain w where w: "w \<in> set white_space" "v = rev w" by auto
    show "\<not> prefix v (rev s)"
    proof
      assume "prefix v (rev s)"
      then have "suffix w s"
        using w by (simp add: suffix_to_prefix)
      then have "last w \<in> set s"
        using v w by (auto simp: suffix_def)
      with s w show False
        using white_space_not_allowed by (auto simp: list_all_iff)
    qed
  qed
  show ?thesis
    by (simp add: trim_def trim_start_def trim_end_def front rear)
qed

lemma validate_identifier_valid:
  "validate_identifier kind raw = Inr s \<Longrightarrow> valid_id s \<and> s = trim raw"
  by (auto simp: validate_identifier_def valid_id_def Let_def split: if_splits)

lemma validate_identifier_fixed: "valid_id s \<Longrightarrow> validate_identifier kind s = Inr s"
  by (auto simp: validate_identifier_def valid_id_def trim_allowed Let_def)

lemmas id_new_defs = task_id_new_def peer_id_new_def agent_id_new_def lease_id_new_def
  idempotency_key_new_def artifact_id_new_def

lemma id_new_fixed [simp]:
  "valid_id s \<Longrightarrow> task_id_new s = Inr s"
  "valid_id s \<Longrightarrow> peer_id_new s = Inr s"
  "valid_id s \<Longrightarrow> agent_id_new s = Inr s"
  "valid_id s \<Longrightarrow> lease_id_new s = Inr s"
  "valid_id s \<Longrightarrow> idempotency_key_new s = Inr s"
  "valid_id s \<Longrightarrow> artifact_id_new s = Inr s"
  by (simp_all add: id_new_defs validate_identifier_fixed)

section \<open>Lifecycle lemmas\<close>

text \<open>The lifecycle as a relation: the arrows of the state diagram with their events.\<close>

inductive lifecycle :: "task_status \<Rightarrow> event_type \<Rightarrow> task_status \<Rightarrow> bool" where
  start: "lifecycle Pending TaskStarted Running"
| complete: "lifecycle Running TaskCompleted Completed"
| fail: "lifecycle Running TaskFailed Failed"

inductive_simps lifecycle_iff: "lifecycle from e to"

lemma event_for_transition_total: "event_for_transition from to \<noteq> None"
  by (cases "from"; cases to) (simp_all add: event_for_transition_def)

lemma validate_transition_Inr:
  "validate_transition from to = Inr t \<longleftrightarrow>
     tt_from t = from \<and> tt_to t = to \<and> lifecycle from (tt_event_type t) to"
proof -
  have eq: "t = \<lparr>tt_from = from, tt_to = to, tt_event_type = e\<rparr> \<longleftrightarrow>
      tt_from t = from \<and> tt_to t = to \<and> tt_event_type t = e" for e
    by (cases t) auto
  show ?thesis
    by (cases "from"; cases to)
      (auto simp: validate_transition_def event_for_transition_def lifecycle_iff eq
        simp flip: eq)
qed

lemma validate_transition_simps [simp]:
  "validate_transition Pending Running =
     Inr \<lparr>tt_from = Pending, tt_to = Running, tt_event_type = TaskStarted\<rparr>"
  "validate_transition Running Completed =
     Inr \<lparr>tt_from = Running, tt_to = Completed, tt_event_type = TaskCompleted\<rparr>"
  "validate_transition Running Failed =
     Inr \<lparr>tt_from = Running, tt_to = Failed, tt_event_type = TaskFailed\<rparr>"
  by (simp_all add: validate_transition_def event_for_transition_def)

lemma validate_transition_fields:
  "validate_transition from to = Inr t \<Longrightarrow> tt_from t = from \<and> tt_to t = to"
  by (simp add: validate_transition_Inr)

lemma validate_transition_into_Running:
  "validate_transition from Running = Inr t \<Longrightarrow> from = Pending \<and> tt_event_type t = TaskStarted"
  by (auto simp: validate_transition_Inr lifecycle_iff)

lemma validate_cancel_transition_Inr:
  "validate_cancel_transition from = Inr t \<longleftrightarrow>
     \<not> is_terminal from \<and> t = \<lparr>tt_from = from, tt_to = Failed, tt_event_type = TaskCanceled\<rparr>"
  by (cases "from") (auto simp: validate_cancel_transition_def event_for_cancel_transition_def)

lemma is_terminal_iff: "is_terminal s \<longleftrightarrow> s = Completed \<or> s = Failed"
  by (cases s) auto

lemma lifecycle_not_from_terminal: "lifecycle from e to \<Longrightarrow> \<not> is_terminal from"
  by (auto simp: lifecycle_iff)

section \<open>Legacy lemmas\<close>

lemma from_as_keryx_event_type [simp]: "from_keryx_event_type (as_keryx_event_type e) = Some e"
  by (cases e) auto

lemma normalize_legacy_from:
  "normalize_legacy_transition from e = Some t \<Longrightarrow> tt_from t = from"
  by (cases "from"; cases e) auto

text \<open>
  Every normalised legacy transition is an arrow of the lifecycle, except the denial of a pending
  approval, which jumps from \<open>Pending\<close> to \<open>Failed\<close> under the event \<open>TaskFailed\<close>.
\<close>

lemma normalize_legacy_lifecycle:
  "normalize_legacy_transition from e = Some t \<Longrightarrow>
     lifecycle from (tt_event_type t) (tt_to t) \<or>
     from = Pending \<and> e = LTaskApprovalDenied \<and> tt_to t = Failed \<and> tt_event_type t = TaskFailed"
  by (cases "from"; cases e) (auto simp: lifecycle_iff)

lemma operational_legacy_status:
  "is_valid_operational_legacy from e \<Longrightarrow> \<not> is_terminal from"
  by (cases "from"; cases e) auto

end
