(* ===== verification/Core_Limits.thy ===== *)
theory Core_Limits
  imports Core_Task
begin

text \<open>
  The policy values of \<open>keryx-core\<close>: the retry policy of worker-reported failures
  (\<open>retry_policy.rs\<close>), the resource limits of the daemon (\<open>limits.rs\<close>) and the artifact values
  (\<open>artifact.rs\<close>): digests, media types, size classes and origin-owned artifact identities.
  SHA-256 is the parameter \<open>sha256\<close>; that it returns 32 bytes is the hypothesis of the lemmas that
  need it. Counters are words of the width the code gives them, so saturation is part of the model.
\<close>

section \<open>Retry policy\<close>

record retry_policy =
  max_retries :: u32
  backoff_ms :: u64
  dead_letter_after :: u32

definition no_retries :: retry_policy where
  "no_retries = \<lparr>max_retries = 0, backoff_ms = 0, dead_letter_after = 1\<rparr>"

definition default_retry_policy :: retry_policy where
  "default_retry_policy = \<lparr>max_retries = 3, backoff_ms = 1000, dead_letter_after = 4\<rparr>"

definition should_retry_after_failure :: "retry_policy \<Rightarrow> u32 \<Rightarrow> bool" where
  "should_retry_after_failure p current_retry_count \<longleftrightarrow>
     max_retries p > 0 \<and> sat_add current_retry_count 1 \<le> max_retries p"

definition should_dead_letter_after_failure :: "retry_policy \<Rightarrow> u32 \<Rightarrow> bool" where
  "should_dead_letter_after_failure p current_retry_count \<longleftrightarrow>
     (let next = sat_add current_retry_count 1 in
      max_retries p = 0 \<or> next > max_retries p \<or> next \<ge> dead_letter_after p)"

section \<open>Resource limits\<close>

datatype limit_kind = PendingTasks | EnvelopeBytes | RetainedEnvelopeBytes

fun limit_kind_as_str :: "limit_kind \<Rightarrow> string" where
  "limit_kind_as_str PendingTasks = ''pending_tasks''"
| "limit_kind_as_str EnvelopeBytes = ''envelope_bytes''"
| "limit_kind_as_str RetainedEnvelopeBytes = ''retained_envelope_bytes''"

record limits_config =
  max_pending_tasks :: u64
  max_envelope_bytes :: u64
  max_retained_envelope_bytes :: u64

record limit_exceeded =
  le_kind :: limit_kind
  le_current :: u64
  le_max :: u64

definition default_limits :: limits_config where
  "default_limits = \<lparr>max_pending_tasks = 10000, max_envelope_bytes = 4 * 1024 * 1024,
                     max_retained_envelope_bytes = 256 * 1024 * 1024\<rparr>"

definition unlimited :: limits_config where
  "unlimited = \<lparr>max_pending_tasks = 0, max_envelope_bytes = 0, max_retained_envelope_bytes = 0\<rparr>"

definition check_pending_tasks :: "limits_config \<Rightarrow> u64 \<Rightarrow> limit_exceeded + unit" where
  "check_pending_tasks cfg current =
     (if max_pending_tasks cfg > 0 \<and> current \<ge> max_pending_tasks cfg
      then Inl \<lparr>le_kind = PendingTasks, le_current = current, le_max = max_pending_tasks cfg\<rparr>
      else Inr ())"

definition check_envelope_bytes :: "limits_config \<Rightarrow> u64 \<Rightarrow> limit_exceeded + unit" where
  "check_envelope_bytes cfg byte_len =
     (if max_envelope_bytes cfg > 0 \<and> byte_len > max_envelope_bytes cfg
      then Inl \<lparr>le_kind = EnvelopeBytes, le_current = byte_len, le_max = max_envelope_bytes cfg\<rparr>
      else Inr ())"

definition check_retained_envelope_bytes ::
  "limits_config \<Rightarrow> u64 \<Rightarrow> u64 \<Rightarrow> limit_exceeded + unit" where
  "check_retained_envelope_bytes cfg current incoming =
     (let after_accept = sat_add current incoming in
      if max_retained_envelope_bytes cfg > 0 \<and> after_accept > max_retained_envelope_bytes cfg
      then Inl \<lparr>le_kind = RetainedEnvelopeBytes, le_current = after_accept,
                le_max = max_retained_envelope_bytes cfg\<rparr>
      else Inr ())"

definition limit_exceeded_to_validation :: "limit_exceeded \<Rightarrow> validation_error" where
  "limit_exceeded_to_validation v =
     VLimitExceeded (limit_kind_as_str (le_kind v)) (le_current v) (le_max v)"

section \<open>Artifact values\<close>

definition max_inline_artifact_bytes :: nat where
  "max_inline_artifact_bytes = 64 * 1024"

definition max_blob_bytes :: nat where
  "max_blob_bytes = 256 * 1024 * 1024"

definition max_cross_node_result_artifact_bytes :: nat where
  "max_cross_node_result_artifact_bytes = 4 * 1024 * 1024"

definition result_artifact_frame_max_bytes :: nat where
  "result_artifact_frame_max_bytes = 5 * 1024 * 1024"

text \<open>\<open>str::as_bytes\<close>, \<open>u32::to_be_bytes\<close> and the \<open>{:x}\<close> rendering of a byte array.\<close>

definition as_bytes :: "string \<Rightarrow> bytes" where
  "as_bytes s = map of_char s"

definition to_be_bytes :: "u32 \<Rightarrow> bytes" where
  "to_be_bytes n = map (\<lambda>k. ucast (drop_bit k n)) [24, 16, 8, 0]"

definition hex_digit :: "nat \<Rightarrow> char" where
  "hex_digit n = ''0123456789abcdef'' ! (n mod 16)"

definition lower_hex :: "bytes \<Rightarrow> string" where
  "lower_hex bs = concat (map (\<lambda>b. [hex_digit (unat b div 16), hex_digit (unat b)]) bs)"

type_synonym digest = string
type_synonym media_type = string

definition digest_new :: "string \<Rightarrow> validation_error + digest" where
  "digest_new raw =
     (let normalized = to_ascii_lowercase (trim raw) in
      if length normalized \<noteq> 64 \<or> \<not> list_all is_ascii_hexdigit normalized
      then Inl (InvalidDigest raw) else Inr normalized)"

definition digest_compute :: "(bytes \<Rightarrow> bytes) \<Rightarrow> bytes \<Rightarrow> digest" where
  "digest_compute sha256 bs = lower_hex (sha256 bs)"

definition octet_stream :: media_type where
  "octet_stream = ''application/octet-stream''"

definition media_type_new :: "string \<Rightarrow> media_type" where
  "media_type_new value =
     (let normalized = to_ascii_lowercase (trim value) in
      if normalized = [] then octet_stream else normalized)"

definition origin_result_artifact_id :: "(bytes \<Rightarrow> bytes) \<Rightarrow> task_id \<Rightarrow> u32 \<Rightarrow> artifact_id" where
  "origin_result_artifact_id sha256 task_id ordinal =
     ''origin-result-'' @ lower_hex (sha256 (as_bytes task_id @ [0] @ to_be_bytes ordinal))"

record artifact_meta =
  am_artifact_id :: artifact_id
  am_task_id :: task_id
  am_digest :: digest
  am_media_type :: media_type
  am_byte_len :: nat
  am_inline :: bool
  am_created_at :: string

definition validate_artifact_size :: "nat \<Rightarrow> validation_error + unit" where
  "validate_artifact_size byte_len =
     (if byte_len > max_blob_bytes then Inl (VArtifactTooLarge byte_len max_blob_bytes) else Inr ())"

definition should_inline :: "nat \<Rightarrow> bool" where
  "should_inline byte_len \<longleftrightarrow> byte_len \<le> max_inline_artifact_bytes"

section \<open>Lemmas\<close>

lemma should_retry_unat:
  "should_retry_after_failure p n \<longleftrightarrow>
     0 < unat (max_retries p) \<and> min (unat n + 1) (2 ^ 32 - 1) \<le> unat (max_retries p)"
  by (auto simp: should_retry_after_failure_def word_le_nat_alt word_less_nat_alt unat_sat_add
      simp flip: unat_gt_0)

text \<open>
  With the documented default \<open>dead_letter_after = max_retries + 1\<close> the two predicates are
  complementary; a smaller \<open>dead_letter_after\<close> makes both hold at once.
\<close>

lemma retry_or_dead_letter:
  "\<not> should_retry_after_failure p n \<Longrightarrow> should_dead_letter_after_failure p n"
  by (auto simp: should_retry_after_failure_def should_dead_letter_after_failure_def Let_def
      not_le word_neq_0_conv)

lemma retry_dead_letter_exclusive:
  assumes "unat (dead_letter_after p) = unat (max_retries p) + 1"
  shows "should_retry_after_failure p n \<longleftrightarrow> \<not> should_dead_letter_after_failure p n"
  using assms
  by (auto simp: should_retry_after_failure_def should_dead_letter_after_failure_def Let_def
      word_le_nat_alt word_less_nat_alt simp flip: unat_gt_0)

lemma lower_hex_length: "length (lower_hex bs) = 2 * length bs"
  by (induction bs) (simp_all add: lower_hex_def)

lemma hex_digit_table:
  "list_all (\<lambda>n. is_ascii_hexdigit (hex_digit n) \<and> is_allowed_id_char (hex_digit n) \<and>
     to_ascii_lower (hex_digit n) = hex_digit n) [0..<16]"
  by code_simp

lemma hex_digit_props:
  "is_ascii_hexdigit (hex_digit n)" "is_allowed_id_char (hex_digit n)"
  "to_ascii_lower (hex_digit n) = hex_digit n"
proof -
  have "n mod 16 \<in> set [0..<16]" by simp
  then have "is_ascii_hexdigit (hex_digit (n mod 16)) \<and> is_allowed_id_char (hex_digit (n mod 16)) \<and>
      to_ascii_lower (hex_digit (n mod 16)) = hex_digit (n mod 16)"
    using hex_digit_table unfolding list_all_iff by blast
  moreover have "hex_digit (n mod 16) = hex_digit n"
    by (simp add: hex_digit_def)
  ultimately show "is_ascii_hexdigit (hex_digit n)" "is_allowed_id_char (hex_digit n)"
    "to_ascii_lower (hex_digit n) = hex_digit n" by auto
qed

lemma lower_hex_chars:
  "list_all is_ascii_hexdigit (lower_hex bs)" "list_all is_allowed_id_char (lower_hex bs)"
  "to_ascii_lowercase (lower_hex bs) = lower_hex bs"
  by (induction bs) (simp_all add: lower_hex_def to_ascii_lowercase_def hex_digit_props)

text \<open>A computed digest is its own parse.\<close>

lemma digest_new_compute:
  assumes "length (sha256 bs) = 32"
  shows "digest_new (digest_compute sha256 bs) = Inr (digest_compute sha256 bs)"
  using assms
  by (simp add: digest_new_def digest_compute_def trim_allowed lower_hex_chars lower_hex_length Let_def)

lemma origin_result_artifact_id_valid:
  assumes "length (sha256 (as_bytes tid @ [0] @ to_be_bytes k)) = 32"
  shows "valid_id (origin_result_artifact_id sha256 tid k)"
proof -
  have "list_all is_allowed_id_char ''origin-result-''" by code_simp
  then show ?thesis
    using assms
    by (simp add: valid_id_def origin_result_artifact_id_def lower_hex_length lower_hex_chars
        max_id_len_def)
qed

end
