(* ===== verification/Store_Types.thy ===== *)
theory Store_Types
  imports Core_Limits
begin

text \<open>
  The vocabulary of \<open>keryx-store\<close> that both backends share: \<open>StoreError\<close>, the records of
  \<open>lib.rs\<close> and \<open>results.rs\<close>, the guard functions (\<open>ensure_...\<close>, \<open>require_status\<close>,
  \<open>validate_...\<close>) and the replay of an event stream against a task snapshot.

  A timestamp is an \<^typ>\<open>int\<close>, a sequence number (\<open>u64\<close>, one per appended event) a \<^typ>\<open>nat\<close>.
  The central lemmas are \<open>replay_snoc\<close>, which says what one more event does to a stream that
  replays, and the relation \<open>task_step\<close> of the event-sourced task, which every store operation
  follows.
\<close>

section \<open>Errors\<close>

datatype remote_result_terminal_reason = DeadlineExpired | RemoteCanceled

fun terminal_reason_as_str :: "remote_result_terminal_reason \<Rightarrow> string" where
  "terminal_reason_as_str DeadlineExpired = ''deadline_expired''"
| "terminal_reason_as_str RemoteCanceled = ''canceled''"

datatype store_error =
    TaskNotFound task_id
  | TaskAlreadyExists task_id
  | ArtifactNotFound artifact_id
  | ArtifactTooLarge nat nat
  | DigestMismatch string string
  | ArtifactLengthMismatch nat nat
  | OriginResultArtifactIdMismatch task_id u32
  | OriginResultArtifactOrdinalMismatch u32 u32
  | OriginResultArtifactTaskMismatch task_id task_id
  | OriginResultArtifactConflict artifact_id
  | IdempotencyConflict idempotency_key task_id
  | TaskEnvelopeNotFound task_id
  | TaskEnvelopeMismatch task_id task_id
  | TaskEnvelopeConflict task_id
  | TransportContextNotFound task_id
  | TransportContextConflict task_id
  | TaskExecutorMismatch task_id peer_id peer_id
  | TransportContextTaskMismatch task_id task_id
  | TerminalResultNotFound task_id
  | TerminalResultConflict task_id
  | TerminalResultTaskMismatch task_id task_id
  | TerminalResultNotTerminal task_id
  | ResultDeliveryLeaseMismatch string
  | RemoteResultExecutorMismatch task_id peer_id peer_id
  | RemoteResultTerminallySettled task_id remote_result_terminal_reason
  | RemoteResultTerminalArtifactsRejected task_id remote_result_terminal_reason
  | Validation validation_error
  | CorruptEventStream task_id
  | LockPoisoned
  | LeaseNotFound task_id
  | LeaseConflict task_id
  | TaskDeadlineExpired task_id int int
  | CancellationLeaseProofRequired task_id
  | LeaseMismatch task_id lease_id
  | LeaseOwnerMismatch task_id agent_id
  | LeaseOwnerMissing task_id lease_id
  | InvalidLeaseExpiry lease_id int int int
  | UnsupportedSchema int int
  | MigrationFailed string
  | UnrepairedCorruption "task_id list"
  | BlobDir string
  | Database string

fun from_core_error :: "core_error \<Rightarrow> store_error" where
  "from_core_error (CoreValidation error) = Validation error"
| "from_core_error (CoreTaskNotFound i) =
     (case task_id_new i of Inr tid \<Rightarrow> TaskNotFound tid | Inl error \<Rightarrow> Validation error)"
| "from_core_error (CorePolicyDenied message) = Database message"

definition current_schema_version :: int where
  "current_schema_version = 7"

section \<open>Records\<close>

record task_record =
  tr_id :: task_id
  tr_status :: task_status
  tr_idempotency_key :: "idempotency_key option"
  tr_deadline_ms :: "int option"
  tr_retry_count :: u32
  tr_dead_lettered :: bool
  tr_dead_letter_reason :: "string option"

definition task_record_new ::
  "task_id \<Rightarrow> task_status \<Rightarrow> idempotency_key option \<Rightarrow> task_record" where
  "task_record_new i status key =
     \<lparr>tr_id = i, tr_status = status, tr_idempotency_key = key, tr_deadline_ms = None,
      tr_retry_count = 0, tr_dead_lettered = False, tr_dead_letter_reason = None\<rparr>"

record task_envelope_record =
  er_task_id :: task_id
  er_encoded_envelope :: bytes
  er_received_at_ms :: int

record pending_task_envelope =
  pe_task :: task_record
  pe_envelope :: task_envelope_record

record task_event_record =
  ev_task_id :: task_id
  ev_sequence :: nat
  ev_event_type :: event_type
  ev_from_status :: "task_status option"
  ev_to_status :: task_status

record recovery_report =
  rr_recovered_tasks :: "task_record list"
  rr_cleaned_terminal_leases :: nat
  rr_corrupted_tasks :: "task_id list"

definition recovered_task_count :: "recovery_report \<Rightarrow> nat" where
  "recovered_task_count r = length (rr_recovered_tasks r)"

definition corruption_count :: "recovery_report \<Rightarrow> nat" where
  "corruption_count r = length (rr_corrupted_tasks r)"

record lease_record =
  lr_lease_id :: lease_id
  lr_task_id :: task_id
  lr_worker_id :: "agent_id option"
  lr_leased_at_ms :: int
  lr_expires_at_ms :: int

definition lease_record_new ::
  "lease_id \<Rightarrow> task_id \<Rightarrow> agent_id \<Rightarrow> int \<Rightarrow> int \<Rightarrow> lease_record" where
  "lease_record_new lid tid wid leased_at expires_at =
     \<lparr>lr_lease_id = lid, lr_task_id = tid, lr_worker_id = Some wid,
      lr_leased_at_ms = leased_at, lr_expires_at_ms = expires_at\<rparr>"

record artifact_record =
  ar_artifact_id :: artifact_id
  ar_task_id :: task_id
  ar_digest :: digest
  ar_media_type :: media_type
  ar_byte_len :: nat
  ar_inline :: bool
  ar_created_at :: string

record transport_context =
  tc_task_id :: task_id
  tc_authenticated_sender_peer_id :: "peer_id option"
  tc_expected_executor_peer_id :: "peer_id option"
  tc_destination_peer_id :: peer_id
  tc_relay_frame_id :: "string option"
  tc_received_at_ms :: int

record terminal_result =
  tm_task_id :: task_id
  tm_encoded_result :: bytes
  tm_terminal_status :: task_status
  tm_return_peer_id :: "peer_id option"
  tm_executor_peer_id :: peer_id
  tm_created_at_ms :: int

datatype delivery_state = DPending | DLeased | DDelivered | DDeadLettered

record result_outbox_record =
  ob_delivery_id :: string
  ob_task_id :: task_id
  ob_target_peer_id :: peer_id
  ob_state :: delivery_state
  ob_attempt_count :: u32
  ob_next_attempt_at_ms :: int
  ob_lease_owner :: "string option"
  ob_lease_expires_at_ms :: "int option"
  ob_last_error :: "string option"
  ob_created_at_ms :: int
  ob_updated_at_ms :: int

section \<open>Guards\<close>

definition validate_accepted_task_status :: "task_record \<Rightarrow> store_error + unit" where
  "validate_accepted_task_status t =
     ensure (tr_status t = Pending) (Validation (InvalidTaskTransition Pending (tr_status t)))"

definition ensure_pending_accept :: "task_record \<Rightarrow> store_error + unit" where
  "ensure_pending_accept t =
     ensure (tr_status t = Pending) (Validation (InvalidTaskTransition (tr_status t) Pending))"

definition ensure_matching_envelope_task_id ::
  "task_record \<Rightarrow> task_envelope_record \<Rightarrow> store_error + unit" where
  "ensure_matching_envelope_task_id t env =
     ensure (tr_id t = er_task_id env) (TaskEnvelopeMismatch (tr_id t) (er_task_id env))"

definition ensure_matching_task_id :: "task_id \<Rightarrow> lease_record \<Rightarrow> store_error + unit" where
  "ensure_matching_task_id tid lease =
     ensure (lr_task_id lease = tid)
       (Database (''lease task id mismatch: expected '' @ tid @ '', got '' @ lr_task_id lease))"

definition ensure_lease_has_owner :: "lease_record \<Rightarrow> store_error + unit" where
  "ensure_lease_has_owner lease =
     ensure (lr_worker_id lease \<noteq> None) (LeaseOwnerMissing (lr_task_id lease) (lr_lease_id lease))"

definition require_status :: "task_status \<Rightarrow> task_status \<Rightarrow> store_error + unit" where
  "require_status current required =
     (if current = required then Inr ()
      else if is_terminal current then Inl (Validation (TerminalTaskTransition current required))
      else Inl (Validation (InvalidTaskTransition current required)))"

definition ensure_matching_lease_id ::
  "task_id \<Rightarrow> lease_record \<Rightarrow> lease_id \<Rightarrow> store_error + unit" where
  "ensure_matching_lease_id tid active lid = ensure (lr_lease_id active = lid) (LeaseMismatch tid lid)"

definition ensure_matching_worker_id ::
  "task_id \<Rightarrow> lease_record \<Rightarrow> agent_id \<Rightarrow> store_error + unit" where
  "ensure_matching_worker_id tid active wid =
     (case lr_worker_id active of
        Some active_wid \<Rightarrow> ensure (active_wid = wid) (LeaseOwnerMismatch tid wid)
      | None \<Rightarrow> Inl (LeaseOwnerMissing tid (lr_lease_id active)))"

definition ensure_valid_lease_expiry :: "lease_record \<Rightarrow> int \<Rightarrow> int \<Rightarrow> store_error + unit" where
  "ensure_valid_lease_expiry active now_ms new_expires_at_ms =
     ensure (lr_expires_at_ms active > now_ms \<and> new_expires_at_ms > now_ms \<and>
             new_expires_at_ms > lr_expires_at_ms active)
       (InvalidLeaseExpiry (lr_lease_id active) (lr_expires_at_ms active) new_expires_at_ms now_ms)"

definition ensure_active_lease_unexpired :: "lease_record \<Rightarrow> int \<Rightarrow> store_error + unit" where
  "ensure_active_lease_unexpired active now_ms =
     ensure_valid_lease_expiry active now_ms (sat_add_i64 (lr_expires_at_ms active) 1)"

fun validate_deadline_transition :: "task_status \<Rightarrow> store_error + unit" where
  "validate_deadline_transition Pending = Inr ()"
| "validate_deadline_transition Running = Inr ()"
| "validate_deadline_transition from = Inl (Validation (TerminalTaskTransition from Failed))"

datatype legacy_append_plan = Lifecycle task_transition | Operational event_type task_status

definition plan_legacy_event_append ::
  "task_status \<Rightarrow> legacy_event \<Rightarrow> store_error + legacy_append_plan" where
  "plan_legacy_event_append from_status legacy =
     (case normalize_legacy_transition from_status legacy of
        Some transition \<Rightarrow> Inr (Lifecycle transition)
      | None \<Rightarrow>
          if is_valid_operational_legacy from_status legacy
          then Inr (Operational (as_keryx_event_type legacy) from_status)
          else Inl (Validation (InvalidTaskTransition from_status from_status)))"

fun is_replayable_operational_legacy_event :: "event_type \<Rightarrow> bool" where
  "is_replayable_operational_legacy_event TaskQueued = True"
| "is_replayable_operational_legacy_event TaskApprovalRequested = True"
| "is_replayable_operational_legacy_event TaskApprovalGranted = True"
| "is_replayable_operational_legacy_event TaskAwaitingInput = True"
| "is_replayable_operational_legacy_event _ = False"

section \<open>Terminal results and their delivery records\<close>

definition validate_result :: "terminal_result \<Rightarrow> store_error + unit" where
  "validate_result r =
     (if \<not> is_terminal (tm_terminal_status r) then Inl (TerminalResultNotTerminal (tm_task_id r))
      else Inr ())"

definition max_result_delivery_attempts :: int where
  "max_result_delivery_attempts = 10"

definition max_result_delivery_retry_delay_ms :: int where
  "max_result_delivery_retry_delay_ms = 60000"

definition delivery_id :: "task_id \<Rightarrow> string" where
  "delivery_id tid = ''result-'' @ tid"

definition make_outbox :: "terminal_result \<Rightarrow> result_outbox_record option" where
  "make_outbox r =
     map_option (\<lambda>target.
       \<lparr>ob_delivery_id = delivery_id (tm_task_id r), ob_task_id = tm_task_id r,
        ob_target_peer_id = target, ob_state = DPending, ob_attempt_count = 0,
        ob_next_attempt_at_ms = tm_created_at_ms r, ob_lease_owner = None,
        ob_lease_expires_at_ms = None, ob_last_error = None,
        ob_created_at_ms = tm_created_at_ms r, ob_updated_at_ms = tm_created_at_ms r\<rparr>)
     (tm_return_peer_id r)"

definition ensure_result_task :: "terminal_result \<Rightarrow> task_id \<Rightarrow> store_error + unit" where
  "ensure_result_task r tid =
     bindR (validate_result r) (\<lambda>_.
     ensure (tm_task_id r = tid) (TerminalResultTaskMismatch tid (tm_task_id r)))"

definition ensure_context_task :: "transport_context \<Rightarrow> task_id \<Rightarrow> store_error + unit" where
  "ensure_context_task c tid =
     ensure (tc_task_id c = tid) (TransportContextTaskMismatch tid (tc_task_id c))"

definition same_delivered_envelope ::
  "task_envelope_record \<Rightarrow> task_envelope_record \<Rightarrow> bool" where
  "same_delivered_envelope l r \<longleftrightarrow>
     er_task_id l = er_task_id r \<and> er_encoded_envelope l = er_encoded_envelope r"

definition same_transport_identity :: "transport_context \<Rightarrow> transport_context \<Rightarrow> bool" where
  "same_transport_identity l r \<longleftrightarrow>
     tc_task_id l = tc_task_id r \<and>
     tc_authenticated_sender_peer_id l = tc_authenticated_sender_peer_id r \<and>
     tc_expected_executor_peer_id l = tc_expected_executor_peer_id r \<and>
     tc_destination_peer_id l = tc_destination_peer_id r"

section \<open>Replay\<close>

text \<open>
  One iteration of the replay loop: from the current status and dead-letter flag, and the event,
  the next status and flag, or the corruption error. The checks on the task id, the sequence number
  and \<open>from_status\<close> precede it in the loop body.
\<close>

definition recovery_target :: "task_status \<Rightarrow> task_status" where
  "recovery_target current = (case current of Running \<Rightarrow> Pending | s \<Rightarrow> s)"

definition replay_event ::
  "task_id \<Rightarrow> task_status \<Rightarrow> bool \<Rightarrow> event_type \<Rightarrow> task_status \<Rightarrow> store_error + task_status \<times> bool" where
  "replay_event tid current dl ty to =
     (let corrupt = CorruptEventStream tid in
      if ty \<in> {TaskStarted, TaskCompleted, TaskFailed} then
        bindR (map_err (\<lambda>_. corrupt) (validate_transition current to)) (\<lambda>transition.
        if tt_event_type transition \<noteq> ty then Inl corrupt else Inr (tt_to transition, dl))
      else if ty = TaskCanceled then
        bindR (map_err (\<lambda>_. corrupt) (validate_cancel_transition current)) (\<lambda>transition.
        if tt_to transition \<noteq> to then Inl corrupt else Inr (tt_to transition, dl))
      else if ty = TaskTimedOut then
        bindR (map_err (\<lambda>_. corrupt) (validate_deadline_transition current)) (\<lambda>_.
        if to \<noteq> Failed then Inl corrupt else Inr (to, dl))
      else if ty \<in> {TaskLeased, TaskDeadLettered, TaskApprovalDenied} then
        bindR (ok_or (from_keryx_event_type ty) corrupt) (\<lambda>legacy.
        bindR (ok_or (normalize_legacy_transition current legacy) corrupt) (\<lambda>transition.
        if tt_to transition \<noteq> to then Inl corrupt
        else Inr (tt_to transition, dl \<or> ty = TaskDeadLettered)))
      else if ty = RecoveryAction then
        (if to \<noteq> recovery_target current then Inl corrupt else Inr (to, dl))
      else if is_replayable_operational_legacy_event ty then
        (if to \<noteq> current then Inl corrupt else Inr (current, dl))
      else Inl corrupt)"

fun replay_loop ::
  "task_id \<Rightarrow> nat \<Rightarrow> task_status \<Rightarrow> bool \<Rightarrow> task_event_record list \<Rightarrow> store_error + task_status \<times> bool" where
  "replay_loop tid index current dl [] = Inr (current, dl)"
| "replay_loop tid index current dl (event # events) =
     (if ev_task_id event \<noteq> tid \<or> ev_sequence event \<noteq> index + 1
         \<or> ev_from_status event \<noteq> Some current
      then Inl (CorruptEventStream tid)
      else bindR (replay_event tid current dl (ev_event_type event) (ev_to_status event))
             (\<lambda>(current', dl'). replay_loop tid (index + 1) current' dl' events))"

definition replay_task_from_snapshot_and_events ::
  "task_record \<Rightarrow> task_event_record list \<Rightarrow> store_error + task_record" where
  "replay_task_from_snapshot_and_events snapshot events =
     (let tid = tr_id snapshot; corrupt = CorruptEventStream tid in
      case events of
        [] \<Rightarrow> Inl corrupt
      | first # rest \<Rightarrow>
          if ev_task_id first \<noteq> tid \<or> ev_sequence first \<noteq> 1 \<or> ev_event_type first \<noteq> TaskAccepted
             \<or> ev_from_status first \<noteq> None \<or> ev_to_status first \<noteq> Pending
          then Inl corrupt
          else bindR (replay_loop tid 1 (ev_to_status first) False rest) (\<lambda>(current, replay_dl).
            if tr_status snapshot \<noteq> current then Inl corrupt
            else if tr_dead_lettered snapshot \<noteq> replay_dl then Inl corrupt
            else if tr_dead_lettered snapshot \<and> tr_retry_count snapshot = 0 then Inl corrupt
            else Inr (snapshot\<lparr>tr_status := current\<rparr>)))"

section \<open>Event streams that replay\<close>

definition accepted_event :: "task_id \<Rightarrow> task_event_record" where
  "accepted_event tid = \<lparr>ev_task_id = tid, ev_sequence = 1, ev_event_type = TaskAccepted,
                         ev_from_status = None, ev_to_status = Pending\<rparr>"

definition replays_to :: "task_id \<Rightarrow> task_event_record list \<Rightarrow> task_status \<Rightarrow> bool \<Rightarrow> bool" where
  "replays_to tid evs st dl \<longleftrightarrow>
     (\<exists>rest. evs = accepted_event tid # rest \<and> replay_loop tid 1 Pending False rest = Inr (st, dl))"

text \<open>
  What a snapshot of the store always satisfies: only a failed task is dead-lettered, it has failed
  at least once, and the reason is recorded together with the flag.
\<close>

definition wf_record :: "task_record \<Rightarrow> bool" where
  "wf_record t \<longleftrightarrow>
     (tr_dead_lettered t \<longleftrightarrow> tr_dead_letter_reason t \<noteq> None) \<and>
     (tr_dead_lettered t \<longrightarrow> tr_status t = Failed \<and> tr_retry_count t \<noteq> 0)"

text \<open>
  The event-sourced task as a transition system: \<open>task_step t ty t'\<close> says that appending an event
  of type \<open>ty\<close> may take the snapshot \<open>t\<close> to \<open>t'\<close>. Identity, idempotency key and deadline never
  change; the retry counter moves only on a requeue or a dead letter.
\<close>

inductive task_step :: "task_record \<Rightarrow> event_type \<Rightarrow> task_record \<Rightarrow> bool" where
  start: "tr_status t = Pending \<Longrightarrow> task_step t TaskStarted (t\<lparr>tr_status := Running\<rparr>)"
| complete: "tr_status t = Running \<Longrightarrow> task_step t TaskCompleted (t\<lparr>tr_status := Completed\<rparr>)"
| fail: "tr_status t = Running \<Longrightarrow> task_step t TaskFailed (t\<lparr>tr_status := Failed\<rparr>)"
| cancel: "\<not> is_terminal (tr_status t) \<Longrightarrow> task_step t TaskCanceled (t\<lparr>tr_status := Failed\<rparr>)"
| time_out: "\<not> is_terminal (tr_status t) \<Longrightarrow> task_step t TaskTimedOut (t\<lparr>tr_status := Failed\<rparr>)"
| dead_letter: "tr_status t = Running \<Longrightarrow>
    task_step t TaskDeadLettered
      (t\<lparr>tr_retry_count := sat_add (tr_retry_count t) 1, tr_dead_lettered := True,
         tr_dead_letter_reason := Some reason, tr_status := Failed\<rparr>)"
| requeue: "tr_status t = Running \<Longrightarrow>
    task_step t RecoveryAction
      (t\<lparr>tr_retry_count := sat_add (tr_retry_count t) 1, tr_status := Pending\<rparr>)"
| recover: "task_step t RecoveryAction (t\<lparr>tr_status := recovery_target (tr_status t)\<rparr>)"
| note_event: "\<not> is_terminal (tr_status t) \<Longrightarrow> is_replayable_operational_legacy_event ty \<Longrightarrow>
    task_step t ty t"

text \<open>A run of task steps and the events it appends, numbered from \<open>n\<close>.\<close>

inductive task_run :: "nat \<Rightarrow> task_record \<Rightarrow> task_event_record list \<Rightarrow> task_record \<Rightarrow> bool" where
  done_run: "task_run n t [] t"
| step_run: "task_step t ty u \<Longrightarrow> task_run (Suc n) u evs v \<Longrightarrow>
    task_run n t (\<lparr>ev_task_id = tr_id t, ev_sequence = n, ev_event_type = ty,
                  ev_from_status = Some (tr_status t), ev_to_status = tr_status u\<rparr> # evs) v"

inductive_cases task_stepE: "task_step t ty t'"
inductive_cases task_runE: "task_run n t evs t'"

lemmas guard_unfold [guard_defs] =
  validate_accepted_task_status_def ensure_pending_accept_def ensure_matching_envelope_task_id_def
  ensure_matching_task_id_def ensure_lease_has_owner_def ensure_matching_lease_id_def
  ensure_valid_lease_expiry_def ensure_active_lease_unexpired_def ensure_context_task_def

lemma require_status_Inr [simp]: "require_status a b = Inr u \<longleftrightarrow> a = b"
  by (simp add: require_status_def)

lemma ensure_matching_worker_id_Inr [simp]:
  "ensure_matching_worker_id tid l w = Inr u \<longleftrightarrow> lr_worker_id l = Some w"
  by (auto simp: ensure_matching_worker_id_def split: option.splits)

lemma ensure_result_task_Inr [simp]:
  "ensure_result_task r tid = Inr u \<longleftrightarrow> is_terminal (tm_terminal_status r) \<and> tm_task_id r = tid"
  by (auto simp: ensure_result_task_def validate_result_def bindR_eq_Inr)

lemma ensure_result_task_ok [simp]:
  "is_terminal (tm_terminal_status r) \<Longrightarrow> tm_task_id r = tid \<Longrightarrow> ensure_result_task r tid = Inr ()"
  by simp

lemma validate_deadline_transition_Inr [simp]:
  "validate_deadline_transition st = Inr u \<longleftrightarrow> \<not> is_terminal st"
  by (cases st) auto

lemma validate_deadline_transition_ok [simp]:
  "\<not> is_terminal st \<Longrightarrow> validate_deadline_transition st = Inr ()"
  by simp

lemma sat_add_one_neq_0: "sat_add (n :: u32) 1 \<noteq> 0"
proof -
  have "unat (sat_add n 1) \<noteq> 0"
    by (simp add: unat_sat_add)
  then show ?thesis by auto
qed

lemma replay_loop_append:
  "replay_loop tid i st dl (xs @ ys) =
     bindR (replay_loop tid i st dl xs) (\<lambda>(st', dl'). replay_loop tid (i + length xs) st' dl' ys)"
  by (induction tid i st dl xs rule: replay_loop.induct)
    (auto simp: bindR_def split: sum.splits prod.splits)

lemma replays_to_accepted: "replays_to tid [accepted_event tid] Pending False"
  by (simp add: replays_to_def)

lemma replays_to_snoc:
  assumes "replays_to tid evs st dl" and "replay_event tid st dl ty to = Inr (st', dl')"
  shows "replays_to tid
    (evs @ [\<lparr>ev_task_id = tid, ev_sequence = length evs + 1, ev_event_type = ty,
             ev_from_status = Some st, ev_to_status = to\<rparr>]) st' dl'"
  using assms by (auto simp: replays_to_def replay_loop_append)

lemma replay_iff:
  "replay_task_from_snapshot_and_events t evs = Inr t' \<longleftrightarrow>
     t' = t \<and> replays_to (tr_id t) evs (tr_status t) (tr_dead_lettered t) \<and>
     (tr_dead_lettered t \<longrightarrow> tr_retry_count t \<noteq> 0)"
proof (cases evs)
  case Nil
  then show ?thesis by (simp add: replay_task_from_snapshot_and_events_def replays_to_def Let_def)
next
  case (Cons e rest)
  have "e = accepted_event (tr_id t) \<longleftrightarrow>
      ev_task_id e = tr_id t \<and> ev_sequence e = 1 \<and> ev_event_type e = TaskAccepted \<and>
      ev_from_status e = None \<and> ev_to_status e = Pending"
    by (cases e) (auto simp: accepted_event_def)
  with Cons show ?thesis
    by (cases "replay_loop (tr_id t) 1 Pending False rest")
      (auto simp: replay_task_from_snapshot_and_events_def replays_to_def Let_def split: if_splits)
qed

lemma replay_error: "replay_task_from_snapshot_and_events t evs = Inl e \<Longrightarrow> e = CorruptEventStream (tr_id t)"
proof -
  have ev: "replay_event tid st dl ty to = Inl e \<Longrightarrow> e = CorruptEventStream tid" for tid st dl ty to
    by (auto simp: replay_event_def Let_def bindR_eq_Inl map_err_eq_Inl split: if_splits)
  have loop: "replay_loop tid i st dl xs = Inl e \<Longrightarrow> e = CorruptEventStream tid" for tid i st dl xs
    by (induction tid i st dl xs rule: replay_loop.induct)
      (auto simp: bindR_eq_Inl dest: ev split: if_splits)
  show "replay_task_from_snapshot_and_events t evs = Inl e \<Longrightarrow> e = CorruptEventStream (tr_id t)"
    by (auto simp: replay_task_from_snapshot_and_events_def Let_def bindR_eq_Inl dest: loop
        split: list.splits if_splits)
qed

lemma replay_loop_gapless:
  "replay_loop tid i st dl xs = Inr r \<Longrightarrow> k < length xs \<Longrightarrow>
     ev_sequence (xs ! k) = i + k + 1 \<and> ev_task_id (xs ! k) = tid"
proof (induction tid i st dl xs arbitrary: k rule: replay_loop.induct)
  case (2 tid index current dl event events)
  from "2.prems" obtain st' dl' where
    "ev_sequence event = index + 1" "ev_task_id event = tid"
    and step: "replay_event tid current dl (ev_event_type event) (ev_to_status event) = Inr (st', dl')"
    and rest: "replay_loop tid (index + 1) st' dl' events = Inr r"
    by (auto simp: bindR_eq_Inr split: if_splits)
  with "2.prems" show ?case
    using "2.IH" [OF _ rest] by (cases k) (auto split: if_splits)
qed simp

lemma replays_to_gapless:
  "replays_to tid evs st dl \<Longrightarrow> k < length evs \<Longrightarrow>
     ev_sequence (evs ! k) = k + 1 \<and> ev_task_id (evs ! k) = tid"
  by (cases k) (auto simp: replays_to_def accepted_event_def dest: replay_loop_gapless)

section \<open>Task steps\<close>

lemma task_step_same:
  "task_step t ty t' \<Longrightarrow> tr_id t' = tr_id t \<and> tr_idempotency_key t' = tr_idempotency_key t \<and>
     tr_deadline_ms t' = tr_deadline_ms t"
  by (auto elim: task_stepE)

lemma task_step_wf: "task_step t ty t' \<Longrightarrow> wf_record t \<Longrightarrow> wf_record t'"
  by (auto elim!: task_stepE simp: wf_record_def sat_add_one_neq_0 recovery_target_def
      split: task_status.splits)

lemma task_step_terminal: "task_step t ty t' \<Longrightarrow> is_terminal (tr_status t) \<Longrightarrow> t' = t"
  by (auto elim!: task_stepE simp: recovery_target_def is_terminal_iff)

lemma replay_event_task_step:
  assumes "task_step t ty t'" and "wf_record t"
  shows "replay_event tid (tr_status t) (tr_dead_lettered t) ty (tr_status t') =
    Inr (tr_status t', tr_dead_lettered t')"
proof -
  have cancel: "validate_cancel_transition st = Inr \<lparr>tt_from = st, tt_to = Failed, tt_event_type = TaskCanceled\<rparr>"
    if "\<not> is_terminal st" for st
    using that by (simp add: validate_cancel_transition_Inr)
  from assms show ?thesis
    by (cases rule: task_step.cases)
      (auto simp: replay_event_def wf_record_def cancel recovery_target_def Let_def
        split: task_status.splits
        elim!: is_replayable_operational_legacy_event.elims)
qed

lemma replays_to_task_step:
  assumes "task_step t ty t'" "wf_record t"
    and "replays_to (tr_id t) evs (tr_status t) (tr_dead_lettered t)"
  shows "replays_to (tr_id t')
    (evs @ [\<lparr>ev_task_id = tr_id t, ev_sequence = length evs + 1, ev_event_type = ty,
             ev_from_status = Some (tr_status t), ev_to_status = tr_status t'\<rparr>])
    (tr_status t') (tr_dead_lettered t')"
  using replays_to_snoc [OF assms(3) replay_event_task_step [OF assms(1,2)]]
    task_step_same [OF assms(1)] by simp

lemma task_run_append:
  "task_run n t evs u \<Longrightarrow> task_run (n + length evs) u evs' v \<Longrightarrow> task_run n t (evs @ evs') v"
  by (induction rule: task_run.induct) (auto intro: task_run.intros)

lemma task_run_wf: "task_run n t evs t' \<Longrightarrow> wf_record t \<Longrightarrow> wf_record t'"
  by (induction rule: task_run.induct) (auto dest: task_step_wf)

lemma task_run_same:
  "task_run n t evs t' \<Longrightarrow> tr_id t' = tr_id t \<and> tr_idempotency_key t' = tr_idempotency_key t \<and>
     tr_deadline_ms t' = tr_deadline_ms t"
  by (induction rule: task_run.induct) (auto dest: task_step_same)

lemma task_run_terminal: "task_run n t evs t' \<Longrightarrow> is_terminal (tr_status t) \<Longrightarrow> t' = t"
  by (induction rule: task_run.induct) (auto dest: task_step_terminal)

lemma replays_to_task_run:
  "task_run n t new t' \<Longrightarrow> n = length evs + 1 \<Longrightarrow> wf_record t \<Longrightarrow>
   replays_to (tr_id t) evs (tr_status t) (tr_dead_lettered t) \<Longrightarrow>
   replays_to (tr_id t') (evs @ new) (tr_status t') (tr_dead_lettered t')"
proof (induction arbitrary: evs rule: task_run.induct)
  case (step_run t ty u n new v)
  from step_run.IH [OF _ _ replays_to_task_step [OF step_run.hyps(1) step_run.prems(2,3)]]
  show ?case
    using step_run.hyps(1) step_run.prems task_step_wf [of t ty u] by simp
qed simp

end
