(* ===== verification/Task_Store.thy ===== *)
theory Task_Store
  imports Store_Types
begin

text \<open>
  The contract of an event-sourced task store, independent of the backend. A store is a function
  from operations and states to replies and states; what clients observe of a task is its snapshot
  and its event history. The contract \<open>event_sourced_store\<close> asks that each operation moves every
  task along \<open>task_step\<close> and appends exactly the events of those steps. The client lemmas follow
  once for all backends: terminal snapshots are final, histories only grow and have no gaps, and
  replaying the history of a reachable store gives the stored snapshot.

  \<open>store_simulation\<close> is the contract of two backends that answer alike from matching states.
\<close>

section \<open>Operations and replies\<close>

datatype store_op =
    AcceptTask task_record
  | AcceptTaskWithEnvelope task_record task_envelope_record
  | AcceptTaskWithContext task_record task_envelope_record transport_context
  | PutTransportContext transport_context
  | LeaseTask task_id lease_record "peer_id option"
  | RenewLease task_id lease_id agent_id int int
  | CompleteTask task_id lease_id agent_id
  | FailTask task_id lease_id agent_id string retry_policy
  | RetryTask task_id lease_id agent_id
  | DeadLetterTask task_id lease_id agent_id string
  | CancelTask task_id int
  | TransitionTask task_id task_status
  | AcceptLegacyEvent task_id event_type
  | FailExpiredDeadlines int "nat option"
  | RecoverStaleLeases int "nat option"
  | CancelTaskWithResult task_id "lease_id option" "agent_id option" int terminal_result
  | CompleteTaskWithResult task_id lease_id agent_id terminal_result
  | FailTaskWithResult task_id lease_id agent_id string retry_policy terminal_result

datatype store_reply =
    RTask task_record
  | RLease lease_record
  | RContext transport_context
  | RTasks "task_record list"
  | RReport recovery_report

definition reply :: "('a \<Rightarrow> store_reply) \<Rightarrow> (store_error + 'a) \<times> 's \<Rightarrow> (store_error + store_reply) \<times> 's" where
  "reply f r = (case r of (Inl e, s) \<Rightarrow> (Inl e, s) | (Inr a, s) \<Rightarrow> (Inr (f a), s))"

text \<open>
  The operations the contract covers. A caller submits well-formed records (\<open>TaskRecord::new\<close>
  produces no others), and does not feed the legacy event \<open>TaskApprovalDenied\<close>, whose effect on a
  pending task leaves the lifecycle that replay accepts.
\<close>

fun admissible :: "store_op \<Rightarrow> bool" where
  "admissible (AcceptTask t) = wf_record t"
| "admissible (AcceptTaskWithEnvelope t _) = wf_record t"
| "admissible (AcceptTaskWithContext t _ _) = wf_record t"
| "admissible (AcceptLegacyEvent _ ty) = (ty \<noteq> TaskApprovalDenied)"
| "admissible _ = True"

lemma snd_reply [simp]: "snd (reply f r) = snd r"
  by (auto simp: reply_def split: prod.splits sum.splits)

lemma fst_reply: "fst (reply f r) = (case fst r of Inl e \<Rightarrow> Inl e | Inr a \<Rightarrow> Inr (f a))"
  by (auto simp: reply_def split: prod.splits sum.splits)

text \<open>A sequence of operations: the state it ends in and the replies it gives on the way.\<close>

definition run_ops :: "('op \<Rightarrow> 's \<Rightarrow> 'r \<times> 's) \<Rightarrow> 'op list \<Rightarrow> 's \<Rightarrow> 's" where
  "run_ops step opers s = fold (\<lambda>oper s. snd (step oper s)) opers s"

fun replies :: "('op \<Rightarrow> 's \<Rightarrow> 'r \<times> 's) \<Rightarrow> 'op list \<Rightarrow> 's \<Rightarrow> 'r list" where
  "replies step [] s = []"
| "replies step (oper # opers) s = fst (step oper s) # replies step opers (snd (step oper s))"

lemma run_ops_simps [simp]:
  "run_ops step [] s = s"
  "run_ops step (oper # opers) s = run_ops step opers (snd (step oper s))"
  by (simp_all add: run_ops_def)

section \<open>Evolution of one task\<close>

definition fresh_task :: "task_id \<Rightarrow> task_record \<Rightarrow> bool" where
  "fresh_task tid t \<longleftrightarrow> tr_id t = tid \<and> tr_status t = Pending \<and> wf_record t"

definition evolves ::
  "task_id \<Rightarrow> task_record option \<times> task_event_record list \<Rightarrow>
   task_record option \<times> task_event_record list \<Rightarrow> bool" where
  "evolves tid a b =
     (case a of
        (Some t, h) \<Rightarrow> \<exists>u evs. b = (Some u, h @ evs) \<and> task_run (length h + 1) t evs u
      | (None, h) \<Rightarrow> b = (None, h) \<or>
          (\<exists>t u evs. fresh_task tid t \<and> b = (Some u, accepted_event tid # evs) \<and> task_run 2 t evs u))"

lemma evolves_refl [simp]: "evolves tid a a"
  by (auto simp: evolves_def intro: task_run.intros split: prod.splits option.splits)

lemma evolves_trans: "evolves tid a b \<Longrightarrow> evolves tid b c \<Longrightarrow> evolves tid a c"
proof -
  assume ab: "evolves tid a b" and bc: "evolves tid b c"
  show ?thesis
  proof (cases "fst a")
    case None
    with ab consider "b = a" | t u evs where "fresh_task tid t" "b = (Some u, accepted_event tid # evs)"
        "task_run 2 t evs u"
      by (cases a) (auto simp: evolves_def)
    then show ?thesis
    proof cases
      case 1
      with bc show ?thesis by simp
    next
      case 2
      with bc obtain v evs' where "c = (Some v, accepted_event tid # evs @ evs')"
        and "task_run (2 + length evs) u evs' v"
        by (auto simp: evolves_def)
      with 2 have "task_run 2 t (evs @ evs') v"
        by (simp add: task_run_append)
      with 2 None \<open>c = _\<close> show ?thesis
        by (cases a) (auto simp: evolves_def)
    qed
  next
    case (Some t)
    with ab obtain u evs where b: "b = (Some u, snd a @ evs)" "task_run (length (snd a) + 1) t evs u"
      by (cases a) (auto simp: evolves_def)
    with bc obtain v evs' where "c = (Some v, snd a @ evs @ evs')"
      and "task_run (length (snd a) + 1 + length evs) u evs' v"
      by (auto simp: evolves_def algebra_simps)
    with b Some show ?thesis
      by (cases a) (auto simp: evolves_def intro: task_run_append)
  qed
qed

lemma evolves_step:
  assumes "task_step t ty u"
  shows "evolves tid (Some t, h)
    (Some u, h @ [\<lparr>ev_task_id = tr_id t, ev_sequence = length h + 1, ev_event_type = ty,
                   ev_from_status = Some (tr_status t), ev_to_status = tr_status u\<rparr>])"
  using step_run [OF assms done_run, of "length h + 1"] by (auto simp: evolves_def)

lemma evolves_fresh: "fresh_task tid t \<Longrightarrow> evolves tid (None, h) (Some t, [accepted_event tid])"
  by (auto simp: evolves_def intro: task_run.intros)

text \<open>What a snapshot and its history satisfy in a store that has only evolved.\<close>

definition sourced :: "task_id \<Rightarrow> task_record option \<times> task_event_record list \<Rightarrow> bool" where
  "sourced tid a =
     (case a of
        (None, h) \<Rightarrow> h = []
      | (Some t, h) \<Rightarrow> tr_id t = tid \<and> wf_record t \<and> replays_to tid h (tr_status t) (tr_dead_lettered t))"

lemma evolves_sourced:
  assumes ev: "evolves tid a b" and a: "sourced tid a"
  shows "sourced tid b"
proof (cases "fst a")
  case (Some t)
  with assms obtain u evs where "b = (Some u, snd a @ evs)" "task_run (length (snd a) + 1) t evs u"
    by (cases a) (auto simp: evolves_def)
  with a Some show ?thesis
    using replays_to_task_run [of "length (snd a) + 1" t evs u "snd a"]
    by (cases a) (auto simp: sourced_def dest: task_run_same task_run_wf)
next
  case None
  with a have "a = (None, [])" by (cases a) (auto simp: sourced_def)
  with ev consider "b = (None, [])" | t u evs where "fresh_task tid t"
      "b = (Some u, [accepted_event tid] @ evs)" "task_run 2 t evs u"
    by (auto simp: evolves_def)
  then show ?thesis
  proof cases
    case 2
    then have "replays_to (tr_id u) ([accepted_event tid] @ evs) (tr_status u) (tr_dead_lettered u)"
      using replays_to_accepted [of tid]
      by (intro replays_to_task_run) (auto simp: fresh_task_def wf_record_def numeral_2_eq_2)
    with 2 show ?thesis
      by (auto simp: sourced_def fresh_task_def dest: task_run_same task_run_wf)
  qed (simp add: sourced_def)
qed

lemma sourced_replay:
  "sourced tid (Some t, h) \<Longrightarrow> replay_task_from_snapshot_and_events t h = Inr t"
  by (auto simp: sourced_def replay_iff wf_record_def)

lemma evolves_retry_count:
  assumes "evolves tid (Some t, h) (Some u, h')"
  shows "unat (tr_retry_count t) \<le> unat (tr_retry_count u)"
proof -
  have step: "task_step t ty u \<Longrightarrow> unat (tr_retry_count t) \<le> unat (tr_retry_count u)" for t ty u
    using unsigned_less [of "tr_retry_count t", where ?'a = nat]
    by (auto elim!: task_stepE simp: unat_sat_add)
  have "task_run n t evs u \<Longrightarrow> unat (tr_retry_count t) \<le> unat (tr_retry_count u)" for n t evs u
    by (induction rule: task_run.induct) (auto dest: step)
  with assms show ?thesis by (auto simp: evolves_def)
qed

section \<open>The store contract\<close>

locale event_sourced_store =
  fixes step :: "'op \<Rightarrow> 's \<Rightarrow> 'r \<times> 's"
    and allowed :: "'op \<Rightarrow> bool"
    and observe :: "'s \<Rightarrow> task_id \<Rightarrow> task_record option \<times> task_event_record list"
    and inv :: "'s \<Rightarrow> bool"
    and start_state :: 's
  assumes start_inv: "inv start_state"
    and start_empty: "observe start_state tid = (None, [])"
    and step_inv: "inv s \<Longrightarrow> allowed oper \<Longrightarrow> inv (snd (step oper s))"
    and step_evolves: "inv s \<Longrightarrow> allowed oper \<Longrightarrow>
      evolves tid (observe s tid) (observe (snd (step oper s)) tid)"
begin

abbreviation run :: "'op list \<Rightarrow> 's \<Rightarrow> 's" where
  "run \<equiv> run_ops step"

lemma run_inv: "inv s \<Longrightarrow> list_all allowed opers \<Longrightarrow> inv (run opers s)"
  by (induction opers arbitrary: s) (auto simp: run_ops_def step_inv)

lemma run_evolves:
  "inv s \<Longrightarrow> list_all allowed opers \<Longrightarrow> evolves tid (observe s tid) (observe (run opers s) tid)"
proof (induction opers arbitrary: s)
  case (Cons oper opers)
  then have "evolves tid (observe s tid) (observe (snd (step oper s)) tid)"
    and "evolves tid (observe (snd (step oper s)) tid) (observe (run opers (snd (step oper s))) tid)"
    by (simp_all add: step_evolves step_inv)
  then show ?case
    by (auto simp: run_ops_def intro: evolves_trans)
qed (simp add: run_ops_def)

lemma run_sourced: "list_all allowed opers \<Longrightarrow> sourced tid (observe (run opers start_state) tid)"
  using run_evolves [OF start_inv, of opers tid] evolves_sourced [of tid "(None, [])"]
  by (simp add: start_empty sourced_def)

lemma run_append: "run (xs @ ys) s = run ys (run xs s)"
  by (simp add: run_ops_def)

lemma run_replays:
  "list_all allowed opers \<Longrightarrow> observe (run opers start_state) tid = (Some t, h) \<Longrightarrow>
     replay_task_from_snapshot_and_events t h = Inr t"
  using run_sourced [of opers tid] by (simp add: sourced_replay)

lemma terminal_final:
  "inv s \<Longrightarrow> list_all allowed opers \<Longrightarrow> observe s tid = (Some t, h) \<Longrightarrow> is_terminal (tr_status t) \<Longrightarrow>
     fst (observe (run opers s) tid) = Some t"
  using run_evolves [of s opers tid] by (auto simp: evolves_def dest: task_run_terminal)

lemma history_grows:
  "inv s \<Longrightarrow> list_all allowed opers \<Longrightarrow> fst (observe s tid) \<noteq> None \<Longrightarrow>
     prefix (snd (observe s tid)) (snd (observe (run opers s) tid))"
  using run_evolves [of s opers tid] by (cases "observe s tid") (auto simp: evolves_def prefix_def)

lemma retry_count_grows:
  "inv s \<Longrightarrow> list_all allowed opers \<Longrightarrow> observe s tid = (Some t, h) \<Longrightarrow>
     observe (run opers s) tid = (Some u, h') \<Longrightarrow> unat (tr_retry_count t) \<le> unat (tr_retry_count u)"
  using run_evolves [of s opers tid] evolves_retry_count [of tid t h u h'] by simp

lemma history_gapless:
  "list_all allowed opers \<Longrightarrow> observe (run opers start_state) tid = (Some t, h) \<Longrightarrow> k < length h \<Longrightarrow>
     ev_sequence (h ! k) = k + 1 \<and> ev_task_id (h ! k) = tid"
  using run_sourced [of opers tid] by (auto simp: sourced_def dest: replays_to_gapless)

end

section \<open>Simulation of one backend by another\<close>

locale store_simulation =
  fixes cstep :: "'op \<Rightarrow> 'c \<Rightarrow> 'r \<times> 'c"
    and astep :: "'op \<Rightarrow> 'a \<Rightarrow> 'r \<times> 'a"
    and allowed :: "'op \<Rightarrow> bool"
    and matches :: "'c \<Rightarrow> 'a \<Rightarrow> bool"
    and agree :: "'r \<Rightarrow> 'r \<Rightarrow> bool"
  assumes sim_step: "matches c a \<Longrightarrow> allowed oper \<Longrightarrow>
      matches (snd (cstep oper c)) (snd (astep oper a)) \<and> agree (fst (cstep oper c)) (fst (astep oper a))"
begin

lemma sim_run:
  "matches c a \<Longrightarrow> list_all allowed opers \<Longrightarrow>
     matches (run_ops cstep opers c) (run_ops astep opers a) \<and>
     list_all2 agree (replies cstep opers c) (replies astep opers a)"
proof (induction opers arbitrary: c a)
  case (Cons oper opers)
  with sim_step [of c a oper] show ?case by simp
qed simp

end

end
