(* ===== verification/Sql_Codec.thy ===== *)
theory Sql_Codec
  imports Store_Types
begin

text \<open>
  The rows of the SQLite tables and their codecs: \<open>status_to_str\<close> and \<open>event_type_to_str\<close> with
  their parsers, the \<open>row_to_...\<close> decoders of \<open>lib.rs\<close> and \<open>results.rs\<close>, and the encoders, which
  are the value lists bound to the \<open>INSERT\<close> statements. A row keeps the columns the store reads or
  writes; the bookkeeping columns \<open>created_at\<close> and \<open>updated_at\<close> of \<open>tasks\<close>, which no query reads,
  are left out. The lemmas are the round trips of the codecs on values whose identifiers are valid,
  which is what the identifier newtypes guarantee.
\<close>

section \<open>Statuses and event types as text\<close>

fun status_to_str :: "task_status \<Rightarrow> string" where
  "status_to_str Pending = ''pending''"
| "status_to_str Running = ''running''"
| "status_to_str Completed = ''completed''"
| "status_to_str Failed = ''failed''"

definition str_to_status :: "string \<Rightarrow> store_error + task_status" where
  "str_to_status value =
     (if value \<in> set [''created'', ''accepted'', ''queued'', ''pending''] then Inr Pending
      else if value = ''awaiting_approval'' then
        Inl (Database ''legacy awaiting_approval task status requires explicit approval migration'')
      else if value \<in> set [''leased'', ''awaiting_input'', ''running''] then Inr Running
      else if value = ''completed'' then Inr Completed
      else if value \<in> set [''failed'', ''canceled'', ''timed_out'', ''rejected'', ''dead_lettered'']
        then Inr Failed
      else Inl (Database (''unknown task status: '' @ value)))"

fun event_type_to_str :: "event_type \<Rightarrow> string" where
  "event_type_to_str TaskAccepted = ''task_accepted''"
| "event_type_to_str TaskQueued = ''task_queued''"
| "event_type_to_str TaskApprovalRequested = ''task_approval_requested''"
| "event_type_to_str TaskApprovalGranted = ''task_approval_granted''"
| "event_type_to_str TaskApprovalDenied = ''task_approval_denied''"
| "event_type_to_str TaskLeased = ''task_leased''"
| "event_type_to_str TaskStarted = ''task_started''"
| "event_type_to_str TaskAwaitingInput = ''task_awaiting_input''"
| "event_type_to_str TaskCompleted = ''task_completed''"
| "event_type_to_str TaskFailed = ''task_failed''"
| "event_type_to_str TaskCanceled = ''task_canceled''"
| "event_type_to_str TaskTimedOut = ''task_timed_out''"
| "event_type_to_str TaskDeadLettered = ''task_dead_lettered''"
| "event_type_to_str RecoveryAction = ''recovery_action''"

text \<open>The match arms of \<open>str_to_event_type\<close>, tried in order.\<close>

definition event_type_names :: "(string \<times> event_type) list" where
  "event_type_names =
     [(''task_accepted'', TaskAccepted), (''task_queued'', TaskQueued),
      (''task_approval_requested'', TaskApprovalRequested),
      (''task_approval_granted'', TaskApprovalGranted),
      (''task_approval_denied'', TaskApprovalDenied), (''task_leased'', TaskLeased),
      (''task_started'', TaskStarted), (''task_awaiting_input'', TaskAwaitingInput),
      (''task_completed'', TaskCompleted), (''task_failed'', TaskFailed),
      (''task_canceled'', TaskCanceled), (''task_timed_out'', TaskTimedOut),
      (''task_dead_lettered'', TaskDeadLettered), (''recovery_action'', RecoveryAction)]"

definition str_to_event_type :: "string \<Rightarrow> store_error + event_type" where
  "str_to_event_type value =
     ok_or (map_of event_type_names value) (Database (''unknown event type: '' @ value))"

fun delivery_state_as_str :: "delivery_state \<Rightarrow> string" where
  "delivery_state_as_str DPending = ''pending''"
| "delivery_state_as_str DLeased = ''leased''"
| "delivery_state_as_str DDelivered = ''delivered''"
| "delivery_state_as_str DDeadLettered = ''dead_lettered''"

definition parse_delivery_state :: "string \<Rightarrow> store_error + delivery_state" where
  "parse_delivery_state value =
     (if value = ''pending'' then Inr DPending
      else if value = ''leased'' then Inr DLeased
      else if value = ''delivered'' then Inr DDelivered
      else if value = ''dead_lettered'' then Inr DDeadLettered
      else Inl (Database (''unknown result delivery state '' @ value)))"

section \<open>Rows\<close>

record task_row =
  tk_task_id :: string
  tk_status :: string
  tk_idempotency_key :: "string option"
  tk_retry_count :: int
  tk_dead_lettered :: int
  tk_dead_letter_reason :: "string option"
  tk_deadline_ms :: "int option"

record event_row =
  el_task_id :: string
  el_sequence :: nat
  el_event_type :: string
  el_from_status :: "string option"
  el_to_status :: string

record lease_row =
  ll_lease_id :: string
  ll_task_id :: string
  ll_worker_id :: "string option"
  ll_leased_at_ms :: int
  ll_expires_at_ms :: int
  ll_active :: bool

record result_row =
  rs_task_id :: string
  rs_encoded_result :: bytes
  rs_terminal_status :: string
  rs_return_peer_id :: "string option"
  rs_executor_peer_id :: string
  rs_created_at_ms :: int

record outbox_row =
  ox_delivery_id :: string
  ox_task_id :: string
  ox_target_peer_id :: string
  ox_state :: string
  ox_attempt_count :: int
  ox_next_attempt_at_ms :: int
  ox_lease_owner :: "string option"
  ox_lease_expires_at_ms :: "int option"
  ox_last_error :: "string option"
  ox_created_at_ms :: int
  ox_updated_at_ms :: int

record artifact_row =
  af_artifact_id :: string
  af_task_id :: string
  af_digest :: string
  af_media_type :: string
  af_byte_len :: int
  af_inline :: int
  af_inline_blob :: "bytes option"
  af_created_at :: string

record blob_row =
  bl_digest :: string
  bl_ref_count :: int
  bl_byte_len :: int

text \<open>
  The columns of \<open>task_envelopes\<close> and \<open>task_transport_context\<close> are the fields of their records,
  with the identifiers as text, so the record types serve as row types.
\<close>

section \<open>Decoders and encoders\<close>

text \<open>\<open>TaskId::new(...)?\<close> and its siblings inside a store function: the error becomes \<open>Validation\<close>.\<close>

abbreviation id_of :: "(string \<Rightarrow> validation_error + string) \<Rightarrow> string \<Rightarrow> store_error + string" where
  "id_of f s \<equiv> map_err Validation (f s)"

definition row_to_task :: "task_row \<Rightarrow> store_error + task_record" where
  "row_to_task row =
     bindR (id_of task_id_new (tk_task_id row)) (\<lambda>i.
     bindR (str_to_status (tk_status row)) (\<lambda>status.
     bindR (transposeR (map_option (id_of idempotency_key_new) (tk_idempotency_key row))) (\<lambda>key.
     Inr \<lparr>tr_id = i, tr_status = status, tr_idempotency_key = key,
          tr_deadline_ms = tk_deadline_ms row,
          tr_retry_count = word_of_int (max 0 (tk_retry_count row)),
          tr_dead_lettered = (tk_dead_lettered row \<noteq> 0),
          tr_dead_letter_reason = tk_dead_letter_reason row\<rparr>)))"

definition task_to_row :: "task_record \<Rightarrow> task_row" where
  "task_to_row t =
     \<lparr>tk_task_id = tr_id t, tk_status = status_to_str (tr_status t),
      tk_idempotency_key = tr_idempotency_key t, tk_retry_count = uint (tr_retry_count t),
      tk_dead_lettered = (if tr_dead_lettered t then 1 else 0),
      tk_dead_letter_reason = tr_dead_letter_reason t, tk_deadline_ms = tr_deadline_ms t\<rparr>"

definition row_to_task_envelope :: "task_envelope_record \<Rightarrow> store_error + task_envelope_record" where
  "row_to_task_envelope row =
     bindR (id_of task_id_new (er_task_id row)) (\<lambda>i. Inr (row\<lparr>er_task_id := i\<rparr>))"

definition row_to_pending_task_envelope ::
  "task_row \<times> task_envelope_record \<Rightarrow> store_error + pending_task_envelope" where
  "row_to_pending_task_envelope row =
     bindR (row_to_task (fst row)) (\<lambda>t.
     Inr \<lparr>pe_task = t, pe_envelope = (snd row)\<lparr>er_task_id := tr_id t\<rparr>\<rparr>)"

definition row_to_lease :: "lease_row \<Rightarrow> store_error + lease_record" where
  "row_to_lease row =
     bindR (id_of lease_id_new (ll_lease_id row)) (\<lambda>lid.
     bindR (id_of task_id_new (ll_task_id row)) (\<lambda>tid.
     bindR (transposeR (map_option (id_of agent_id_new) (ll_worker_id row))) (\<lambda>wid.
     Inr \<lparr>lr_lease_id = lid, lr_task_id = tid, lr_worker_id = wid,
          lr_leased_at_ms = ll_leased_at_ms row, lr_expires_at_ms = ll_expires_at_ms row\<rparr>)))"

definition lease_to_row :: "lease_record \<Rightarrow> lease_row" where
  "lease_to_row l =
     \<lparr>ll_lease_id = lr_lease_id l, ll_task_id = lr_task_id l, ll_worker_id = lr_worker_id l,
      ll_leased_at_ms = lr_leased_at_ms l, ll_expires_at_ms = lr_expires_at_ms l,
      ll_active = True\<rparr>"

definition row_to_event :: "event_row \<Rightarrow> store_error + task_event_record" where
  "row_to_event row =
     bindR (id_of task_id_new (el_task_id row)) (\<lambda>tid.
     bindR (str_to_event_type (el_event_type row)) (\<lambda>ty.
     bindR (transposeR (map_option str_to_status (el_from_status row))) (\<lambda>from.
     bindR (str_to_status (el_to_status row)) (\<lambda>to.
     Inr \<lparr>ev_task_id = tid, ev_sequence = el_sequence row, ev_event_type = ty,
          ev_from_status = from, ev_to_status = to\<rparr>))))"

definition event_to_row :: "task_event_record \<Rightarrow> event_row" where
  "event_to_row e =
     \<lparr>el_task_id = ev_task_id e, el_sequence = ev_sequence e,
      el_event_type = event_type_to_str (ev_event_type e),
      el_from_status = map_option status_to_str (ev_from_status e),
      el_to_status = status_to_str (ev_to_status e)\<rparr>"

definition row_to_transport_context :: "transport_context \<Rightarrow> store_error + transport_context" where
  "row_to_transport_context row =
     bindR (id_of task_id_new (tc_task_id row)) (\<lambda>tid.
     bindR (transposeR (map_option (id_of peer_id_new) (tc_authenticated_sender_peer_id row))) (\<lambda>sender.
     bindR (transposeR (map_option (id_of peer_id_new) (tc_expected_executor_peer_id row))) (\<lambda>executor.
     bindR (id_of peer_id_new (tc_destination_peer_id row)) (\<lambda>destination.
     Inr \<lparr>tc_task_id = tid, tc_authenticated_sender_peer_id = sender,
          tc_expected_executor_peer_id = executor, tc_destination_peer_id = destination,
          tc_relay_frame_id = tc_relay_frame_id row, tc_received_at_ms = tc_received_at_ms row\<rparr>))))"

definition row_to_terminal_result :: "result_row \<Rightarrow> store_error + terminal_result" where
  "row_to_terminal_result row =
     bindR (id_of task_id_new (rs_task_id row)) (\<lambda>tid.
     bindR (str_to_status (rs_terminal_status row)) (\<lambda>status.
     bindR (transposeR (map_option (id_of peer_id_new) (rs_return_peer_id row))) (\<lambda>return_peer.
     bindR (id_of peer_id_new (rs_executor_peer_id row)) (\<lambda>executor.
     Inr \<lparr>tm_task_id = tid, tm_encoded_result = rs_encoded_result row, tm_terminal_status = status,
          tm_return_peer_id = return_peer, tm_executor_peer_id = executor,
          tm_created_at_ms = rs_created_at_ms row\<rparr>))))"

definition result_to_row :: "terminal_result \<Rightarrow> result_row" where
  "result_to_row r =
     \<lparr>rs_task_id = tm_task_id r, rs_encoded_result = tm_encoded_result r,
      rs_terminal_status = status_to_str (tm_terminal_status r),
      rs_return_peer_id = tm_return_peer_id r, rs_executor_peer_id = tm_executor_peer_id r,
      rs_created_at_ms = tm_created_at_ms r\<rparr>"

definition row_to_outbox :: "outbox_row \<Rightarrow> store_error + result_outbox_record" where
  "row_to_outbox row =
     bindR (id_of task_id_new (ox_task_id row)) (\<lambda>tid.
     bindR (id_of peer_id_new (ox_target_peer_id row)) (\<lambda>target.
     bindR (parse_delivery_state (ox_state row)) (\<lambda>st.
     Inr \<lparr>ob_delivery_id = ox_delivery_id row, ob_task_id = tid, ob_target_peer_id = target,
          ob_state = st, ob_attempt_count = word_of_int (max 0 (ox_attempt_count row)),
          ob_next_attempt_at_ms = ox_next_attempt_at_ms row, ob_lease_owner = ox_lease_owner row,
          ob_lease_expires_at_ms = ox_lease_expires_at_ms row, ob_last_error = ox_last_error row,
          ob_created_at_ms = ox_created_at_ms row, ob_updated_at_ms = ox_updated_at_ms row\<rparr>)))"

definition outbox_to_row :: "result_outbox_record \<Rightarrow> outbox_row" where
  "outbox_to_row ob =
     \<lparr>ox_delivery_id = ob_delivery_id ob, ox_task_id = ob_task_id ob,
      ox_target_peer_id = ob_target_peer_id ob, ox_state = delivery_state_as_str (ob_state ob),
      ox_attempt_count = uint (ob_attempt_count ob),
      ox_next_attempt_at_ms = ob_next_attempt_at_ms ob, ox_lease_owner = ob_lease_owner ob,
      ox_lease_expires_at_ms = ob_lease_expires_at_ms ob, ox_last_error = ob_last_error ob,
      ox_created_at_ms = ob_created_at_ms ob, ox_updated_at_ms = ob_updated_at_ms ob\<rparr>"

definition row_to_artifact :: "artifact_row \<Rightarrow> store_error + artifact_record" where
  "row_to_artifact row =
     bindR (id_of artifact_id_new (af_artifact_id row)) (\<lambda>aid.
     bindR (id_of task_id_new (af_task_id row)) (\<lambda>tid.
     bindR (id_of digest_new (af_digest row)) (\<lambda>digest.
     Inr \<lparr>ar_artifact_id = aid, ar_task_id = tid, ar_digest = digest,
          ar_media_type = media_type_new (af_media_type row),
          ar_byte_len = nat (max 0 (af_byte_len row)), ar_inline = (af_inline row \<noteq> 0),
          ar_created_at = af_created_at row\<rparr>)))"

text \<open>The values bound by the inserts into \<open>artifacts\<close>: an inline artifact carries its content.\<close>

definition artifact_to_row :: "artifact_record \<Rightarrow> bytes \<Rightarrow> artifact_row" where
  "artifact_to_row a content =
     \<lparr>af_artifact_id = ar_artifact_id a, af_task_id = ar_task_id a, af_digest = ar_digest a,
      af_media_type = ar_media_type a, af_byte_len = int (ar_byte_len a),
      af_inline = (if ar_inline a then 1 else 0),
      af_inline_blob = (if ar_inline a then Some content else None),
      af_created_at = ar_created_at a\<rparr>"

section \<open>Round trips\<close>

text \<open>What the newtypes guarantee of the values that reach the store.\<close>

definition valid_opt :: "string option \<Rightarrow> bool" where
  "valid_opt x = (case x of None \<Rightarrow> True | Some s \<Rightarrow> valid_id s)"

definition valid_task :: "task_record \<Rightarrow> bool" where
  "valid_task t \<longleftrightarrow> valid_id (tr_id t) \<and> valid_opt (tr_idempotency_key t)"

definition valid_lease :: "lease_record \<Rightarrow> bool" where
  "valid_lease l \<longleftrightarrow> valid_id (lr_lease_id l) \<and> valid_id (lr_task_id l) \<and> valid_opt (lr_worker_id l)"

definition valid_context :: "transport_context \<Rightarrow> bool" where
  "valid_context c \<longleftrightarrow> valid_id (tc_task_id c) \<and> valid_opt (tc_authenticated_sender_peer_id c) \<and>
     valid_opt (tc_expected_executor_peer_id c) \<and> valid_id (tc_destination_peer_id c)"

definition valid_result :: "terminal_result \<Rightarrow> bool" where
  "valid_result r \<longleftrightarrow> valid_id (tm_task_id r) \<and> valid_opt (tm_return_peer_id r) \<and>
     valid_id (tm_executor_peer_id r)"

definition valid_outbox :: "result_outbox_record \<Rightarrow> bool" where
  "valid_outbox ob \<longleftrightarrow> valid_id (ob_task_id ob) \<and> valid_id (ob_target_peer_id ob)"

lemma str_to_status_round [simp]: "str_to_status (status_to_str st) = Inr st"
  by (cases st) (simp_all add: str_to_status_def)

lemma str_to_event_type_round [simp]: "str_to_event_type (event_type_to_str ty) = Inr ty"
  by (cases ty) (simp_all add: str_to_event_type_def event_type_names_def)

lemma parse_delivery_state_round [simp]: "parse_delivery_state (delivery_state_as_str st) = Inr st"
  by (cases st) (simp_all add: parse_delivery_state_def)

lemma status_to_str_inj [simp]: "status_to_str a = status_to_str b \<longleftrightarrow> a = b"
  by (metis str_to_status_round sum.inject(2))

lemma transposeR_valid [simp]:
  "valid_opt x \<Longrightarrow> transposeR (map_option (id_of idempotency_key_new) x) = Inr x"
  "valid_opt x \<Longrightarrow> transposeR (map_option (id_of agent_id_new) x) = Inr x"
  "valid_opt x \<Longrightarrow> transposeR (map_option (id_of peer_id_new) x) = Inr x"
  by (cases x; simp add: valid_opt_def)+

lemma transposeR_status [simp]:
  "transposeR (map_option str_to_status (map_option status_to_str x)) = Inr x"
  by (cases x) simp_all

lemma row_to_task_round [simp]: "valid_task t \<Longrightarrow> row_to_task (task_to_row t) = Inr t"
  by (cases t) (simp add: row_to_task_def task_to_row_def valid_task_def)

lemma row_to_lease_round [simp]: "valid_lease l \<Longrightarrow> row_to_lease (lease_to_row l) = Inr l"
  by (cases l) (simp add: row_to_lease_def lease_to_row_def valid_lease_def)

lemma row_to_event_round [simp]: "valid_id (ev_task_id e) \<Longrightarrow> row_to_event (event_to_row e) = Inr e"
  by (cases e) (simp add: row_to_event_def event_to_row_def)

lemma row_to_task_envelope_round [simp]: "valid_id (er_task_id e) \<Longrightarrow> row_to_task_envelope e = Inr e"
  by (cases e) (simp add: row_to_task_envelope_def)

lemma row_to_transport_context_round [simp]: "valid_context c \<Longrightarrow> row_to_transport_context c = Inr c"
  by (cases c) (simp add: row_to_transport_context_def valid_context_def)

lemma row_to_terminal_result_round [simp]:
  "valid_result r \<Longrightarrow> row_to_terminal_result (result_to_row r) = Inr r"
  by (cases r) (simp add: row_to_terminal_result_def result_to_row_def valid_result_def)

lemma row_to_outbox_round [simp]: "valid_outbox ob \<Longrightarrow> row_to_outbox (outbox_to_row ob) = Inr ob"
  by (cases ob) (simp add: row_to_outbox_def outbox_to_row_def valid_outbox_def)

end
