(* ===== verification/Sql_Store.thy ===== *)
theory Sql_Store
  imports Task_Store Sql_Codec
begin

text \<open>
  \<open>SqliteStore\<close> of \<open>keryx-store\<close>. The database is a record of tables, a table the list of its rows
  in insertion order, and each SQL statement of the source a function on tables with the documented
  meaning of the statement. The pool has a single connection, so transactions are serial: an
  operation either commits the database its body ends in or leaves the database as it was.

  \<open>INSERT\<close> checks the primary keys and unique columns of the table; the text of the engine's error
  is not part of any lemma. Foreign keys never fail, since every insert follows that of its parent
  row. Failures of the file system or the connection are not modelled.
\<close>

section \<open>The database\<close>

record sql_db =
  db_tasks :: "task_row list"
  db_events :: "event_row list"
  db_leases :: "lease_row list"
  db_idempotency_keys :: "(string \<times> string) list"
  db_task_envelopes :: "task_envelope_record list"
  db_transport_context :: "transport_context list"
  db_terminal_results :: "result_row list"
  db_result_outbox :: "outbox_row list"
  db_artifacts :: "artifact_row list"
  db_blobs :: "blob_row list"

definition sql_init :: sql_db where
  "sql_init = \<lparr>db_tasks = [], db_events = [], db_leases = [], db_idempotency_keys = [],
     db_task_envelopes = [], db_transport_context = [], db_terminal_results = [],
     db_result_outbox = [], db_artifacts = [], db_blobs = []\<rparr>"

type_synonym 'a sql_result = "(store_error + 'a) \<times> sql_db"

text \<open>
  The body of a transaction returns an error, which rolls back, or a reply with the database to
  commit. The committed reply may itself be an error: leasing a task past its deadline commits the
  timeout and reports it.
\<close>

type_synonym 'a tx_body = "store_error + ((store_error + 'a) \<times> sql_db)"

definition transaction :: "sql_db \<Rightarrow> 'a tx_body \<Rightarrow> 'a sql_result" where
  "transaction db body = (case body of Inl e \<Rightarrow> (Inl e, db) | Inr (r, db') \<Rightarrow> (r, db'))"

definition commit :: "'a \<Rightarrow> sql_db \<Rightarrow> 'a tx_body" where
  "commit a db = Inr (Inr a, db)"

section \<open>Statements\<close>

definition constraint_failed :: "string \<Rightarrow> store_error" where
  "constraint_failed column = Database (''UNIQUE constraint failed: '' @ column)"

definition insert_task_row :: "task_row \<Rightarrow> sql_db \<Rightarrow> store_error + sql_db" where
  "insert_task_row row db =
     bindR (ensure (\<not> list_ex (\<lambda>r. tk_task_id r = tk_task_id row) (db_tasks db))
       (constraint_failed ''tasks.task_id'')) (\<lambda>_.
     bindR (ensure (tk_idempotency_key row = None \<or>
         \<not> list_ex (\<lambda>r. tk_idempotency_key r = tk_idempotency_key row) (db_tasks db))
       (constraint_failed ''tasks.idempotency_key'')) (\<lambda>_.
     Inr (db\<lparr>db_tasks := db_tasks db @ [row]\<rparr>)))"

definition insert_idempotency_row :: "string \<Rightarrow> string \<Rightarrow> sql_db \<Rightarrow> store_error + sql_db" where
  "insert_idempotency_row key tid db =
     bindR (ensure (\<not> list_ex (\<lambda>r. fst r = key) (db_idempotency_keys db))
       (constraint_failed ''idempotency_keys.key'')) (\<lambda>_.
     bindR (ensure (\<not> list_ex (\<lambda>r. snd r = tid) (db_idempotency_keys db))
       (constraint_failed ''idempotency_keys.task_id'')) (\<lambda>_.
     Inr (db\<lparr>db_idempotency_keys := db_idempotency_keys db @ [(key, tid)]\<rparr>)))"

definition insert_event ::
  "task_id \<Rightarrow> nat \<Rightarrow> event_type \<Rightarrow> task_status option \<Rightarrow> task_status \<Rightarrow> sql_db \<Rightarrow> store_error + sql_db"
where
  "insert_event tid sequence ty from to db =
     bindR (ensure (\<not> list_ex (\<lambda>r. el_task_id r = tid \<and> el_sequence r = sequence) (db_events db))
       (constraint_failed ''task_events.task_id, task_events.sequence'')) (\<lambda>_.
     Inr (db\<lparr>db_events := db_events db @
       [\<lparr>el_task_id = tid, el_sequence = sequence, el_event_type = event_type_to_str ty,
         el_from_status = map_option status_to_str from, el_to_status = status_to_str to\<rparr>]\<rparr>))"

definition insert_envelope_row :: "task_envelope_record \<Rightarrow> sql_db \<Rightarrow> store_error + sql_db" where
  "insert_envelope_row env db =
     bindR (ensure (\<not> list_ex (\<lambda>r. er_task_id r = er_task_id env) (db_task_envelopes db))
       (constraint_failed ''task_envelopes.task_id'')) (\<lambda>_.
     Inr (db\<lparr>db_task_envelopes := db_task_envelopes db @ [env]\<rparr>))"

definition insert_transport_context :: "transport_context \<Rightarrow> sql_db \<Rightarrow> store_error + sql_db" where
  "insert_transport_context ctx db =
     bindR (ensure (\<not> list_ex (\<lambda>r. tc_task_id r = tc_task_id ctx) (db_transport_context db))
       (constraint_failed ''task_transport_context.task_id'')) (\<lambda>_.
     Inr (db\<lparr>db_transport_context := db_transport_context db @ [ctx]\<rparr>))"

definition insert_terminal_result_only :: "terminal_result \<Rightarrow> sql_db \<Rightarrow> store_error + sql_db" where
  "insert_terminal_result_only result db =
     bindR (ensure (\<not> list_ex (\<lambda>r. rs_task_id r = tm_task_id result) (db_terminal_results db))
       (constraint_failed ''task_terminal_results.task_id'')) (\<lambda>_.
     Inr (db\<lparr>db_terminal_results := db_terminal_results db @ [result_to_row result]\<rparr>))"

definition insert_outbox_row :: "outbox_row \<Rightarrow> sql_db \<Rightarrow> store_error + sql_db" where
  "insert_outbox_row row db =
     bindR (ensure (\<not> list_ex (\<lambda>r. ox_delivery_id r = ox_delivery_id row) (db_result_outbox db))
       (constraint_failed ''result_outbox.delivery_id'')) (\<lambda>_.
     bindR (ensure (\<not> list_ex (\<lambda>r. ox_task_id r = ox_task_id row) (db_result_outbox db))
       (constraint_failed ''result_outbox.task_id'')) (\<lambda>_.
     Inr (db\<lparr>db_result_outbox := db_result_outbox db @ [row]\<rparr>)))"

definition insert_terminal_result_and_outbox :: "terminal_result \<Rightarrow> sql_db \<Rightarrow> store_error + sql_db" where
  "insert_terminal_result_and_outbox result db =
     bindR (insert_terminal_result_only result db) (\<lambda>db.
     case make_outbox result of
       None \<Rightarrow> Inr db
     | Some ob \<Rightarrow> insert_outbox_row (outbox_to_row ob) db)"

text \<open>
  \<open>INSERT OR REPLACE INTO leases\<close>: rows that collide on the primary key \<open>lease_id\<close> or on the unique
  column \<open>task_id\<close> are deleted first.
\<close>

definition replace_lease_row :: "lease_row \<Rightarrow> sql_db \<Rightarrow> sql_db" where
  "replace_lease_row row db =
     db\<lparr>db_leases :=
       filter (\<lambda>r. ll_lease_id r \<noteq> ll_lease_id row \<and> ll_task_id r \<noteq> ll_task_id row) (db_leases db)
       @ [row]\<rparr>"

definition update_tasks_where :: "task_id \<Rightarrow> (task_row \<Rightarrow> task_row) \<Rightarrow> sql_db \<Rightarrow> sql_db" where
  "update_tasks_where tid f db =
     db\<lparr>db_tasks := map (\<lambda>r. if tk_task_id r = tid then f r else r) (db_tasks db)\<rparr>"

definition update_task_metadata_with_executor ::
  "task_id \<Rightarrow> task_status \<Rightarrow> u32 \<Rightarrow> bool \<Rightarrow> string option \<Rightarrow> sql_db \<Rightarrow> sql_db" where
  "update_task_metadata_with_executor tid status retry_count dl reason db =
     update_tasks_where tid (\<lambda>r. r\<lparr>tk_status := status_to_str status,
       tk_retry_count := uint retry_count, tk_dead_lettered := (if dl then 1 else 0),
       tk_dead_letter_reason := reason\<rparr>) db"

definition update_task_status_with_executor :: "task_id \<Rightarrow> task_status \<Rightarrow> sql_db \<Rightarrow> sql_db" where
  "update_task_status_with_executor tid status db =
     update_tasks_where tid (\<lambda>r. r\<lparr>tk_status := status_to_str status\<rparr>) db"

text \<open>Only the column \<open>updated_at\<close> changes, which the rows of the model do not carry.\<close>

definition touch_task_updated_at_with_executor :: "task_id \<Rightarrow> sql_db \<Rightarrow> sql_db" where
  "touch_task_updated_at_with_executor tid db = update_tasks_where tid (\<lambda>r. r) db"

definition deactivate_lease_for_task_with_executor :: "task_id \<Rightarrow> sql_db \<Rightarrow> sql_db" where
  "deactivate_lease_for_task_with_executor tid db =
     db\<lparr>db_leases := map (\<lambda>r. if ll_task_id r = tid \<and> ll_active r then r\<lparr>ll_active := False\<rparr> else r)
       (db_leases db)\<rparr>"

text \<open>\<open>LIMIT ?\<close> with the limit bound as \<open>limit as i64\<close>; a negative limit is no limit.\<close>

definition sql_limit :: "nat \<Rightarrow> 'a list \<Rightarrow> 'a list" where
  "sql_limit n xs = (if n < 2 ^ 63 then take n xs else xs)"

definition sql_limit_opt :: "nat option \<Rightarrow> 'a list \<Rightarrow> 'a list" where
  "sql_limit_opt limit xs = (case limit of None \<Rightarrow> xs | Some n \<Rightarrow> sql_limit n xs)"

section \<open>Fetches\<close>

definition fetch_task_optional_with_executor ::
  "task_id \<Rightarrow> sql_db \<Rightarrow> store_error + task_record option" where
  "fetch_task_optional_with_executor tid db =
     transposeR (map_option row_to_task (find (\<lambda>r. tk_task_id r = tid) (db_tasks db)))"

definition fetch_task_with_executor :: "task_id \<Rightarrow> sql_db \<Rightarrow> store_error + task_record" where
  "fetch_task_with_executor tid db =
     bindR (fetch_task_optional_with_executor tid db) (\<lambda>row. ok_or row (TaskNotFound tid))"

definition fetch_active_lease_with_executor ::
  "task_id \<Rightarrow> sql_db \<Rightarrow> store_error + lease_record option" where
  "fetch_active_lease_with_executor tid db =
     transposeR (map_option row_to_lease
       (find (\<lambda>r. ll_task_id r = tid \<and> ll_active r) (db_leases db)))"

definition fetch_task_envelope_optional_with_executor ::
  "task_id \<Rightarrow> sql_db \<Rightarrow> store_error + task_envelope_record option" where
  "fetch_task_envelope_optional_with_executor tid db =
     transposeR (map_option row_to_task_envelope
       (find (\<lambda>r. er_task_id r = tid) (db_task_envelopes db)))"

definition fetch_transport_context_optional ::
  "task_id \<Rightarrow> sql_db \<Rightarrow> store_error + transport_context option" where
  "fetch_transport_context_optional tid db =
     transposeR (map_option row_to_transport_context
       (find (\<lambda>r. tc_task_id r = tid) (db_transport_context db)))"

definition fetch_terminal_result_optional ::
  "task_id \<Rightarrow> sql_db \<Rightarrow> store_error + terminal_result option" where
  "fetch_terminal_result_optional tid db =
     transposeR (map_option row_to_terminal_result
       (find (\<lambda>r. rs_task_id r = tid) (db_terminal_results db)))"

definition select_events :: "task_id \<Rightarrow> sql_db \<Rightarrow> event_row list" where
  "select_events tid db = sort_key el_sequence (filter (\<lambda>r. el_task_id r = tid) (db_events db))"

definition events_for_task_with_executor ::
  "task_id \<Rightarrow> sql_db \<Rightarrow> store_error + task_event_record list" where
  "events_for_task_with_executor tid db =
     (let rows = select_events tid db in
      if rows = [] then Inl (CorruptEventStream tid) else mapR row_to_event rows)"

text \<open>\<open>SELECT COALESCE(MAX(sequence), 0) + 1\<close>.\<close>

definition next_sequence_with_executor :: "task_id \<Rightarrow> sql_db \<Rightarrow> nat" where
  "next_sequence_with_executor tid db =
     fold max (map el_sequence (filter (\<lambda>r. el_task_id r = tid) (db_events db))) 0 + 1"

text \<open>The recurring tail of a lifecycle operation: the status update and its event.\<close>

definition set_status_with_event ::
  "task_id \<Rightarrow> task_status \<Rightarrow> nat \<Rightarrow> event_type \<Rightarrow> task_status \<Rightarrow> task_status \<Rightarrow> sql_db \<Rightarrow>
   store_error + sql_db" where
  "set_status_with_event tid status sequence ty from to db =
     insert_event tid sequence ty (Some from) to (update_task_status_with_executor tid status db)"

section \<open>Queries\<close>

definition sql_get_task :: "task_id \<Rightarrow> sql_db \<Rightarrow> store_error + task_record" where
  "sql_get_task tid db =
     bindR (ok_or (find (\<lambda>r. tk_task_id r = tid) (db_tasks db)) (TaskNotFound tid)) row_to_task"

definition sql_get_task_envelope :: "task_id \<Rightarrow> sql_db \<Rightarrow> store_error + task_envelope_record" where
  "sql_get_task_envelope tid db =
     bindR (fetch_task_envelope_optional_with_executor tid db) (\<lambda>row.
     ok_or row (TaskEnvelopeNotFound tid))"

definition sql_get_transport_context :: "task_id \<Rightarrow> sql_db \<Rightarrow> store_error + transport_context" where
  "sql_get_transport_context tid db =
     bindR (fetch_transport_context_optional tid db) (\<lambda>row. ok_or row (TransportContextNotFound tid))"

definition sql_get_terminal_result :: "task_id \<Rightarrow> sql_db \<Rightarrow> store_error + terminal_result" where
  "sql_get_terminal_result tid db =
     bindR (fetch_terminal_result_optional tid db) (\<lambda>row. ok_or row (TerminalResultNotFound tid))"

definition sql_active_lease :: "task_id \<Rightarrow> sql_db \<Rightarrow> store_error + lease_record option" where
  "sql_active_lease tid db = fetch_active_lease_with_executor tid db"

definition sql_count_tasks_by_status :: "task_status \<Rightarrow> sql_db \<Rightarrow> store_error + nat" where
  "sql_count_tasks_by_status status db =
     Inr (length (filter (\<lambda>r. tk_status r = status_to_str status) (db_tasks db)))"

definition sql_retained_task_envelope_bytes :: "sql_db \<Rightarrow> store_error + nat" where
  "sql_retained_task_envelope_bytes db =
     Inr (sum_list (map (\<lambda>r. length (er_encoded_envelope r)) (db_task_envelopes db)))"

definition sql_events_for_task :: "task_id \<Rightarrow> sql_db \<Rightarrow> store_error + task_event_record list" where
  "sql_events_for_task tid db =
     (let rows = select_events tid db in
      if rows = [] then
        (case sql_get_task tid db of
           Inr _ \<Rightarrow> Inl (CorruptEventStream tid)
         | Inl (TaskNotFound _) \<Rightarrow> Inl (TaskNotFound tid)
         | Inl error \<Rightarrow> Inl error)
      else mapR row_to_event rows)"

definition sql_replay_task :: "task_id \<Rightarrow> sql_db \<Rightarrow> store_error + task_record" where
  "sql_replay_task tid db =
     bindR (sql_get_task tid db) (\<lambda>t.
     bindR (sql_events_for_task tid db) (\<lambda>evs.
     replay_task_from_snapshot_and_events t evs))"

text \<open>The joins of the pending-task queries.\<close>

definition join_envelopes :: "sql_db \<Rightarrow> (task_row \<times> task_envelope_record) list" where
  "join_envelopes db =
     concat (map (\<lambda>t. map (Pair t) (filter (\<lambda>e. er_task_id e = tk_task_id t) (db_task_envelopes db)))
       (db_tasks db))"

definition join_key :: "task_row \<times> task_envelope_record \<Rightarrow> int \<times> string" where
  "join_key row = (er_received_at_ms (snd row), tk_task_id (fst row))"

definition sql_pending_task_envelopes ::
  "nat \<Rightarrow> sql_db \<Rightarrow> store_error + pending_task_envelope list" where
  "sql_pending_task_envelopes limit db =
     (if limit = 0 then Inr []
      else mapR row_to_pending_task_envelope (sql_limit limit (sort_key join_key
             (filter (\<lambda>row. tk_status (fst row) = ''pending'') (join_envelopes db)))))"

text \<open>
  The left join with \<open>task_transport_context\<close>: a task without a context row joins with nulls and
  passes the \<open>IS NULL\<close> test.
\<close>

definition sql_executor_matches :: "sql_db \<Rightarrow> peer_id \<Rightarrow> task_row \<Rightarrow> bool" where
  "sql_executor_matches db local_peer t =
     (case find (\<lambda>c. tc_task_id c = tk_task_id t) (db_transport_context db) of
        None \<Rightarrow> True
      | Some c \<Rightarrow> tc_expected_executor_peer_id c = None \<or>
                  tc_expected_executor_peer_id c = Some local_peer)"

definition sql_claimable_pending_task_envelopes ::
  "peer_id \<Rightarrow> nat \<Rightarrow> sql_db \<Rightarrow> store_error + pending_task_envelope list" where
  "sql_claimable_pending_task_envelopes local_peer limit db =
     (if limit = 0 then Inr []
      else mapR row_to_pending_task_envelope (sql_limit limit (sort_key join_key
             (filter (\<lambda>row. tk_status (fst row) = ''pending'' \<and> sql_executor_matches db local_peer (fst row))
               (join_envelopes db)))))"

definition sql_result_delivery_for_task ::
  "task_id \<Rightarrow> sql_db \<Rightarrow> store_error + result_outbox_record option" where
  "sql_result_delivery_for_task tid db =
     transposeR (map_option row_to_outbox (find (\<lambda>r. ox_task_id r = tid) (db_result_outbox db)))"

definition outbox_key :: "outbox_row \<Rightarrow> int \<times> int \<times> string" where
  "outbox_key r = (ox_next_attempt_at_ms r, ox_created_at_ms r, ox_delivery_id r)"

definition sql_pending_result_deliveries ::
  "nat \<Rightarrow> sql_db \<Rightarrow> store_error + result_outbox_record list" where
  "sql_pending_result_deliveries limit db =
     mapR row_to_outbox (sql_limit limit (sort_key outbox_key
       (filter (\<lambda>r. ox_state r = ''pending'') (db_result_outbox db))))"

section \<open>Acceptance\<close>

text \<open>The inserts all three accept operations begin with.\<close>

definition insert_accepted_task :: "task_record \<Rightarrow> sql_db \<Rightarrow> store_error + sql_db" where
  "insert_accepted_task t db =
     bindR (insert_task_row (task_to_row t) db) (\<lambda>db.
     bindR (case tr_idempotency_key t of
              None \<Rightarrow> Inr db
            | Some key \<Rightarrow> insert_idempotency_row key (tr_id t) db) (\<lambda>db.
     insert_event (tr_id t) 1 TaskAccepted None (tr_status t) db))"

definition find_idempotency :: "idempotency_key option \<Rightarrow> sql_db \<Rightarrow> (string \<times> string) option" where
  "find_idempotency key db =
     (case key of
        None \<Rightarrow> None
      | Some k \<Rightarrow> find (\<lambda>r. fst r = k) (db_idempotency_keys db))"

definition sql_accept_task :: "task_record \<Rightarrow> sql_db \<Rightarrow> task_record sql_result" where
  "sql_accept_task t db =
     attempt (validate_accepted_task_status t) db (\<lambda>_.
     transaction db (
       bindR (ensure_pending_accept t) (\<lambda>_.
       case find_idempotency (tr_idempotency_key t) db of
         Some row \<Rightarrow>
           bindR (id_of task_id_new (snd row)) (\<lambda>existing_tid.
           bindR (fetch_task_with_executor existing_tid db) (\<lambda>existing.
           if existing = t then commit existing db
           else Inl (IdempotencyConflict (the (tr_idempotency_key t)) existing_tid)))
       | None \<Rightarrow>
           if find (\<lambda>r. tk_task_id r = tr_id t) (db_tasks db) \<noteq> None
           then Inl (TaskAlreadyExists (tr_id t))
           else bindR (insert_accepted_task t db) (\<lambda>db. commit t db))))"

definition sql_accept_task_with_envelope ::
  "task_record \<Rightarrow> task_envelope_record \<Rightarrow> sql_db \<Rightarrow> task_record sql_result" where
  "sql_accept_task_with_envelope t env db =
     attempt (validate_accepted_task_status t) db (\<lambda>_.
     attempt (ensure_pending_accept t) db (\<lambda>_.
     attempt (ensure_matching_envelope_task_id t env) db (\<lambda>_.
     transaction db (
       case find_idempotency (tr_idempotency_key t) db of
         Some row \<Rightarrow>
           bindR (id_of task_id_new (snd row)) (\<lambda>existing_tid.
           bindR (fetch_task_with_executor existing_tid db) (\<lambda>existing.
           if existing = t then
             bindR (fetch_task_envelope_optional_with_executor existing_tid db) (\<lambda>existing_env.
             if existing_env = Some env then commit existing db
             else Inl (TaskEnvelopeConflict existing_tid))
           else Inl (IdempotencyConflict (the (tr_idempotency_key t)) existing_tid)))
       | None \<Rightarrow>
           if find (\<lambda>r. tk_task_id r = tr_id t) (db_tasks db) \<noteq> None
           then Inl (TaskAlreadyExists (tr_id t))
           else
             bindR (insert_accepted_task t db) (\<lambda>db.
             bindR (insert_envelope_row env db) (\<lambda>db.
             commit t db))))))"

definition sql_accept_task_with_envelope_and_context ::
  "task_record \<Rightarrow> task_envelope_record \<Rightarrow> transport_context \<Rightarrow> sql_db \<Rightarrow> task_record sql_result"
where
  "sql_accept_task_with_envelope_and_context t env ctx db =
     attempt (validate_accepted_task_status t) db (\<lambda>_.
     attempt (ensure_pending_accept t) db (\<lambda>_.
     attempt (ensure_matching_envelope_task_id t env) db (\<lambda>_.
     attempt (ensure_context_task ctx (tr_id t)) db (\<lambda>_.
     transaction db (
       bindR (fetch_task_optional_with_executor (tr_id t) db) (\<lambda>existing_task.
       case existing_task of
         Some existing \<Rightarrow>
           bindR (fetch_task_envelope_optional_with_executor (tr_id t) db) (\<lambda>existing_env.
           bindR (fetch_transport_context_optional (tr_id t) db) (\<lambda>existing_ctx.
           if existing = t
              \<and> (case existing_env of
                   None \<Rightarrow> False | Some stored \<Rightarrow> same_delivered_envelope stored env)
              \<and> (case existing_ctx of
                   None \<Rightarrow> False | Some stored \<Rightarrow> same_transport_identity stored ctx)
           then
             commit existing
               (if (case existing_ctx of
                      None \<Rightarrow> False
                    | Some stored \<Rightarrow> tc_relay_frame_id stored \<noteq> tc_relay_frame_id ctx)
                then db\<lparr>db_transport_context :=
                       map (\<lambda>r. if tc_task_id r = tr_id t
                               then r\<lparr>tc_relay_frame_id := tc_relay_frame_id ctx,
                                      tc_received_at_ms := tc_received_at_ms ctx\<rparr>
                               else r) (db_transport_context db)\<rparr>
                else db)
           else Inl (TransportContextConflict (tr_id t))))
       | None \<Rightarrow>
           (case find_idempotency (tr_idempotency_key t) db of
              Some row \<Rightarrow>
                bindR (id_of task_id_new (snd row)) (\<lambda>existing_tid.
                Inl (IdempotencyConflict (the (tr_idempotency_key t)) existing_tid))
            | None \<Rightarrow>
                bindR (insert_accepted_task t db) (\<lambda>db.
                bindR (insert_envelope_row env db) (\<lambda>db.
                bindR (insert_transport_context ctx db) (\<lambda>db.
                commit t db))))))))))"

definition sql_put_transport_context ::
  "transport_context \<Rightarrow> sql_db \<Rightarrow> transport_context sql_result" where
  "sql_put_transport_context ctx db =
     transaction db (
       bindR (case fetch_task_with_executor (tc_task_id ctx) db of
                Inr _ \<Rightarrow> Inr ()
              | Inl (TaskNotFound _) \<Rightarrow> Inl (TaskNotFound (tc_task_id ctx))
              | Inl error \<Rightarrow> Inl error) (\<lambda>_.
       bindR (fetch_transport_context_optional (tc_task_id ctx) db) (\<lambda>existing.
       case existing of
         Some stored \<Rightarrow>
           if stored = ctx then commit stored db
           else Inl (TransportContextConflict (tc_task_id ctx))
       | None \<Rightarrow> bindR (insert_transport_context ctx db) (\<lambda>db. commit ctx db))))"

section \<open>Leases and completion\<close>

definition sql_check_executor :: "task_id \<Rightarrow> peer_id option \<Rightarrow> sql_db \<Rightarrow> store_error + unit" where
  "sql_check_executor tid local_peer db =
     (case local_peer of
        None \<Rightarrow> Inr ()
      | Some actual \<Rightarrow>
          (case Option.bind (find (\<lambda>r. tc_task_id r = tid) (db_transport_context db))
                  tc_expected_executor_peer_id of
             None \<Rightarrow> Inr ()
           | Some expected \<Rightarrow>
               if expected \<noteq> actual then
                 bindR (id_of peer_id_new expected) (\<lambda>expected.
                 Inl (TaskExecutorMismatch tid expected actual))
               else Inr ()))"

definition sql_lease_start ::
  "task_id \<Rightarrow> lease_record \<Rightarrow> task_record \<Rightarrow> sql_db \<Rightarrow> task_record tx_body" where
  "sql_lease_start tid lease t db =
     bindR (map_err from_core_error (validate_transition (tr_status t) Running)) (\<lambda>transition.
     let sequence = next_sequence_with_executor tid db;
         db1 = replace_lease_row
                 \<lparr>ll_lease_id = lr_lease_id lease, ll_task_id = tid, ll_worker_id = lr_worker_id lease,
                  ll_leased_at_ms = lr_leased_at_ms lease, ll_expires_at_ms = lr_expires_at_ms lease,
                  ll_active = True\<rparr> db
     in bindR (set_status_with_event tid Running sequence (tt_event_type transition)
                 (tt_from transition) (tt_to transition) db1) (\<lambda>db2.
        Inr (sql_get_task tid db2, db2)))"

definition sql_lease_task_with_peer_guard ::
  "task_id \<Rightarrow> lease_record \<Rightarrow> peer_id option \<Rightarrow> sql_db \<Rightarrow> task_record sql_result" where
  "sql_lease_task_with_peer_guard tid lease local_peer db =
     transaction db (
       bindR (ensure_matching_task_id tid lease) (\<lambda>_.
       bindR (ensure_lease_has_owner lease) (\<lambda>_.
       bindR (sql_check_executor tid local_peer db) (\<lambda>_.
       bindR (fetch_task_with_executor tid db) (\<lambda>t.
       bindR (fetch_active_lease_with_executor tid db) (\<lambda>active.
       if active \<noteq> None then Inl (LeaseConflict tid)
       else case tr_deadline_ms t of
         Some deadline \<Rightarrow>
           if deadline \<le> lr_leased_at_ms lease then
             bindR (validate_deadline_transition (tr_status t)) (\<lambda>_.
             bindR (set_status_with_event tid Failed (next_sequence_with_executor tid db)
                      TaskTimedOut (tr_status t) Failed db) (\<lambda>db.
             Inr (Inl (TaskDeadlineExpired tid deadline (lr_leased_at_ms lease)), db)))
           else sql_lease_start tid lease t db
       | None \<Rightarrow> sql_lease_start tid lease t db))))))"

definition sql_renew_lease ::
  "task_id \<Rightarrow> lease_id \<Rightarrow> agent_id \<Rightarrow> int \<Rightarrow> int \<Rightarrow> sql_db \<Rightarrow> lease_record sql_result" where
  "sql_renew_lease tid lid wid now_ms new_expires_at_ms db =
     transaction db (
       bindR (fetch_task_with_executor tid db) (\<lambda>t.
       bindR (require_status (tr_status t) Running) (\<lambda>_.
       bindR (bindR (fetch_active_lease_with_executor tid db) (\<lambda>l. ok_or l (LeaseNotFound tid))) (\<lambda>active.
       bindR (ensure_matching_lease_id tid active lid) (\<lambda>_.
       bindR (ensure_matching_worker_id tid active wid) (\<lambda>_.
       bindR (ensure_valid_lease_expiry active now_ms new_expires_at_ms) (\<lambda>_.
       let db1 = db\<lparr>db_leases :=
                   map (\<lambda>r. if ll_task_id r = tid \<and> ll_lease_id r = lid \<and> ll_worker_id r = Some wid
                           then r\<lparr>ll_expires_at_ms := new_expires_at_ms, ll_active := True\<rparr>
                           else r) (db_leases db)\<rparr>
       in commit (active\<lparr>lr_expires_at_ms := new_expires_at_ms\<rparr>)
            (touch_task_updated_at_with_executor tid db1))))))))"

definition finish_task_in_tx ::
  "task_id \<Rightarrow> lease_id \<Rightarrow> agent_id \<Rightarrow> task_status \<Rightarrow> u32 \<Rightarrow> bool \<Rightarrow> string option \<Rightarrow> sql_db \<Rightarrow>
   store_error + (task_record \<times> sql_db)" where
  "finish_task_in_tx tid lid wid to retry_count dl reason db =
     bindR (fetch_task_with_executor tid db) (\<lambda>t.
     bindR (bindR (fetch_active_lease_with_executor tid db) (\<lambda>l. ok_or l (LeaseNotFound tid))) (\<lambda>active.
     bindR (ensure_matching_lease_id tid active lid) (\<lambda>_.
     bindR (ensure_matching_worker_id tid active wid) (\<lambda>_.
     bindR (map_err from_core_error (validate_transition (tr_status t) to)) (\<lambda>transition.
     let sequence = next_sequence_with_executor tid db;
         db1 = deactivate_lease_for_task_with_executor tid db;
         db2 = update_task_metadata_with_executor tid to retry_count dl reason db1
     in bindR (insert_event tid sequence (tt_event_type transition) (Some (tt_from transition))
                 (tt_to transition) db2) (\<lambda>db3.
        bindR (fetch_task_with_executor tid db3) (\<lambda>t. Inr (t, db3))))))))"

definition sql_finish_task ::
  "task_id \<Rightarrow> lease_id \<Rightarrow> agent_id \<Rightarrow> task_status \<Rightarrow> sql_db \<Rightarrow> task_record sql_result" where
  "sql_finish_task tid lid wid to db =
     transaction db (
       bindR (fetch_task_with_executor tid db) (\<lambda>t.
       bindR (finish_task_in_tx tid lid wid to (tr_retry_count t) (tr_dead_lettered t)
                (tr_dead_letter_reason t) db) (\<lambda>(updated, db).
       commit updated db)))"

definition sql_complete_task ::
  "task_id \<Rightarrow> lease_id \<Rightarrow> agent_id \<Rightarrow> sql_db \<Rightarrow> task_record sql_result" where
  "sql_complete_task tid lid wid db = sql_finish_task tid lid wid Completed db"

definition sqlite_retry_task_in_tx ::
  "task_id \<Rightarrow> task_record \<Rightarrow> sql_db \<Rightarrow> store_error + (task_record \<times> sql_db)" where
  "sqlite_retry_task_in_tx tid t db =
     bindR (require_status (tr_status t) Running) (\<lambda>_.
     let retry_count = sat_add (tr_retry_count t) 1;
         sequence = next_sequence_with_executor tid db;
         db1 = deactivate_lease_for_task_with_executor tid db;
         db2 = update_task_metadata_with_executor tid Pending retry_count False None db1
     in bindR (insert_event tid sequence RecoveryAction (Some Running) Pending db2) (\<lambda>db3.
        bindR (fetch_task_with_executor tid db3) (\<lambda>t. Inr (t, db3))))"

definition sqlite_dead_letter_task_in_tx ::
  "task_id \<Rightarrow> task_record \<Rightarrow> string \<Rightarrow> sql_db \<Rightarrow> store_error + (task_record \<times> sql_db)" where
  "sqlite_dead_letter_task_in_tx tid t reason db =
     bindR (require_status (tr_status t) Running) (\<lambda>_.
     let retry_count = sat_add (tr_retry_count t) 1 in
     bindR (map_err from_core_error (validate_transition (tr_status t) Failed)) (\<lambda>transition.
     let sequence = next_sequence_with_executor tid db;
         db1 = deactivate_lease_for_task_with_executor tid db;
         db2 = update_task_metadata_with_executor tid Failed retry_count True (Some reason) db1
     in bindR (insert_event tid sequence TaskDeadLettered (Some (tt_from transition))
                 (tt_to transition) db2) (\<lambda>db3.
        bindR (fetch_task_with_executor tid db3) (\<lambda>t. Inr (t, db3)))))"

text \<open>The prologue of the operations that need the caller to own the active lease.\<close>

definition fetch_owned_task ::
  "task_id \<Rightarrow> lease_id \<Rightarrow> agent_id \<Rightarrow> sql_db \<Rightarrow> store_error + task_record" where
  "fetch_owned_task tid lid wid db =
     bindR (fetch_task_with_executor tid db) (\<lambda>t.
     bindR (bindR (fetch_active_lease_with_executor tid db) (\<lambda>l. ok_or l (LeaseNotFound tid))) (\<lambda>active.
     bindR (ensure_matching_lease_id tid active lid) (\<lambda>_.
     bindR (ensure_matching_worker_id tid active wid) (\<lambda>_. Inr t))))"

definition sql_fail_task ::
  "task_id \<Rightarrow> lease_id \<Rightarrow> agent_id \<Rightarrow> string \<Rightarrow> retry_policy \<Rightarrow> sql_db \<Rightarrow> task_record sql_result" where
  "sql_fail_task tid lid wid error_reason policy db =
     transaction db (
       bindR (fetch_owned_task tid lid wid db) (\<lambda>t.
       bindR (require_status (tr_status t) Running) (\<lambda>_.
       bindR (if max_retries policy = 0
              then finish_task_in_tx tid lid wid Failed (tr_retry_count t) False None db
              else if should_retry_after_failure policy (tr_retry_count t)
              then sqlite_retry_task_in_tx tid t db
              else sqlite_dead_letter_task_in_tx tid t error_reason db) (\<lambda>(updated, db).
       commit updated db))))"

definition sql_retry_task ::
  "task_id \<Rightarrow> lease_id \<Rightarrow> agent_id \<Rightarrow> sql_db \<Rightarrow> task_record sql_result" where
  "sql_retry_task tid lid wid db =
     transaction db (
       bindR (fetch_owned_task tid lid wid db) (\<lambda>t.
       bindR (sqlite_retry_task_in_tx tid t db) (\<lambda>(updated, db). commit updated db)))"

definition sql_dead_letter_task ::
  "task_id \<Rightarrow> lease_id \<Rightarrow> agent_id \<Rightarrow> string \<Rightarrow> sql_db \<Rightarrow> task_record sql_result" where
  "sql_dead_letter_task tid lid wid reason db =
     transaction db (
       bindR (fetch_owned_task tid lid wid db) (\<lambda>t.
       bindR (sqlite_dead_letter_task_in_tx tid t reason db) (\<lambda>(updated, db). commit updated db)))"

section \<open>Cancellation, transitions and legacy events\<close>

definition sql_cancel_task :: "task_id \<Rightarrow> int \<Rightarrow> sql_db \<Rightarrow> task_record sql_result" where
  "sql_cancel_task tid now_ms db =
     transaction db (
       bindR (fetch_task_with_executor tid db) (\<lambda>t.
       if is_terminal (tr_status t) then commit t db
       else
         bindR (if tr_status t = Running then
                  bindR (bindR (fetch_active_lease_with_executor tid db)
                           (\<lambda>l. ok_or l (LeaseNotFound tid))) (\<lambda>active.
                  ensure_active_lease_unexpired active now_ms)
                else Inr ()) (\<lambda>_.
         bindR (map_err from_core_error (validate_cancel_transition (tr_status t))) (\<lambda>transition.
         let sequence = next_sequence_with_executor tid db;
             db1 = deactivate_lease_for_task_with_executor tid db
         in bindR (set_status_with_event tid (tt_to transition) sequence (tt_event_type transition)
                     (tt_from transition) (tt_to transition) db1) (\<lambda>db2.
            Inr (sql_get_task tid db2, db2))))))"

definition sql_transition_task :: "task_id \<Rightarrow> task_status \<Rightarrow> sql_db \<Rightarrow> task_record sql_result" where
  "sql_transition_task tid to db =
     transaction db (
       bindR (fetch_task_with_executor tid db) (\<lambda>t.
       bindR (map_err from_core_error (validate_transition (tr_status t) to)) (\<lambda>transition.
       let sequence = next_sequence_with_executor tid db;
           db1 = (if is_terminal to then deactivate_lease_for_task_with_executor tid db else db)
       in bindR (set_status_with_event tid to sequence (tt_event_type transition)
                   (tt_from transition) (tt_to transition) db1) (\<lambda>db2.
          Inr (sql_get_task tid db2, db2)))))"

definition sql_accept_legacy_event ::
  "task_id \<Rightarrow> event_type \<Rightarrow> sql_db \<Rightarrow> task_record sql_result" where
  "sql_accept_legacy_event tid ty db =
     attempt (ok_or (from_keryx_event_type ty)
                (Validation (InvalidTaskTransition Pending Pending))) db (\<lambda>legacy.
     transaction db (
       bindR (fetch_task_with_executor tid db) (\<lambda>t.
       bindR (plan_legacy_event_append (tr_status t) legacy) (\<lambda>plan.
       let sequence = next_sequence_with_executor tid db in
       bindR (case plan of
                Lifecycle transition \<Rightarrow>
                  set_status_with_event tid (tt_to transition) sequence (tt_event_type transition)
                    (tt_from transition) (tt_to transition)
                    (if is_terminal (tt_to transition)
                     then deactivate_lease_for_task_with_executor tid db else db)
              | Operational preserved status \<Rightarrow>
                  insert_event tid sequence preserved (Some status) status db) (\<lambda>db.
       Inr (sql_get_task tid db, db))))))"

section \<open>Deadlines and stale leases\<close>

definition deadline_expired :: "int \<Rightarrow> task_row \<Rightarrow> bool" where
  "deadline_expired now_ms r \<longleftrightarrow>
     (case tk_deadline_ms r of None \<Rightarrow> False | Some d \<Rightarrow> d \<le> now_ms) \<and>
     tk_status r \<in> set [''pending'', ''running'']"

definition sql_expired_deadlines :: "int \<Rightarrow> nat option \<Rightarrow> sql_db \<Rightarrow> task_row list" where
  "sql_expired_deadlines now_ms limit db =
     sql_limit_opt limit (sort_key (\<lambda>r. (the (tk_deadline_ms r), tk_task_id r))
       (filter (deadline_expired now_ms) (db_tasks db)))"

fun sql_fail_expired_loop ::
  "task_row list \<Rightarrow> task_record list \<Rightarrow> sql_db \<Rightarrow> store_error + (task_record list \<times> sql_db)" where
  "sql_fail_expired_loop [] failed db = Inr (failed, db)"
| "sql_fail_expired_loop (row # rows) failed db =
     bindR (row_to_task row) (\<lambda>t.
     bindR (validate_deadline_transition (tr_status t)) (\<lambda>_.
     let sequence = next_sequence_with_executor (tr_id t) db;
         db1 = deactivate_lease_for_task_with_executor (tr_id t) db
     in bindR (set_status_with_event (tr_id t) Failed sequence TaskTimedOut (tr_status t) Failed db1)
          (\<lambda>db2. sql_fail_expired_loop rows (failed @ [t\<lparr>tr_status := Failed\<rparr>]) db2)))"

definition sql_fail_expired_deadlines ::
  "int \<Rightarrow> nat option \<Rightarrow> sql_db \<Rightarrow> task_record list sql_result" where
  "sql_fail_expired_deadlines now_ms limit db =
     transaction db (
       bindR (sql_fail_expired_loop (sql_expired_deadlines now_ms limit db) [] db) (\<lambda>(failed, db).
       commit failed db))"

definition sql_stale_leases :: "int \<Rightarrow> nat option \<Rightarrow> sql_db \<Rightarrow> lease_row list" where
  "sql_stale_leases now_ms limit db =
     sql_limit_opt limit (sort_key (\<lambda>r. (ll_expires_at_ms r, ll_task_id r))
       (filter (\<lambda>r. ll_active r \<and> ll_expires_at_ms r \<le> now_ms) (db_leases db)))"

text \<open>\<open>(to_status, should_requeue)\<close> of the recovery loop.\<close>

fun sql_recovery_action :: "task_status \<Rightarrow> task_status \<times> bool" where
  "sql_recovery_action Running = (Pending, True)"
| "sql_recovery_action Pending = (Pending, False)"
| "sql_recovery_action Completed = (Completed, False)"
| "sql_recovery_action Failed = (Failed, False)"

fun recover_sqlite_leases_with_executor ::
  "lease_row list \<Rightarrow> task_record list \<Rightarrow> nat \<Rightarrow> sql_db \<Rightarrow>
   store_error + ((task_record list \<times> nat) \<times> sql_db)" where
  "recover_sqlite_leases_with_executor [] recovered cleaned db = Inr ((recovered, cleaned), db)"
| "recover_sqlite_leases_with_executor (row # rows) recovered cleaned db =
     bindR (row_to_lease row) (\<lambda>lease.
     let tid = lr_task_id lease in
     bindR (fetch_task_optional_with_executor tid db) (\<lambda>fetched.
     let db1 = deactivate_lease_for_task_with_executor tid db in
     case fetched of
       None \<Rightarrow> recover_sqlite_leases_with_executor rows recovered cleaned db1
     | Some t \<Rightarrow>
         let (to_status, should_requeue) = sql_recovery_action (tr_status t);
             db2 = (if to_status \<noteq> tr_status t
                    then update_task_status_with_executor tid to_status db1
                    else touch_task_updated_at_with_executor tid db1);
             sequence = next_sequence_with_executor tid db2
         in bindR (insert_event tid sequence RecoveryAction (Some (tr_status t)) to_status db2) (\<lambda>db3.
            if should_requeue then
              recover_sqlite_leases_with_executor rows (recovered @ [t\<lparr>tr_status := to_status\<rparr>])
                cleaned db3
            else if is_terminal (tr_status t) then
              recover_sqlite_leases_with_executor rows recovered (cleaned + 1) db3
            else recover_sqlite_leases_with_executor rows recovered cleaned db3)))"

fun corrupt_tasks_loop :: "task_row list \<Rightarrow> sql_db \<Rightarrow> store_error + task_id list" where
  "corrupt_tasks_loop [] db = Inr []"
| "corrupt_tasks_loop (row # rows) db =
     bindR (id_of task_id_new (tk_task_id row)) (\<lambda>tid.
     bindR (fetch_task_with_executor tid db) (\<lambda>t.
     bindR (case events_for_task_with_executor tid db of
              Inr evs \<Rightarrow>
                (case replay_task_from_snapshot_and_events t evs of
                   Inl (CorruptEventStream _) \<Rightarrow> Inr True
                 | _ \<Rightarrow> Inr False)
            | Inl (CorruptEventStream _) \<Rightarrow> Inr True
            | Inl error \<Rightarrow> Inl error) (\<lambda>corrupt.
     bindR (corrupt_tasks_loop rows db) (\<lambda>rest.
     Inr (if corrupt then tid # rest else rest)))))"

definition collect_corrupt_sqlite_tasks_with_executor :: "sql_db \<Rightarrow> store_error + task_id list" where
  "collect_corrupt_sqlite_tasks_with_executor db =
     corrupt_tasks_loop (sort_key tk_task_id (db_tasks db)) db"

definition sql_recover_stale_leases ::
  "int \<Rightarrow> nat option \<Rightarrow> sql_db \<Rightarrow> recovery_report sql_result" where
  "sql_recover_stale_leases now_ms limit db =
     transaction db (
       bindR (recover_sqlite_leases_with_executor (sql_stale_leases now_ms limit db) [] 0 db)
         (\<lambda>((recovered, cleaned), db).
       bindR (collect_corrupt_sqlite_tasks_with_executor db) (\<lambda>corrupted.
       commit \<lparr>rr_recovered_tasks = recovered, rr_cleaned_terminal_leases = cleaned,
               rr_corrupted_tasks = corrupted\<rparr> db)))"

section \<open>Operations that record a terminal result\<close>

definition sql_cancel_task_with_result ::
  "task_id \<Rightarrow> lease_id option \<Rightarrow> agent_id option \<Rightarrow> int \<Rightarrow> terminal_result \<Rightarrow> sql_db \<Rightarrow>
   task_record sql_result" where
  "sql_cancel_task_with_result tid lid wid now_ms result db =
     attempt (ensure_result_task result tid) db (\<lambda>_.
     attempt (validate_result result) db (\<lambda>_.
     transaction db (
       bindR (fetch_task_with_executor tid db) (\<lambda>t.
       bindR (if tr_status t = Running then
                bindR (bindR (fetch_active_lease_with_executor tid db)
                         (\<lambda>l. ok_or l (LeaseNotFound tid))) (\<lambda>active.
                bindR (ok_or lid (CancellationLeaseProofRequired tid)) (\<lambda>lid.
                bindR (ok_or wid (CancellationLeaseProofRequired tid)) (\<lambda>wid.
                bindR (ensure_matching_lease_id tid active lid) (\<lambda>_.
                bindR (ensure_matching_worker_id tid active wid) (\<lambda>_.
                ensure_active_lease_unexpired active now_ms)))))
              else Inr ()) (\<lambda>_.
       bindR (map_err from_core_error (validate_cancel_transition (tr_status t))) (\<lambda>transition.
       bindR (fetch_terminal_result_optional tid db) (\<lambda>existing.
       if existing \<noteq> None then Inl (TerminalResultConflict tid)
       else if tm_terminal_status result \<noteq> tt_to transition
         then Inl (TerminalResultNotTerminal tid)
       else
         let sequence = next_sequence_with_executor tid db;
             db1 = deactivate_lease_for_task_with_executor tid db
         in bindR (set_status_with_event tid (tt_to transition) sequence (tt_event_type transition)
                     (tt_from transition) (tt_to transition) db1) (\<lambda>db2.
            bindR (insert_terminal_result_and_outbox result db2) (\<lambda>db3.
            Inr (sql_get_task tid db3, db3))))))))))"

text \<open>The replay of an already recorded result, shared by the complete and the fail operation.\<close>

definition sql_recorded_result ::
  "task_id \<Rightarrow> terminal_result \<Rightarrow> sql_db \<Rightarrow> store_error + task_record option" where
  "sql_recorded_result tid result db =
     bindR (fetch_terminal_result_optional tid db) (\<lambda>existing.
     case existing of
       None \<Rightarrow> Inr None
     | Some stored \<Rightarrow>
         if stored = result then bindR (fetch_task_with_executor tid db) (\<lambda>t. Inr (Some t))
         else Inl (TerminalResultConflict tid))"

definition sql_complete_task_with_result ::
  "task_id \<Rightarrow> lease_id \<Rightarrow> agent_id \<Rightarrow> terminal_result \<Rightarrow> sql_db \<Rightarrow> task_record sql_result" where
  "sql_complete_task_with_result tid lid wid result db =
     attempt (ensure_result_task result tid) db (\<lambda>_.
     transaction db (
       bindR (sql_recorded_result tid result db) (\<lambda>recorded.
       case recorded of
         Some t \<Rightarrow> commit t db
       | None \<Rightarrow>
           bindR (fetch_task_with_executor tid db) (\<lambda>t.
           bindR (finish_task_in_tx tid lid wid Completed (tr_retry_count t) (tr_dead_lettered t)
                    (tr_dead_letter_reason t) db) (\<lambda>(updated, db).
           bindR (insert_terminal_result_and_outbox result db) (\<lambda>db.
           commit updated db))))))"

definition sql_fail_task_with_result ::
  "task_id \<Rightarrow> lease_id \<Rightarrow> agent_id \<Rightarrow> string \<Rightarrow> retry_policy \<Rightarrow> terminal_result \<Rightarrow> sql_db \<Rightarrow>
   task_record sql_result" where
  "sql_fail_task_with_result tid lid wid error_reason policy result db =
     attempt (ensure_result_task result tid) db (\<lambda>_.
     transaction db (
       bindR (sql_recorded_result tid result db) (\<lambda>recorded.
       case recorded of
         Some t \<Rightarrow> commit t db
       | None \<Rightarrow>
           bindR (fetch_owned_task tid lid wid db) (\<lambda>t.
           if max_retries policy \<noteq> 0 \<and> should_retry_after_failure policy (tr_retry_count t) then
             bindR (sqlite_retry_task_in_tx tid t db) (\<lambda>(updated, db). commit updated db)
           else
             bindR (if max_retries policy = 0
                    then finish_task_in_tx tid lid wid Failed (tr_retry_count t) False None db
                    else sqlite_dead_letter_task_in_tx tid t error_reason db) (\<lambda>(updated, db).
             bindR (insert_terminal_result_and_outbox result db) (\<lambda>db.
             commit updated db))))))"

section \<open>Operations as steps\<close>

fun sql_step :: "store_op \<Rightarrow> sql_db \<Rightarrow> (store_error + store_reply) \<times> sql_db" where
  "sql_step (AcceptTask t) db = reply RTask (sql_accept_task t db)"
| "sql_step (AcceptTaskWithEnvelope t env) db = reply RTask (sql_accept_task_with_envelope t env db)"
| "sql_step (AcceptTaskWithContext t env ctx) db =
     reply RTask (sql_accept_task_with_envelope_and_context t env ctx db)"
| "sql_step (PutTransportContext ctx) db = reply RContext (sql_put_transport_context ctx db)"
| "sql_step (LeaseTask tid lease peer) db =
     reply RTask (sql_lease_task_with_peer_guard tid lease peer db)"
| "sql_step (RenewLease tid lid wid now_ms expires) db =
     reply RLease (sql_renew_lease tid lid wid now_ms expires db)"
| "sql_step (CompleteTask tid lid wid) db = reply RTask (sql_complete_task tid lid wid db)"
| "sql_step (FailTask tid lid wid reason policy) db =
     reply RTask (sql_fail_task tid lid wid reason policy db)"
| "sql_step (RetryTask tid lid wid) db = reply RTask (sql_retry_task tid lid wid db)"
| "sql_step (DeadLetterTask tid lid wid reason) db =
     reply RTask (sql_dead_letter_task tid lid wid reason db)"
| "sql_step (CancelTask tid now_ms) db = reply RTask (sql_cancel_task tid now_ms db)"
| "sql_step (TransitionTask tid to) db = reply RTask (sql_transition_task tid to db)"
| "sql_step (AcceptLegacyEvent tid ty) db = reply RTask (sql_accept_legacy_event tid ty db)"
| "sql_step (FailExpiredDeadlines now_ms limit) db =
     reply RTasks (sql_fail_expired_deadlines now_ms limit db)"
| "sql_step (RecoverStaleLeases now_ms limit) db =
     reply RReport (sql_recover_stale_leases now_ms limit db)"
| "sql_step (CancelTaskWithResult tid lid wid now_ms r) db =
     reply RTask (sql_cancel_task_with_result tid lid wid now_ms r db)"
| "sql_step (CompleteTaskWithResult tid lid wid r) db =
     reply RTask (sql_complete_task_with_result tid lid wid r db)"
| "sql_step (FailTaskWithResult tid lid wid reason policy r) db =
     reply RTask (sql_fail_task_with_result tid lid wid reason policy r db)"

end
