(* ===== verification/Mem_Store.thy ===== *)
theory Mem_Store
  imports Store_Types
begin

text \<open>
  \<open>InMemoryStore\<close> of \<open>keryx-store\<close>: the state behind the mutex, and one definition per public
  operation of \<open>lib.rs\<close> and \<open>results.rs\<close>. Every method locks the mutex for its whole body, so an
  operation is a function from a state to a result and a state. An early return keeps the mutations
  done so far, which is visible in \<open>mem_lease_task_with_peer_guard\<close>: a task whose deadline has
  passed is failed and the call still returns an error. A poisoned lock, which needs a panic inside
  a critical section, is not modelled.
\<close>

section \<open>State\<close>

record mem_state =
  ms_tasks :: "(task_id, task_record) fmap"
  ms_events :: "(task_id, task_event_record list) fmap"
  ms_idempotency :: "(idempotency_key, task_id) fmap"
  ms_leases :: "(task_id, lease_record) fmap"
  ms_artifacts :: "(artifact_id, artifact_record) fmap"
  ms_inline_artifacts :: "(artifact_id, bytes) fmap"
  ms_blobs :: "(digest, bytes \<times> u32) fmap"
  ms_envelopes :: "(task_id, task_envelope_record) fmap"
  ms_transport_contexts :: "(task_id, transport_context) fmap"
  ms_terminal_results :: "(task_id, terminal_result) fmap"
  ms_result_outbox :: "(string, result_outbox_record) fmap"

type_synonym 'a mem_result = "(store_error + 'a) \<times> mem_state"

definition mem_init :: mem_state where
  "mem_init = \<lparr>ms_tasks = fmempty, ms_events = fmempty, ms_idempotency = fmempty,
     ms_leases = fmempty, ms_artifacts = fmempty, ms_inline_artifacts = fmempty,
     ms_blobs = fmempty, ms_envelopes = fmempty, ms_transport_contexts = fmempty,
     ms_terminal_results = fmempty, ms_result_outbox = fmempty\<rparr>"

text \<open>The map updates the methods perform on the locked state.\<close>

definition put_task :: "task_id \<Rightarrow> task_record \<Rightarrow> mem_state \<Rightarrow> mem_state" where
  "put_task tid t s = s\<lparr>ms_tasks := fmupd tid t (ms_tasks s)\<rparr>"

definition put_lease :: "task_id \<Rightarrow> lease_record \<Rightarrow> mem_state \<Rightarrow> mem_state" where
  "put_lease tid l s = s\<lparr>ms_leases := fmupd tid l (ms_leases s)\<rparr>"

definition remove_lease :: "task_id \<Rightarrow> mem_state \<Rightarrow> mem_state" where
  "remove_lease tid s = s\<lparr>ms_leases := fmdrop tid (ms_leases s)\<rparr>"

definition put_idempotency :: "idempotency_key option \<Rightarrow> task_id \<Rightarrow> mem_state \<Rightarrow> mem_state" where
  "put_idempotency key tid s =
     (case key of None \<Rightarrow> s | Some k \<Rightarrow> s\<lparr>ms_idempotency := fmupd k tid (ms_idempotency s)\<rparr>)"

definition put_envelope :: "task_id \<Rightarrow> task_envelope_record \<Rightarrow> mem_state \<Rightarrow> mem_state" where
  "put_envelope tid e s = s\<lparr>ms_envelopes := fmupd tid e (ms_envelopes s)\<rparr>"

definition put_context :: "task_id \<Rightarrow> transport_context \<Rightarrow> mem_state \<Rightarrow> mem_state" where
  "put_context tid c s = s\<lparr>ms_transport_contexts := fmupd tid c (ms_transport_contexts s)\<rparr>"

text \<open>The tail of the operations that store a terminal result: the outbox row, then the result.\<close>

definition put_result :: "task_id \<Rightarrow> terminal_result \<Rightarrow> mem_state \<Rightarrow> mem_state" where
  "put_result tid r s =
     (let s = (case make_outbox r of
                 None \<Rightarrow> s
               | Some ob \<Rightarrow> s\<lparr>ms_result_outbox := fmupd (ob_delivery_id ob) ob (ms_result_outbox s)\<rparr>)
      in s\<lparr>ms_terminal_results := fmupd tid r (ms_terminal_results s)\<rparr>)"

definition append_in_memory_event ::
  "task_id \<Rightarrow> event_type \<Rightarrow> task_status option \<Rightarrow> task_status \<Rightarrow> mem_state \<Rightarrow> mem_state" where
  "append_in_memory_event tid ty from to s =
     (let sequence = (case fmlookup (ms_events s) tid of None \<Rightarrow> 1 | Some evs \<Rightarrow> length evs + 1);
          old = (case fmlookup (ms_events s) tid of None \<Rightarrow> [] | Some evs \<Rightarrow> evs);
          ev = \<lparr>ev_task_id = tid, ev_sequence = sequence, ev_event_type = ty,
                ev_from_status = from, ev_to_status = to\<rparr>
      in s\<lparr>ms_events := fmupd tid (old @ [ev]) (ms_events s)\<rparr>)"

text \<open>\<open>state.tasks.get(task_id).cloned().ok_or_else(...)\<close> and its lease counterpart.\<close>

definition find_task :: "mem_state \<Rightarrow> task_id \<Rightarrow> store_error + task_record" where
  "find_task s tid = ok_or (fmlookup (ms_tasks s) tid) (TaskNotFound tid)"

definition find_lease :: "mem_state \<Rightarrow> task_id \<Rightarrow> store_error + lease_record" where
  "find_lease s tid = ok_or (fmlookup (ms_leases s) tid) (LeaseNotFound tid)"

section \<open>Acceptance\<close>

definition mem_accept_task :: "task_record \<Rightarrow> mem_state \<Rightarrow> task_record mem_result" where
  "mem_accept_task t s =
     attempt (ensure_pending_accept t) s (\<lambda>_.
     case Option.bind (tr_idempotency_key t) (fmlookup (ms_idempotency s)) of
       Some existing_tid \<Rightarrow>
         attempt (ok_or (fmlookup (ms_tasks s) existing_tid) (CorruptEventStream existing_tid)) s
           (\<lambda>existing.
           if existing = t then (Inr existing, s)
           else (Inl (IdempotencyConflict (the (tr_idempotency_key t)) existing_tid), s))
     | None \<Rightarrow>
         if fmlookup (ms_tasks s) (tr_id t) \<noteq> None then (Inl (TaskAlreadyExists (tr_id t)), s)
         else
           let s1 = put_idempotency (tr_idempotency_key t) (tr_id t) s;
               s2 = append_in_memory_event (tr_id t) TaskAccepted None (tr_status t) s1
           in (Inr t, put_task (tr_id t) t s2))"

definition mem_accept_task_with_envelope ::
  "task_record \<Rightarrow> task_envelope_record \<Rightarrow> mem_state \<Rightarrow> task_record mem_result" where
  "mem_accept_task_with_envelope t env s =
     attempt (validate_accepted_task_status t) s (\<lambda>_.
     attempt (ensure_pending_accept t) s (\<lambda>_.
     attempt (ensure_matching_envelope_task_id t env) s (\<lambda>_.
     case Option.bind (tr_idempotency_key t) (fmlookup (ms_idempotency s)) of
       Some existing_tid \<Rightarrow>
         attempt (ok_or (fmlookup (ms_tasks s) existing_tid) (CorruptEventStream existing_tid)) s
           (\<lambda>existing.
           if existing = t then
             (if fmlookup (ms_envelopes s) existing_tid = Some env then (Inr existing, s)
              else (Inl (TaskEnvelopeConflict existing_tid), s))
           else (Inl (IdempotencyConflict (the (tr_idempotency_key t)) existing_tid), s))
     | None \<Rightarrow>
         if fmlookup (ms_tasks s) (tr_id t) \<noteq> None then (Inl (TaskAlreadyExists (tr_id t)), s)
         else
           let s1 = put_idempotency (tr_idempotency_key t) (tr_id t) s;
               s2 = append_in_memory_event (tr_id t) TaskAccepted None (tr_status t) s1;
               s3 = put_task (tr_id t) t s2
           in (Inr t, put_envelope (tr_id t) env s3))))"

definition mem_accept_task_with_envelope_and_context ::
  "task_record \<Rightarrow> task_envelope_record \<Rightarrow> transport_context \<Rightarrow> mem_state \<Rightarrow> task_record mem_result"
where
  "mem_accept_task_with_envelope_and_context t env ctx s =
     attempt (validate_accepted_task_status t) s (\<lambda>_.
     attempt (ensure_pending_accept t) s (\<lambda>_.
     attempt (ensure_matching_envelope_task_id t env) s (\<lambda>_.
     attempt (ensure_context_task ctx (tr_id t)) s (\<lambda>_.
     case fmlookup (ms_tasks s) (tr_id t) of
       Some existing \<Rightarrow>
         if existing = t
            \<and> (case fmlookup (ms_envelopes s) (tr_id t) of
                 None \<Rightarrow> False | Some stored \<Rightarrow> same_delivered_envelope stored env)
            \<and> (case fmlookup (ms_transport_contexts s) (tr_id t) of
                 None \<Rightarrow> False | Some stored \<Rightarrow> same_transport_identity stored ctx)
         then
           (if (case fmlookup (ms_transport_contexts s) (tr_id t) of
                  None \<Rightarrow> False | Some stored \<Rightarrow> tc_relay_frame_id stored \<noteq> tc_relay_frame_id ctx)
            then (Inr existing, put_context (tr_id t) ctx s)
            else (Inr existing, s))
         else (Inl (TransportContextConflict (tr_id t)), s)
     | None \<Rightarrow>
         (case Option.bind (tr_idempotency_key t) (fmlookup (ms_idempotency s)) of
            Some existing_tid \<Rightarrow>
              (Inl (IdempotencyConflict (the (tr_idempotency_key t)) existing_tid), s)
          | None \<Rightarrow>
              let s1 = put_idempotency (tr_idempotency_key t) (tr_id t) s;
                  s2 = append_in_memory_event (tr_id t) TaskAccepted None (tr_status t) s1;
                  s3 = put_task (tr_id t) t s2;
                  s4 = put_envelope (tr_id t) env s3
              in (Inr t, put_context (tr_id t) ctx s4))))))"

definition mem_put_transport_context ::
  "transport_context \<Rightarrow> mem_state \<Rightarrow> transport_context mem_result" where
  "mem_put_transport_context ctx s =
     (if fmlookup (ms_tasks s) (tc_task_id ctx) = None then (Inl (TaskNotFound (tc_task_id ctx)), s)
      else case fmlookup (ms_transport_contexts s) (tc_task_id ctx) of
        Some existing \<Rightarrow>
          if existing = ctx then (Inr existing, s)
          else (Inl (TransportContextConflict (tc_task_id ctx)), s)
      | None \<Rightarrow> (Inr ctx, put_context (tc_task_id ctx) ctx s))"

section \<open>Queries\<close>

definition mem_get_task :: "task_id \<Rightarrow> mem_state \<Rightarrow> store_error + task_record" where
  "mem_get_task tid s = ok_or (fmlookup (ms_tasks s) tid) (TaskNotFound tid)"

definition mem_get_task_envelope :: "task_id \<Rightarrow> mem_state \<Rightarrow> store_error + task_envelope_record" where
  "mem_get_task_envelope tid s = ok_or (fmlookup (ms_envelopes s) tid) (TaskEnvelopeNotFound tid)"

definition mem_get_transport_context :: "task_id \<Rightarrow> mem_state \<Rightarrow> store_error + transport_context" where
  "mem_get_transport_context tid s =
     ok_or (fmlookup (ms_transport_contexts s) tid) (TransportContextNotFound tid)"

definition mem_get_terminal_result :: "task_id \<Rightarrow> mem_state \<Rightarrow> store_error + terminal_result" where
  "mem_get_terminal_result tid s =
     ok_or (fmlookup (ms_terminal_results s) tid) (TerminalResultNotFound tid)"

definition mem_active_lease :: "task_id \<Rightarrow> mem_state \<Rightarrow> store_error + lease_record option" where
  "mem_active_lease tid s = Inr (fmlookup (ms_leases s) tid)"

definition mem_count_tasks_by_status :: "task_status \<Rightarrow> mem_state \<Rightarrow> store_error + nat" where
  "mem_count_tasks_by_status status s =
     Inr (length (filter (\<lambda>t. tr_status t = status) (fmvalues (ms_tasks s))))"

text \<open>The pending tasks that have an envelope, in arrival order with the task id as tie-break.\<close>

definition with_envelope :: "mem_state \<Rightarrow> task_record \<Rightarrow> pending_task_envelope option" where
  "with_envelope s t =
     map_option (\<lambda>env. \<lparr>pe_task = t, pe_envelope = env\<rparr>) (fmlookup (ms_envelopes s) (tr_id t))"

definition arrival_key :: "pending_task_envelope \<Rightarrow> int \<times> string" where
  "arrival_key p = (er_received_at_ms (pe_envelope p), tr_id (pe_task p))"

definition mem_pending_task_envelopes ::
  "nat \<Rightarrow> mem_state \<Rightarrow> store_error + pending_task_envelope list" where
  "mem_pending_task_envelopes limit s =
     (if limit = 0 then Inr []
      else Inr (take limit (sort_key arrival_key (List.map_filter (with_envelope s)
             (filter (\<lambda>t. tr_status t = Pending) (fmvalues (ms_tasks s)))))))"

definition executor_matches :: "mem_state \<Rightarrow> peer_id \<Rightarrow> task_record \<Rightarrow> bool" where
  "executor_matches s local_peer t =
     (case Option.bind (fmlookup (ms_transport_contexts s) (tr_id t)) tc_expected_executor_peer_id of
        Some expected \<Rightarrow> expected = local_peer
      | None \<Rightarrow> True)"

definition mem_claimable_pending_task_envelopes ::
  "peer_id \<Rightarrow> nat \<Rightarrow> mem_state \<Rightarrow> store_error + pending_task_envelope list" where
  "mem_claimable_pending_task_envelopes local_peer limit s =
     (if limit = 0 then Inr []
      else Inr (take limit (sort_key arrival_key (List.map_filter (with_envelope s)
             (filter (executor_matches s local_peer)
               (filter (\<lambda>t. tr_status t = Pending) (fmvalues (ms_tasks s))))))))"

definition mem_events_for_task :: "task_id \<Rightarrow> mem_state \<Rightarrow> store_error + task_event_record list" where
  "mem_events_for_task tid s =
     (case fmlookup (ms_events s) tid of
        Some evs \<Rightarrow> Inr evs
      | None \<Rightarrow>
          if fmlookup (ms_tasks s) tid \<noteq> None then Inl (CorruptEventStream tid)
          else Inl (TaskNotFound tid))"

definition mem_replay_task :: "task_id \<Rightarrow> mem_state \<Rightarrow> store_error + task_record" where
  "mem_replay_task tid s =
     bindR (ok_or (fmlookup (ms_tasks s) tid) (TaskNotFound tid)) (\<lambda>snapshot.
     bindR (ok_or (fmlookup (ms_events s) tid) (CorruptEventStream tid)) (\<lambda>evs.
     replay_task_from_snapshot_and_events snapshot evs))"

definition collect_corrupt_in_memory_tasks :: "mem_state \<Rightarrow> task_id list" where
  "collect_corrupt_in_memory_tasks s =
     filter (\<lambda>tid.
       case fmlookup (ms_tasks s) tid of
         None \<Rightarrow> False
       | Some t \<Rightarrow>
           (case fmlookup (ms_events s) tid of
              None \<Rightarrow> True
            | Some evs \<Rightarrow>
                (case replay_task_from_snapshot_and_events t evs of
                   Inl (CorruptEventStream _) \<Rightarrow> True
                 | _ \<Rightarrow> False)))
       (fmkeys (ms_tasks s))"

definition mem_result_delivery_for_task ::
  "task_id \<Rightarrow> mem_state \<Rightarrow> store_error + result_outbox_record option" where
  "mem_result_delivery_for_task tid s =
     Inr (find (\<lambda>row. ob_task_id row = tid) (fmvalues (ms_result_outbox s)))"

definition mem_pending_result_deliveries ::
  "nat \<Rightarrow> mem_state \<Rightarrow> store_error + result_outbox_record list" where
  "mem_pending_result_deliveries limit s =
     Inr (take limit (sort_key (\<lambda>row. (ob_next_attempt_at_ms row, ob_delivery_id row))
       (filter (\<lambda>row. ob_state row = DPending) (fmvalues (ms_result_outbox s)))))"

section \<open>Leases and completion\<close>

definition check_executor ::
  "mem_state \<Rightarrow> task_id \<Rightarrow> peer_id option \<Rightarrow> store_error + unit" where
  "check_executor s tid local_peer =
     (case local_peer of
        None \<Rightarrow> Inr ()
      | Some actual \<Rightarrow>
          (case Option.bind (fmlookup (ms_transport_contexts s) tid) tc_expected_executor_peer_id of
             None \<Rightarrow> Inr ()
           | Some expected \<Rightarrow> ensure (expected = actual) (TaskExecutorMismatch tid expected actual)))"

text \<open>The tail of \<open>lease_task_with_peer_guard\<close>, after the deadline check.\<close>

definition mem_lease_start ::
  "task_id \<Rightarrow> lease_record \<Rightarrow> task_record \<Rightarrow> mem_state \<Rightarrow> task_record mem_result" where
  "mem_lease_start tid lease t s =
     attempt (map_err from_core_error (validate_transition (tr_status t) Running)) s (\<lambda>transition.
     let updated = t\<lparr>tr_status := Running\<rparr>;
         s1 = put_lease tid lease s;
         s2 = append_in_memory_event tid (tt_event_type transition) (Some (tt_from transition))
                (tt_to transition) s1
     in (Inr updated, put_task tid updated s2))"

definition mem_lease_task_with_peer_guard ::
  "task_id \<Rightarrow> lease_record \<Rightarrow> peer_id option \<Rightarrow> mem_state \<Rightarrow> task_record mem_result" where
  "mem_lease_task_with_peer_guard tid lease local_peer s =
     attempt (check_executor s tid local_peer) s (\<lambda>_.
     attempt (ensure_matching_task_id tid lease) s (\<lambda>_.
     attempt (ensure_lease_has_owner lease) s (\<lambda>_.
     attempt (find_task s tid) s (\<lambda>t.
     if fmlookup (ms_leases s) tid \<noteq> None then (Inl (LeaseConflict tid), s)
     else case tr_deadline_ms t of
       Some deadline \<Rightarrow>
         if deadline \<le> lr_leased_at_ms lease then
           attempt (validate_deadline_transition (tr_status t)) s (\<lambda>_.
           let failed = t\<lparr>tr_status := Failed\<rparr>;
               s1 = append_in_memory_event tid TaskTimedOut (Some (tr_status t)) Failed s
           in (Inl (TaskDeadlineExpired tid deadline (lr_leased_at_ms lease)), put_task tid failed s1))
         else mem_lease_start tid lease t s
     | None \<Rightarrow> mem_lease_start tid lease t s))))"

definition mem_lease_task :: "task_id \<Rightarrow> lease_record \<Rightarrow> mem_state \<Rightarrow> task_record mem_result" where
  "mem_lease_task tid lease s = mem_lease_task_with_peer_guard tid lease None s"

definition mem_lease_task_for_peer ::
  "task_id \<Rightarrow> lease_record \<Rightarrow> peer_id \<Rightarrow> mem_state \<Rightarrow> task_record mem_result" where
  "mem_lease_task_for_peer tid lease local_peer s =
     mem_lease_task_with_peer_guard tid lease (Some local_peer) s"

definition mem_renew_lease ::
  "task_id \<Rightarrow> lease_id \<Rightarrow> agent_id \<Rightarrow> int \<Rightarrow> int \<Rightarrow> mem_state \<Rightarrow> lease_record mem_result" where
  "mem_renew_lease tid lid wid now_ms new_expires_at_ms s =
     attempt (find_task s tid) s (\<lambda>t.
     attempt (require_status (tr_status t) Running) s (\<lambda>_.
     attempt (find_lease s tid) s (\<lambda>active.
     attempt (ensure_matching_lease_id tid active lid) s (\<lambda>_.
     attempt (ensure_matching_worker_id tid active wid) s (\<lambda>_.
     attempt (ensure_valid_lease_expiry active now_ms new_expires_at_ms) s (\<lambda>_.
     let active' = active\<lparr>lr_expires_at_ms := new_expires_at_ms\<rparr>
     in (Inr active', put_lease tid active' s)))))))"

definition finish_task_in_state ::
  "task_id \<Rightarrow> lease_id \<Rightarrow> agent_id \<Rightarrow> task_status \<Rightarrow> u32 \<Rightarrow> bool \<Rightarrow> string option \<Rightarrow>
   mem_state \<Rightarrow> task_record mem_result" where
  "finish_task_in_state tid lid wid to retry_count dl reason s =
     attempt (find_task s tid) s (\<lambda>t.
     attempt (find_lease s tid) s (\<lambda>active.
     attempt (ensure_matching_lease_id tid active lid) s (\<lambda>_.
     attempt (ensure_matching_worker_id tid active wid) s (\<lambda>_.
     attempt (map_err from_core_error (validate_transition (tr_status t) to)) s (\<lambda>transition.
     let updated = t\<lparr>tr_status := to, tr_retry_count := retry_count, tr_dead_lettered := dl,
                     tr_dead_letter_reason := reason\<rparr>;
         s1 = remove_lease tid s;
         s2 = append_in_memory_event tid (tt_event_type transition) (Some (tt_from transition))
                (tt_to transition) s1
     in (Inr updated, put_task tid updated s2))))))"

definition mem_finish_task ::
  "task_id \<Rightarrow> lease_id \<Rightarrow> agent_id \<Rightarrow> task_status \<Rightarrow> mem_state \<Rightarrow> task_record mem_result" where
  "mem_finish_task tid lid wid to s =
     attempt (find_task s tid) s (\<lambda>t.
     finish_task_in_state tid lid wid to (tr_retry_count t) (tr_dead_lettered t)
       (tr_dead_letter_reason t) s)"

definition mem_complete_task ::
  "task_id \<Rightarrow> lease_id \<Rightarrow> agent_id \<Rightarrow> mem_state \<Rightarrow> task_record mem_result" where
  "mem_complete_task tid lid wid s = mem_finish_task tid lid wid Completed s"

definition retry_task_in_state ::
  "task_id \<Rightarrow> lease_record \<Rightarrow> task_record \<Rightarrow> mem_state \<Rightarrow> task_record mem_result" where
  "retry_task_in_state tid active t s =
     attempt (ensure_matching_lease_id tid active (lr_lease_id active)) s (\<lambda>_.
     attempt (require_status (tr_status t) Running) s (\<lambda>_.
     let t' = t\<lparr>tr_retry_count := sat_add (tr_retry_count t) 1, tr_status := Pending\<rparr>;
         s1 = remove_lease tid s;
         s2 = append_in_memory_event tid RecoveryAction (Some Running) Pending s1
     in (Inr t', put_task tid t' s2)))"

definition dead_letter_task_in_state ::
  "task_id \<Rightarrow> lease_record \<Rightarrow> task_record \<Rightarrow> string \<Rightarrow> mem_state \<Rightarrow> task_record mem_result" where
  "dead_letter_task_in_state tid active t reason s =
     attempt (ensure_matching_lease_id tid active (lr_lease_id active)) s (\<lambda>_.
     attempt (require_status (tr_status t) Running) s (\<lambda>_.
     attempt (map_err from_core_error (validate_transition (tr_status t) Failed)) s (\<lambda>transition.
     let t' = t\<lparr>tr_retry_count := sat_add (tr_retry_count t) 1, tr_dead_lettered := True,
                tr_dead_letter_reason := Some reason, tr_status := Failed\<rparr>;
         s1 = remove_lease tid s;
         s2 = append_in_memory_event tid TaskDeadLettered (Some (tt_from transition))
                (tt_to transition) s1
     in (Inr t', put_task tid t' s2))))"

definition mem_fail_task ::
  "task_id \<Rightarrow> lease_id \<Rightarrow> agent_id \<Rightarrow> string \<Rightarrow> retry_policy \<Rightarrow> mem_state \<Rightarrow> task_record mem_result"
where
  "mem_fail_task tid lid wid error_reason policy s =
     attempt (find_task s tid) s (\<lambda>t.
     attempt (find_lease s tid) s (\<lambda>active.
     attempt (ensure_matching_lease_id tid active lid) s (\<lambda>_.
     attempt (ensure_matching_worker_id tid active wid) s (\<lambda>_.
     attempt (require_status (tr_status t) Running) s (\<lambda>_.
     if max_retries policy = 0 then
       finish_task_in_state tid lid wid Failed (tr_retry_count t) False None s
     else if should_retry_after_failure policy (tr_retry_count t) then
       retry_task_in_state tid active t s
     else dead_letter_task_in_state tid active t error_reason s)))))"

definition mem_retry_task ::
  "task_id \<Rightarrow> lease_id \<Rightarrow> agent_id \<Rightarrow> mem_state \<Rightarrow> task_record mem_result" where
  "mem_retry_task tid lid wid s =
     attempt (find_task s tid) s (\<lambda>t.
     attempt (find_lease s tid) s (\<lambda>active.
     attempt (ensure_matching_lease_id tid active lid) s (\<lambda>_.
     attempt (ensure_matching_worker_id tid active wid) s (\<lambda>_.
     retry_task_in_state tid active t s))))"

definition mem_dead_letter_task ::
  "task_id \<Rightarrow> lease_id \<Rightarrow> agent_id \<Rightarrow> string \<Rightarrow> mem_state \<Rightarrow> task_record mem_result" where
  "mem_dead_letter_task tid lid wid reason s =
     attempt (find_task s tid) s (\<lambda>t.
     attempt (find_lease s tid) s (\<lambda>active.
     attempt (ensure_matching_lease_id tid active lid) s (\<lambda>_.
     attempt (ensure_matching_worker_id tid active wid) s (\<lambda>_.
     dead_letter_task_in_state tid active t reason s))))"

section \<open>Cancellation, transitions and legacy events\<close>

definition mem_cancel_task :: "task_id \<Rightarrow> int \<Rightarrow> mem_state \<Rightarrow> task_record mem_result" where
  "mem_cancel_task tid now_ms s =
     attempt (find_task s tid) s (\<lambda>t.
     if is_terminal (tr_status t) then (Inr t, s)
     else
       attempt (if tr_status t = Running
                then bindR (find_lease s tid) (\<lambda>active. ensure_active_lease_unexpired active now_ms)
                else Inr ()) s (\<lambda>_.
       attempt (map_err from_core_error (validate_cancel_transition (tr_status t))) s (\<lambda>transition.
       let updated = t\<lparr>tr_status := tt_to transition\<rparr>;
           s1 = remove_lease tid s;
           s2 = append_in_memory_event tid (tt_event_type transition) (Some (tt_from transition))
                  (tt_to transition) s1
       in (Inr updated, put_task tid updated s2))))"

definition mem_transition_task :: "task_id \<Rightarrow> task_status \<Rightarrow> mem_state \<Rightarrow> task_record mem_result" where
  "mem_transition_task tid to s =
     attempt (find_task s tid) s (\<lambda>t.
     attempt (map_err from_core_error (validate_transition (tr_status t) to)) s (\<lambda>transition.
     let updated = t\<lparr>tr_status := to\<rparr>;
         s1 = (if is_terminal to then remove_lease tid s else s);
         s2 = append_in_memory_event tid (tt_event_type transition) (Some (tt_from transition))
                (tt_to transition) s1
     in (Inr updated, put_task tid updated s2)))"

definition mem_accept_legacy_event ::
  "task_id \<Rightarrow> event_type \<Rightarrow> mem_state \<Rightarrow> task_record mem_result" where
  "mem_accept_legacy_event tid ty s =
     attempt (ok_or (from_keryx_event_type ty)
                (Validation (InvalidTaskTransition Pending Pending))) s (\<lambda>legacy.
     attempt (find_task s tid) s (\<lambda>t.
     attempt (plan_legacy_event_append (tr_status t) legacy) s (\<lambda>plan.
     case plan of
       Lifecycle transition \<Rightarrow>
         let updated = t\<lparr>tr_status := tt_to transition\<rparr>;
             s1 = (if is_terminal (tt_to transition) then remove_lease tid s else s);
             s2 = append_in_memory_event tid (tt_event_type transition) (Some (tt_from transition))
                    (tt_to transition) s1
         in (Inr updated, put_task tid updated s2)
     | Operational preserved status \<Rightarrow>
         (Inr t, append_in_memory_event tid preserved (Some status) status s))))"

section \<open>Deadlines and stale leases\<close>

definition expired_deadline :: "int \<Rightarrow> task_record \<Rightarrow> (int \<times> task_id) option" where
  "expired_deadline now_ms t =
     (case tr_deadline_ms t of
        Some d \<Rightarrow> if d \<le> now_ms then Some (d, tr_id t) else None
      | None \<Rightarrow> None)"

definition truncate_to :: "nat option \<Rightarrow> 'a list \<Rightarrow> 'a list" where
  "truncate_to limit xs = (case limit of None \<Rightarrow> xs | Some n \<Rightarrow> take n xs)"

definition mem_expired_deadlines :: "int \<Rightarrow> nat option \<Rightarrow> mem_state \<Rightarrow> (int \<times> task_id) list" where
  "mem_expired_deadlines now_ms limit s =
     truncate_to limit (sort (List.map_filter (expired_deadline now_ms)
       (filter (\<lambda>t. tr_status t = Pending \<or> tr_status t = Running) (fmvalues (ms_tasks s)))))"

fun mem_fail_expired_loop ::
  "(int \<times> task_id) list \<Rightarrow> task_record list \<Rightarrow> mem_state \<Rightarrow> task_record list mem_result" where
  "mem_fail_expired_loop [] failed s = (Inr failed, s)"
| "mem_fail_expired_loop ((_, tid) # expired) failed s =
     attempt (find_task s tid) s (\<lambda>t.
     attempt (validate_deadline_transition (tr_status t)) s (\<lambda>_.
     let updated = t\<lparr>tr_status := Failed\<rparr>;
         s1 = remove_lease tid s;
         s2 = append_in_memory_event tid TaskTimedOut (Some (tr_status t)) Failed s1
     in mem_fail_expired_loop expired (failed @ [updated]) (put_task tid updated s2)))"

definition mem_fail_expired_deadlines ::
  "int \<Rightarrow> nat option \<Rightarrow> mem_state \<Rightarrow> task_record list mem_result" where
  "mem_fail_expired_deadlines now_ms limit s =
     mem_fail_expired_loop (mem_expired_deadlines now_ms limit s) [] s"

definition mem_stale_leases :: "int \<Rightarrow> nat option \<Rightarrow> mem_state \<Rightarrow> lease_record list" where
  "mem_stale_leases now_ms limit s =
     truncate_to limit (sort_key (\<lambda>l. (lr_expires_at_ms l, lr_task_id l))
       (filter (\<lambda>l. lr_expires_at_ms l \<le> now_ms) (fmvalues (ms_leases s))))"

text \<open>\<open>(to_status, should_requeue)\<close> of the recovery loop.\<close>

fun recovery_action :: "task_status \<Rightarrow> task_status \<times> bool" where
  "recovery_action Running = (Pending, True)"
| "recovery_action Pending = (Pending, False)"
| "recovery_action Completed = (Completed, False)"
| "recovery_action Failed = (Failed, False)"

fun mem_recover_loop ::
  "lease_record list \<Rightarrow> task_record list \<Rightarrow> nat \<Rightarrow> mem_state \<Rightarrow> (task_record list \<times> nat) \<times> mem_state"
where
  "mem_recover_loop [] recovered cleaned s = ((recovered, cleaned), s)"
| "mem_recover_loop (lease # leases) recovered cleaned s =
     (let tid = lr_task_id lease; s1 = remove_lease tid s in
      case fmlookup (ms_tasks s1) tid of
        None \<Rightarrow> mem_recover_loop leases recovered cleaned s1
      | Some t \<Rightarrow>
          let (to_status, should_requeue) = recovery_action (tr_status t);
              updated = t\<lparr>tr_status := to_status\<rparr>;
              s2 = append_in_memory_event tid RecoveryAction (Some (tr_status t)) to_status s1;
              s3 = put_task tid updated s2
          in if should_requeue then mem_recover_loop leases (recovered @ [updated]) cleaned s3
             else if is_terminal (tr_status t) then mem_recover_loop leases recovered (cleaned + 1) s3
             else mem_recover_loop leases recovered cleaned s3)"

definition mem_recover_stale_leases ::
  "int \<Rightarrow> nat option \<Rightarrow> mem_state \<Rightarrow> recovery_report mem_result" where
  "mem_recover_stale_leases now_ms limit s =
     (let ((recovered, cleaned), s') = mem_recover_loop (mem_stale_leases now_ms limit s) [] 0 s
      in (Inr \<lparr>rr_recovered_tasks = recovered, rr_cleaned_terminal_leases = cleaned,
               rr_corrupted_tasks = collect_corrupt_in_memory_tasks s'\<rparr>, s'))"

section \<open>Operations that record a terminal result\<close>

definition mem_cancel_task_with_result ::
  "task_id \<Rightarrow> lease_id option \<Rightarrow> agent_id option \<Rightarrow> int \<Rightarrow> terminal_result \<Rightarrow> mem_state \<Rightarrow>
   task_record mem_result" where
  "mem_cancel_task_with_result tid lid wid now_ms result s =
     attempt (ensure_result_task result tid) s (\<lambda>_.
     attempt (validate_result result) s (\<lambda>_.
     attempt (find_task s tid) s (\<lambda>t.
     attempt (if tr_status t = Running then
                bindR (find_lease s tid) (\<lambda>active.
                bindR (ok_or lid (CancellationLeaseProofRequired tid)) (\<lambda>lid.
                bindR (ok_or wid (CancellationLeaseProofRequired tid)) (\<lambda>wid.
                bindR (ensure_matching_lease_id tid active lid) (\<lambda>_.
                bindR (ensure_matching_worker_id tid active wid) (\<lambda>_.
                ensure_active_lease_unexpired active now_ms)))))
              else Inr ()) s (\<lambda>_.
     attempt (map_err from_core_error (validate_cancel_transition (tr_status t))) s (\<lambda>transition.
     if fmlookup (ms_terminal_results s) tid \<noteq> None then (Inl (TerminalResultConflict tid), s)
     else if tm_terminal_status result \<noteq> tt_to transition
       then (Inl (TerminalResultNotTerminal tid), s)
     else
       let updated = t\<lparr>tr_status := tt_to transition\<rparr>;
           s1 = remove_lease tid s;
           s2 = append_in_memory_event tid (tt_event_type transition) (Some (tt_from transition))
                  (tt_to transition) s1;
           s3 = put_task tid updated s2
       in (Inr updated, put_result tid result s3))))))"

text \<open>The replay of an already recorded result, shared by the complete and the fail operation.\<close>

definition mem_recorded_result ::
  "task_id \<Rightarrow> terminal_result \<Rightarrow> mem_state \<Rightarrow> (store_error + task_record) option" where
  "mem_recorded_result tid result s =
     (case fmlookup (ms_terminal_results s) tid of
        None \<Rightarrow> None
      | Some existing \<Rightarrow>
          Some (if existing = result then find_task s tid else Inl (TerminalResultConflict tid)))"

definition mem_complete_task_with_result ::
  "task_id \<Rightarrow> lease_id \<Rightarrow> agent_id \<Rightarrow> terminal_result \<Rightarrow> mem_state \<Rightarrow> task_record mem_result" where
  "mem_complete_task_with_result tid lid wid result s =
     attempt (ensure_result_task result tid) s (\<lambda>_.
     case mem_recorded_result tid result s of
       Some r \<Rightarrow> (r, s)
     | None \<Rightarrow>
         attempt (find_task s tid) s (\<lambda>t.
         case finish_task_in_state tid lid wid Completed (tr_retry_count t) (tr_dead_lettered t)
                (tr_dead_letter_reason t) s of
           (Inl e, s') \<Rightarrow> (Inl e, s')
         | (Inr updated, s') \<Rightarrow> (Inr updated, put_result tid result s')))"

definition mem_fail_task_with_result ::
  "task_id \<Rightarrow> lease_id \<Rightarrow> agent_id \<Rightarrow> string \<Rightarrow> retry_policy \<Rightarrow> terminal_result \<Rightarrow> mem_state \<Rightarrow>
   task_record mem_result" where
  "mem_fail_task_with_result tid lid wid error_reason policy result s =
     attempt (ensure_result_task result tid) s (\<lambda>_.
     case mem_recorded_result tid result s of
       Some r \<Rightarrow> (r, s)
     | None \<Rightarrow>
         attempt (find_task s tid) s (\<lambda>t.
         attempt (find_lease s tid) s (\<lambda>active.
         attempt (ensure_matching_lease_id tid active lid) s (\<lambda>_.
         attempt (ensure_matching_worker_id tid active wid) s (\<lambda>_.
         if max_retries policy \<noteq> 0 \<and> should_retry_after_failure policy (tr_retry_count t)
         then retry_task_in_state tid active t s
         else
           case (if max_retries policy = 0
                 then finish_task_in_state tid lid wid Failed (tr_retry_count t) False None s
                 else dead_letter_task_in_state tid active t error_reason s) of
             (Inl e, s') \<Rightarrow> (Inl e, s')
           | (Inr updated, s') \<Rightarrow> (Inr updated, put_result tid result s'))))))"

end
