(* ===== verification/Artifact_Store.thy ===== *)
theory Artifact_Store
  imports Sql_Store Mem_Store
begin

text \<open>
  The artifact store of \<open>lib.rs\<close>, for the in-memory and for the SQLite backend. Small artifacts are
  kept inline; larger ones are content-addressed files in the blob directory with a reference count.
  The blob directory is a map from file names, which are digests, to contents; its operations fail
  only the way the functions of \<open>std::fs\<close> fail on missing and on existing files. SHA-256 is a
  parameter.
\<close>

section \<open>Files and records\<close>

type_synonym blob_dir = "(string, bytes) fmap"

definition os_not_found :: string where
  "os_not_found = ''No such file or directory (os error 2)''"

definition os_already_exists :: string where
  "os_already_exists = ''File exists (os error 17)''"

definition is_not_found_message :: "string \<Rightarrow> bool" where
  "is_not_found_message message \<longleftrightarrow>
     contains message ''No such file or directory'' \<or> contains message ''os error 2''"

fun show_nat :: "nat \<Rightarrow> string" where
  "show_nat n = (if n < 10 then [] else show_nat (n div 10)) @ [char_of (n mod 10 + 48)]"

declare show_nat.simps [simp del]

definition read_blob_file :: "string \<Rightarrow> blob_dir \<Rightarrow> store_error + bytes" where
  "read_blob_file path fs = ok_or (fmlookup fs path) (Database os_not_found)"

definition write_new_blob_file :: "string \<Rightarrow> bytes \<Rightarrow> blob_dir \<Rightarrow> store_error + blob_dir" where
  "write_new_blob_file path content fs =
     bindR (ensure (fmlookup fs path = None) (Database os_already_exists)) (\<lambda>_. Inr (fmupd path content fs))"

definition remove_blob_file_if_present :: "string \<Rightarrow> blob_dir \<Rightarrow> blob_dir" where
  "remove_blob_file_if_present path fs = fmdrop path fs"

definition read_verified_blob ::
  "(bytes \<Rightarrow> bytes) \<Rightarrow> digest \<Rightarrow> nat \<Rightarrow> blob_dir \<Rightarrow> store_error + bytes" where
  "read_verified_blob sha256 digest byte_len fs =
     bindR (read_blob_file digest fs) (\<lambda>content.
     bindR (ensure (length content = byte_len)
       (Database (''blob '' @ digest @ '' has byte length '' @ show_nat (length content) @
          '', expected '' @ show_nat byte_len))) (\<lambda>_.
     bindR (ensure (digest_compute sha256 content = digest)
       (DigestMismatch digest (digest_compute sha256 content))) (\<lambda>_.
     Inr content)))"

definition artifact_record_from_meta :: "artifact_meta \<Rightarrow> digest \<Rightarrow> nat \<Rightarrow> artifact_record" where
  "artifact_record_from_meta meta digest byte_len =
     \<lparr>ar_artifact_id = am_artifact_id meta, ar_task_id = am_task_id meta, ar_digest = digest,
      ar_media_type = am_media_type meta, ar_byte_len = byte_len, ar_inline = should_inline byte_len,
      ar_created_at = am_created_at meta\<rparr>"

fun map_artifact_validation_error :: "validation_error \<Rightarrow> store_error" where
  "map_artifact_validation_error (VArtifactTooLarge byte_len limit_bytes) = ArtifactTooLarge byte_len limit_bytes"
| "map_artifact_validation_error other = Validation other"

text \<open>The checks both backends begin with.\<close>

definition check_artifact :: "(bytes \<Rightarrow> bytes) \<Rightarrow> artifact_meta \<Rightarrow> bytes \<Rightarrow> store_error + digest" where
  "check_artifact sha256 meta content =
     bindR (map_err map_artifact_validation_error (validate_artifact_size (length content))) (\<lambda>_.
     let computed = digest_compute sha256 content in
     bindR (ensure (computed = am_digest meta) (DigestMismatch (am_digest meta) computed)) (\<lambda>_.
     Inr computed))"

section \<open>In-memory artifacts\<close>

definition decrement_in_memory_blob_ref :: "digest \<Rightarrow> mem_state \<times> blob_dir \<Rightarrow> mem_state \<times> blob_dir" where
  "decrement_in_memory_blob_ref digest st =
     (case st of (s, fs) \<Rightarrow>
        (case fmlookup (ms_blobs s) digest of
           Some (content, ref_count) \<Rightarrow>
             if ref_count > 1
             then (s\<lparr>ms_blobs := fmupd digest (content, ref_count - 1) (ms_blobs s)\<rparr>, fs)
             else (s\<lparr>ms_blobs := fmdrop digest (ms_blobs s)\<rparr>, remove_blob_file_if_present digest fs)
         | None \<Rightarrow> (s, fs)))"

definition drop_in_memory_artifact_association ::
  "artifact_record \<Rightarrow> mem_state \<times> blob_dir \<Rightarrow> mem_state \<times> blob_dir" where
  "drop_in_memory_artifact_association existing st =
     (if ar_inline existing
      then (case st of (s, fs) \<Rightarrow>
        (s\<lparr>ms_inline_artifacts := fmdrop (ar_artifact_id existing) (ms_inline_artifacts s)\<rparr>, fs))
      else decrement_in_memory_blob_ref (ar_digest existing) st)"

definition mem_put_artifact ::
  "(bytes \<Rightarrow> bytes) \<Rightarrow> artifact_meta \<Rightarrow> bytes \<Rightarrow> mem_state \<times> blob_dir \<Rightarrow>
   (store_error + artifact_record) \<times> mem_state \<times> blob_dir" where
  "mem_put_artifact sha256 meta content st =
     attempt (check_artifact sha256 meta content) st (\<lambda>computed.
     attempt (ensure (fmlookup (ms_tasks (fst st)) (am_task_id meta) \<noteq> None)
       (TaskNotFound (am_task_id meta))) st (\<lambda>_.
     let record = artifact_record_from_meta meta computed (length content);
         aid = ar_artifact_id record;
         (s, fs) = (case fmlookup (ms_artifacts (fst st)) aid of
                      Some existing \<Rightarrow> drop_in_memory_artifact_association existing st
                    | None \<Rightarrow> st);
         (s, fs) =
           (if ar_inline record
            then (s\<lparr>ms_inline_artifacts := fmupd aid content (ms_inline_artifacts s)\<rparr>, fs)
            else
              (s\<lparr>ms_blobs := fmupd computed
                  (content, sat_add (case fmlookup (ms_blobs s) computed of
                                       Some (_, n) \<Rightarrow> n | None \<Rightarrow> 0) 1) (ms_blobs s)\<rparr>,
               fmupd computed content fs))
     in (Inr record, s\<lparr>ms_artifacts := fmupd aid record (ms_artifacts s)\<rparr>, fs)))"

definition mem_get_artifact :: "artifact_id \<Rightarrow> mem_state \<Rightarrow> store_error + (artifact_record \<times> bytes)" where
  "mem_get_artifact aid s =
     bindR (ok_or (fmlookup (ms_artifacts s) aid) (ArtifactNotFound aid)) (\<lambda>record.
     bindR (ok_or (if ar_inline record then fmlookup (ms_inline_artifacts s) aid
                   else map_option fst (fmlookup (ms_blobs s) (ar_digest record))) (ArtifactNotFound aid))
       (\<lambda>content. Inr (record, content)))"

definition mem_list_artifacts_for_task :: "task_id \<Rightarrow> mem_state \<Rightarrow> store_error + artifact_record list" where
  "mem_list_artifacts_for_task tid s =
     Inr (sort_key ar_artifact_id (filter (\<lambda>a. ar_task_id a = tid) (fmvalues (ms_artifacts s))))"

definition mem_delete_artifact ::
  "artifact_id \<Rightarrow> mem_state \<times> blob_dir \<Rightarrow> (store_error + unit) \<times> mem_state \<times> blob_dir" where
  "mem_delete_artifact aid st =
     (case fmlookup (ms_artifacts (fst st)) aid of
        None \<Rightarrow> (Inl (ArtifactNotFound aid), st)
      | Some record \<Rightarrow>
          let s = (fst st)\<lparr>ms_artifacts := fmdrop aid (ms_artifacts (fst st))\<rparr> in
          (Inr (),
           if ar_inline record
           then (s\<lparr>ms_inline_artifacts := fmdrop aid (ms_inline_artifacts s)\<rparr>, snd st)
           else decrement_in_memory_blob_ref (ar_digest record) (s, snd st)))"

section \<open>SQLite artifacts\<close>

definition fetch_artifact_optional :: "artifact_id \<Rightarrow> sql_db \<Rightarrow> store_error + artifact_record option" where
  "fetch_artifact_optional aid db =
     transposeR (map_option row_to_artifact (find (\<lambda>r. af_artifact_id r = aid) (db_artifacts db)))"

definition should_drop_blob_association :: "artifact_record \<Rightarrow> artifact_record \<Rightarrow> bool" where
  "should_drop_blob_association existing replacement \<longleftrightarrow>
     \<not> ar_inline existing \<and> (ar_inline replacement \<or> ar_digest existing \<noteq> ar_digest replacement)"

definition should_write_blob_association :: "artifact_record option \<Rightarrow> artifact_record \<Rightarrow> bool" where
  "should_write_blob_association existing replacement \<longleftrightarrow>
     \<not> ar_inline replacement \<and>
     (case existing of
        None \<Rightarrow> True
      | Some existing \<Rightarrow> ar_inline existing \<or> ar_digest existing \<noteq> ar_digest replacement)"

record prepared_blob_write =
  pb_path :: string
  pb_remove_on_rollback :: bool

definition prepare_blob_write_with_executor ::
  "(bytes \<Rightarrow> bytes) \<Rightarrow> digest \<Rightarrow> bytes \<Rightarrow> sql_db \<Rightarrow> blob_dir \<Rightarrow>
   (store_error + prepared_blob_write) \<times> blob_dir" where
  "prepare_blob_write_with_executor sha256 digest content db fs =
     (let tracked = list_ex (\<lambda>b. bl_digest b = digest) (db_blobs db);
          prepared = \<lparr>pb_path = digest, pb_remove_on_rollback = \<not> tracked\<rparr>;
          write = attempt (write_new_blob_file digest content fs) fs (\<lambda>fs. (Inr prepared, fs))
      in if tracked then
           (case read_verified_blob sha256 digest (length content) fs of
              Inr existing \<Rightarrow>
                if existing = content then (Inr prepared, fs)
                else attempt (read_blob_file digest fs) fs (\<lambda>stored.
                  (Inl (DigestMismatch digest (digest_compute sha256 stored)), fs))
            | Inl (Database message) \<Rightarrow>
                if is_not_found_message message then write else (Inl (Database message), fs)
            | Inl error \<Rightarrow> (Inl error, fs))
         else write)"

definition rollback_prepared_blob_write :: "prepared_blob_write option \<Rightarrow> blob_dir \<Rightarrow> blob_dir" where
  "rollback_prepared_blob_write prepared fs =
     (case prepared of
        Some p \<Rightarrow> if pb_remove_on_rollback p then remove_blob_file_if_present (pb_path p) fs else fs
      | None \<Rightarrow> fs)"

definition increment_blob_ref_with_executor :: "digest \<Rightarrow> nat \<Rightarrow> sql_db \<Rightarrow> sql_db" where
  "increment_blob_ref_with_executor digest byte_len db =
     db\<lparr>db_blobs :=
       (if list_ex (\<lambda>b. bl_digest b = digest) (db_blobs db)
        then map (\<lambda>b. if bl_digest b = digest
                     then b\<lparr>bl_ref_count := bl_ref_count b + 1, bl_byte_len := int byte_len\<rparr> else b) (db_blobs db)
        else db_blobs db @ [\<lparr>bl_digest = digest, bl_ref_count = 1, bl_byte_len = int byte_len\<rparr>])\<rparr>"

definition decrement_blob_ref_with_executor :: "digest \<Rightarrow> sql_db \<Rightarrow> bool \<times> sql_db" where
  "decrement_blob_ref_with_executor digest db =
     (case find (\<lambda>b. bl_digest b = digest) (db_blobs db) of
        None \<Rightarrow> (False, db)
      | Some row \<Rightarrow>
          let set_count = (\<lambda>f. db\<lparr>db_blobs :=
                map (\<lambda>b. if bl_digest b = digest then b\<lparr>bl_ref_count := f (bl_ref_count b)\<rparr> else b) (db_blobs db)\<rparr>)
          in if bl_ref_count row > 1 then (False, set_count (\<lambda>n. n - 1)) else (True, set_count (\<lambda>_. 0)))"

fun finalize_blob_cleanup :: "digest list \<Rightarrow> sql_db \<times> blob_dir \<Rightarrow> sql_db \<times> blob_dir" where
  "finalize_blob_cleanup [] st = st"
| "finalize_blob_cleanup (digest # digests) (db, fs) =
     finalize_blob_cleanup digests
       (db\<lparr>db_blobs := filter (\<lambda>b. \<not> (bl_digest b = digest \<and> bl_ref_count b = 0)) (db_blobs db)\<rparr>,
        remove_blob_file_if_present digest fs)"

text \<open>\<open>INSERT ... ON CONFLICT(artifact_id) DO UPDATE\<close>: an existing row is overwritten in place.\<close>

definition upsert_artifact_row :: "artifact_row \<Rightarrow> sql_db \<Rightarrow> sql_db" where
  "upsert_artifact_row row db =
     db\<lparr>db_artifacts :=
       (if list_ex (\<lambda>r. af_artifact_id r = af_artifact_id row) (db_artifacts db)
        then map (\<lambda>r. if af_artifact_id r = af_artifact_id row then row else r) (db_artifacts db)
        else db_artifacts db @ [row])\<rparr>"

text \<open>
  \<open>put_artifact\<close> in two parts: the transaction up to its commit, which returns the digests to clean
  up, and the cleanup after it. No statement of the transaction can fail once the blob is prepared,
  so the rollback path is not reached.
\<close>

definition put_artifact_tx ::
  "(bytes \<Rightarrow> bytes) \<Rightarrow> artifact_meta \<Rightarrow> bytes \<Rightarrow> sql_db \<times> blob_dir \<Rightarrow>
   (store_error + (artifact_record \<times> digest list)) \<times> sql_db \<times> blob_dir" where
  "put_artifact_tx sha256 meta content st =
     (case st of (db, fs) \<Rightarrow>
      attempt (check_artifact sha256 meta content) st (\<lambda>computed.
      let record = artifact_record_from_meta meta computed (length content) in
      attempt (fetch_task_with_executor (ar_task_id record) db) st (\<lambda>_.
      attempt (fetch_artifact_optional (ar_artifact_id record) db) st (\<lambda>existing.
      let (prepared, fs1) =
            (if should_write_blob_association existing record
             then prepare_blob_write_with_executor sha256 computed content db fs
             else (Inr \<lparr>pb_path = computed, pb_remove_on_rollback = False\<rparr>, fs))
      in attempt prepared (db, fs1) (\<lambda>_.
         let (cleanup, db1) =
               (case existing of
                  Some old \<Rightarrow>
                    if should_drop_blob_association old record
                    then (case decrement_blob_ref_with_executor (ar_digest old) db of
                            (dropped, db1) \<Rightarrow> (if dropped then [ar_digest old] else [], db1))
                    else ([], db)
                | None \<Rightarrow> ([], db));
             db2 = (if should_write_blob_association existing record
                    then increment_blob_ref_with_executor computed (length content) db1 else db1)
         in (Inr (record, cleanup), upsert_artifact_row (artifact_to_row record content) db2, fs1))))))"

definition sql_put_artifact ::
  "(bytes \<Rightarrow> bytes) \<Rightarrow> artifact_meta \<Rightarrow> bytes \<Rightarrow> sql_db \<times> blob_dir \<Rightarrow>
   (store_error + artifact_record) \<times> sql_db \<times> blob_dir" where
  "sql_put_artifact sha256 meta content st =
     (case put_artifact_tx sha256 meta content st of
        (Inl e, st') \<Rightarrow> (Inl e, st')
      | (Inr (record, cleanup), st') \<Rightarrow> (Inr record, finalize_blob_cleanup cleanup st'))"

definition sql_get_artifact ::
  "(bytes \<Rightarrow> bytes) \<Rightarrow> artifact_id \<Rightarrow> sql_db \<times> blob_dir \<Rightarrow> store_error + (artifact_record \<times> bytes)" where
  "sql_get_artifact sha256 aid st =
     bindR (bindR (fetch_artifact_optional aid (fst st)) (\<lambda>row. ok_or row (ArtifactNotFound aid))) (\<lambda>record.
     bindR (if ar_inline record
            then ok_or (Option.bind (find (\<lambda>r. af_artifact_id r = aid) (db_artifacts (fst st))) af_inline_blob)
                   (ArtifactNotFound aid)
            else read_verified_blob sha256 (ar_digest record) (ar_byte_len record) (snd st)) (\<lambda>content.
     Inr (record, content)))"

definition sql_list_artifacts_for_task :: "task_id \<Rightarrow> sql_db \<Rightarrow> store_error + artifact_record list" where
  "sql_list_artifacts_for_task tid db =
     mapR row_to_artifact (sort_key af_artifact_id (filter (\<lambda>r. af_task_id r = tid) (db_artifacts db)))"

definition delete_artifact_tx ::
  "artifact_id \<Rightarrow> sql_db \<times> blob_dir \<Rightarrow> (store_error + digest list) \<times> sql_db \<times> blob_dir" where
  "delete_artifact_tx aid st =
     (case st of (db, fs) \<Rightarrow>
      attempt (bindR (fetch_artifact_optional aid db) (\<lambda>row. ok_or row (ArtifactNotFound aid))) st (\<lambda>record.
      let db1 = db\<lparr>db_artifacts := filter (\<lambda>r. af_artifact_id r \<noteq> aid) (db_artifacts db)\<rparr>;
          (dropped, db2) = (if \<not> ar_inline record then decrement_blob_ref_with_executor (ar_digest record) db1
                         else (False, db1))
      in (Inr (if dropped then [ar_digest record] else []), db2, fs)))"

definition sql_delete_artifact ::
  "artifact_id \<Rightarrow> sql_db \<times> blob_dir \<Rightarrow> (store_error + unit) \<times> sql_db \<times> blob_dir" where
  "sql_delete_artifact aid st =
     (case delete_artifact_tx aid st of
        (Inl e, st') \<Rightarrow> (Inl e, st')
      | (Inr cleanup, st') \<Rightarrow> (Inr (), finalize_blob_cleanup cleanup st'))"

end
