(* ===== verification/Mem_Invariant.thy ===== *)
theory Mem_Invariant
  imports Task_Store Mem_Store
begin

text \<open>
  The in-memory store satisfies the contract of an event-sourced task store. \<open>mem_step\<close> dispatches
  an operation to its definition, \<open>mem_inv\<close> relates the maps of the state to each other, and one
  lemma per operation shows that the invariant is kept and that every task evolves by task steps.
  The lemmas rest on \<open>mem_good_commit\<close>, the effect of one event together with its snapshot.
\<close>

section \<open>Operations as steps\<close>

fun mem_step :: "store_op \<Rightarrow> mem_state \<Rightarrow> (store_error + store_reply) \<times> mem_state" where
  "mem_step (AcceptTask t) s = reply RTask (mem_accept_task t s)"
| "mem_step (AcceptTaskWithEnvelope t env) s = reply RTask (mem_accept_task_with_envelope t env s)"
| "mem_step (AcceptTaskWithContext t env ctx) s =
     reply RTask (mem_accept_task_with_envelope_and_context t env ctx s)"
| "mem_step (PutTransportContext ctx) s = reply RContext (mem_put_transport_context ctx s)"
| "mem_step (LeaseTask tid lease peer) s =
     reply RTask (mem_lease_task_with_peer_guard tid lease peer s)"
| "mem_step (RenewLease tid lid wid now_ms expires) s =
     reply RLease (mem_renew_lease tid lid wid now_ms expires s)"
| "mem_step (CompleteTask tid lid wid) s = reply RTask (mem_complete_task tid lid wid s)"
| "mem_step (FailTask tid lid wid reason policy) s =
     reply RTask (mem_fail_task tid lid wid reason policy s)"
| "mem_step (RetryTask tid lid wid) s = reply RTask (mem_retry_task tid lid wid s)"
| "mem_step (DeadLetterTask tid lid wid reason) s =
     reply RTask (mem_dead_letter_task tid lid wid reason s)"
| "mem_step (CancelTask tid now_ms) s = reply RTask (mem_cancel_task tid now_ms s)"
| "mem_step (TransitionTask tid to) s = reply RTask (mem_transition_task tid to s)"
| "mem_step (AcceptLegacyEvent tid ty) s = reply RTask (mem_accept_legacy_event tid ty s)"
| "mem_step (FailExpiredDeadlines now_ms limit) s =
     reply RTasks (mem_fail_expired_deadlines now_ms limit s)"
| "mem_step (RecoverStaleLeases now_ms limit) s =
     reply RReport (mem_recover_stale_leases now_ms limit s)"
| "mem_step (CancelTaskWithResult tid lid wid now_ms r) s =
     reply RTask (mem_cancel_task_with_result tid lid wid now_ms r s)"
| "mem_step (CompleteTaskWithResult tid lid wid r) s =
     reply RTask (mem_complete_task_with_result tid lid wid r s)"
| "mem_step (FailTaskWithResult tid lid wid reason policy r) s =
     reply RTask (mem_fail_task_with_result tid lid wid reason policy r s)"

definition mem_history :: "mem_state \<Rightarrow> task_id \<Rightarrow> task_event_record list" where
  "mem_history s tid = (case fmlookup (ms_events s) tid of None \<Rightarrow> [] | Some evs \<Rightarrow> evs)"

definition mem_observe :: "mem_state \<Rightarrow> task_id \<Rightarrow> task_record option \<times> task_event_record list" where
  "mem_observe s tid = (fmlookup (ms_tasks s) tid, mem_history s tid)"

section \<open>The invariant\<close>

definition tasks_ok :: "(task_id, task_record) fmap \<Rightarrow> (task_id, task_event_record list) fmap \<Rightarrow> bool" where
  "tasks_ok tasks events \<longleftrightarrow>
     (\<forall>tid t. fmlookup tasks tid = Some t \<longrightarrow> tr_id t = tid \<and> wf_record t) \<and>
     (\<forall>tid. fmlookup events tid \<noteq> None \<longleftrightarrow> fmlookup tasks tid \<noteq> None)"

definition idempotency_ok :: "(task_id, task_record) fmap \<Rightarrow> (idempotency_key, task_id) fmap \<Rightarrow> bool" where
  "idempotency_ok tasks idem \<longleftrightarrow>
     (\<forall>k tid. fmlookup idem k = Some tid \<longleftrightarrow>
       (\<exists>t. fmlookup tasks tid = Some t \<and> tr_idempotency_key t = Some k))"

definition leases_ok :: "(task_id, task_record) fmap \<Rightarrow> (task_id, lease_record) fmap \<Rightarrow> bool" where
  "leases_ok tasks leases \<longleftrightarrow>
     (\<forall>tid l. fmlookup leases tid = Some l \<longrightarrow>
       lr_task_id l = tid \<and> lr_worker_id l \<noteq> None \<and>
       (\<exists>t. fmlookup tasks tid = Some t \<and> tr_status t = Running))"

definition transport_ok ::
  "(task_id, task_record) fmap \<Rightarrow> (task_id, task_envelope_record) fmap \<Rightarrow>
   (task_id, transport_context) fmap \<Rightarrow> bool" where
  "transport_ok tasks envs ctxs \<longleftrightarrow>
     (\<forall>tid e. fmlookup envs tid = Some e \<longrightarrow> er_task_id e = tid \<and> fmlookup tasks tid \<noteq> None) \<and>
     (\<forall>tid c. fmlookup ctxs tid = Some c \<longrightarrow> tc_task_id c = tid \<and> fmlookup tasks tid \<noteq> None)"

definition results_ok ::
  "(task_id, task_record) fmap \<Rightarrow> (task_id, terminal_result) fmap \<Rightarrow>
   (string, result_outbox_record) fmap \<Rightarrow> bool" where
  "results_ok tasks results outbox \<longleftrightarrow>
     (\<forall>tid r. fmlookup results tid = Some r \<longrightarrow>
       tm_task_id r = tid \<and> is_terminal (tm_terminal_status r) \<and>
       (\<exists>t. fmlookup tasks tid = Some t \<and> is_terminal (tr_status t)) \<and>
       (\<forall>ob. make_outbox r = Some ob \<longrightarrow> fmlookup outbox (delivery_id tid) = Some ob)) \<and>
     (\<forall>d ob. fmlookup outbox d = Some ob \<longrightarrow>
       (\<exists>r. fmlookup results (ob_task_id ob) = Some r \<and> make_outbox r = Some ob \<and>
            d = delivery_id (ob_task_id ob)))"

definition mem_inv :: "mem_state \<Rightarrow> bool" where
  "mem_inv s \<longleftrightarrow>
     tasks_ok (ms_tasks s) (ms_events s) \<and>
     idempotency_ok (ms_tasks s) (ms_idempotency s) \<and>
     leases_ok (ms_tasks s) (ms_leases s) \<and>
     transport_ok (ms_tasks s) (ms_envelopes s) (ms_transport_contexts s) \<and>
     results_ok (ms_tasks s) (ms_terminal_results s) (ms_result_outbox s)"

text \<open>An operation is good when it keeps the invariant and every task evolves.\<close>

definition mem_good :: "mem_state \<Rightarrow> mem_state \<Rightarrow> bool" where
  "mem_good s s' \<longleftrightarrow> mem_inv s' \<and> (\<forall>tid. evolves tid (mem_observe s tid) (mem_observe s' tid))"

lemmas mem_ok_defs = tasks_ok_def idempotency_ok_def leases_ok_def transport_ok_def results_ok_def

lemmas mem_updates = put_task_def put_lease_def remove_lease_def put_idempotency_def
  put_envelope_def put_context_def append_in_memory_event_def Let_def

lemma mem_good_refl [intro]: "mem_inv s \<Longrightarrow> mem_good s s"
  by (simp add: mem_good_def)

lemma mem_good_trans: "mem_good s s' \<Longrightarrow> mem_good s' s'' \<Longrightarrow> mem_good s s''"
  by (auto simp: mem_good_def intro: evolves_trans)

lemma mem_good_inv: "mem_good s s' \<Longrightarrow> mem_inv s'"
  by (simp add: mem_good_def)

lemma mem_inv_task: "mem_inv s \<Longrightarrow> fmlookup (ms_tasks s) tid = Some t \<Longrightarrow> tr_id t = tid \<and> wf_record t"
  by (auto simp: mem_inv_def tasks_ok_def)

lemma mem_inv_lease:
  "mem_inv s \<Longrightarrow> fmlookup (ms_leases s) tid = Some l \<Longrightarrow>
     lr_task_id l = tid \<and> lr_worker_id l \<noteq> None \<and>
     (\<exists>t. fmlookup (ms_tasks s) tid = Some t \<and> tr_status t = Running)"
  by (auto simp: mem_inv_def leases_ok_def)

lemma mem_inv_events: "mem_inv s \<Longrightarrow> fmlookup (ms_events s) tid = None \<longleftrightarrow> fmlookup (ms_tasks s) tid = None"
  unfolding mem_inv_def tasks_ok_def by blast

section \<open>One event and its snapshot\<close>

lemma results_ok_mono:
  assumes "results_ok tasks results outbox"
    and "\<And>k u. fmlookup tasks k = Some u \<Longrightarrow> is_terminal (tr_status u) \<Longrightarrow>
      \<exists>v. fmlookup tasks' k = Some v \<and> is_terminal (tr_status v)"
  shows "results_ok tasks' results outbox"
  using assms unfolding results_ok_def by blast

lemma ok_task_update:
  assumes "fmlookup tasks tid = Some t" and "task_step t ty t'" and "tr_id t = tid" and "wf_record t"
  shows "tasks_ok tasks events \<Longrightarrow> tasks_ok (fmupd tid t' tasks) (fmupd tid evs events)"
    and "idempotency_ok tasks idem \<Longrightarrow> idempotency_ok (fmupd tid t' tasks) idem"
    and "transport_ok tasks envs ctxs \<Longrightarrow> transport_ok (fmupd tid t' tasks) envs ctxs"
    and "results_ok tasks results outbox \<Longrightarrow> results_ok (fmupd tid t' tasks) results outbox"
proof -
  note step = task_step_same [OF assms(2)] task_step_wf [OF assms(2)] task_step_terminal [OF assms(2)]
  show "tasks_ok tasks events \<Longrightarrow> tasks_ok (fmupd tid t' tasks) (fmupd tid evs events)"
    using assms step by (auto simp: tasks_ok_def)
  show "idempotency_ok tasks idem \<Longrightarrow> idempotency_ok (fmupd tid t' tasks) idem"
    using assms step by (auto simp: idempotency_ok_def)
  show "transport_ok tasks envs ctxs \<Longrightarrow> transport_ok (fmupd tid t' tasks) envs ctxs"
    using assms by (auto simp: transport_ok_def)
  show "results_ok tasks results outbox \<Longrightarrow> results_ok (fmupd tid t' tasks) results outbox"
    using assms step by (elim results_ok_mono) auto
qed

lemma fmupd_same: "fmlookup m k = Some v \<Longrightarrow> fmupd k v m = m"
  by (rule fmap_ext) auto

lemma mem_observe_commit:
  "mem_observe (put_task tid t' (append_in_memory_event tid ty from to s)) k =
     (if k = tid then (Some t', mem_history s tid @
        [\<lparr>ev_task_id = tid, ev_sequence = length (mem_history s tid) + 1, ev_event_type = ty,
          ev_from_status = from, ev_to_status = to\<rparr>])
      else mem_observe s k)"
  by (auto simp: mem_observe_def mem_history_def mem_updates split: option.splits)

lemma mem_good_commit:
  assumes inv: "mem_inv s" and t: "fmlookup (ms_tasks s) tid = Some t"
    and step: "task_step t ty t'" and "from = Some (tr_status t)" "to = tr_status t'"
    and leases: "leases_ok (fmupd tid t' (ms_tasks s)) ls"
  shows "mem_good s (put_task tid t' (append_in_memory_event tid ty from to (s\<lparr>ms_leases := ls\<rparr>)))"
proof -
  let ?s = "put_task tid t' (append_in_memory_event tid ty from to (s\<lparr>ms_leases := ls\<rparr>))"
  note t' = mem_inv_task [OF inv t]
  note upd = ok_task_update [OF t step conjunct1 [OF t'] conjunct2 [OF t']]
  have "mem_inv ?s"
    using inv leases by (simp add: mem_inv_def mem_updates upd)
  moreover have "evolves k (mem_observe s k) (mem_observe ?s k)" for k
    using evolves_step [OF step, of tid "mem_history s tid"] assms t'
    by (simp add: mem_observe_commit) (auto simp: mem_observe_def mem_history_def)
  ultimately show ?thesis by (simp add: mem_good_def)
qed

lemma leases_ok_drop: "leases_ok tasks ls \<Longrightarrow> leases_ok (fmupd tid t' tasks) (fmdrop tid ls)"
  by (auto simp: leases_ok_def)

lemma leases_ok_keep:
  "leases_ok tasks ls \<Longrightarrow> fmlookup ls tid = None \<or> tr_status t' = Running \<Longrightarrow>
     leases_ok (fmupd tid t' tasks) ls"
  by (auto simp: leases_ok_def)

lemma leases_ok_put:
  "leases_ok tasks ls \<Longrightarrow> tr_status t' = Running \<Longrightarrow> lr_task_id l = tid \<Longrightarrow> lr_worker_id l \<noteq> None \<Longrightarrow>
     leases_ok (fmupd tid t' tasks) (fmupd tid l ls)"
  by (auto simp: leases_ok_def)

lemma mem_inv_leases_ok: "mem_inv s \<Longrightarrow> leases_ok (ms_tasks s) (ms_leases s)"
  by (simp add: mem_inv_def)

text \<open>The three ways an event meets the lease of its task: released, left alone, granted.\<close>

lemma mem_good_release:
  assumes "mem_inv s" and "fmlookup (ms_tasks s) tid = Some t" and "task_step t ty t'"
    and "from = Some (tr_status t)" "to = tr_status t'"
  shows "mem_good s (put_task tid t' (append_in_memory_event tid ty from to (remove_lease tid s)))"
  unfolding remove_lease_def using assms
  by (intro mem_good_commit leases_ok_drop mem_inv_leases_ok)

lemma mem_good_keep:
  assumes "mem_inv s" and "fmlookup (ms_tasks s) tid = Some t" and "task_step t ty t'"
    and "from = Some (tr_status t)" "to = tr_status t'"
    and "fmlookup (ms_leases s) tid = None \<or> tr_status t' = Running"
  shows "mem_good s (put_task tid t' (append_in_memory_event tid ty from to s))"
  using mem_good_commit [OF assms(1-5), of "ms_leases s"]
    leases_ok_keep [OF mem_inv_leases_ok [OF assms(1)] assms(6)] by simp

lemma mem_good_grant:
  assumes "mem_inv s" and "fmlookup (ms_tasks s) tid = Some t" and "task_step t ty t'"
    and "from = Some (tr_status t)" "to = tr_status t'"
    and "tr_status t' = Running" and "lr_task_id l = tid" and "lr_worker_id l \<noteq> None"
  shows "mem_good s (put_task tid t' (append_in_memory_event tid ty from to (put_lease tid l s)))"
  unfolding put_lease_def using assms
  by (intro mem_good_commit leases_ok_put mem_inv_leases_ok)

lemma task_step_transition:
  "validate_transition (tr_status t) to = Inr tr \<Longrightarrow> task_step t (tt_event_type tr) (t\<lparr>tr_status := to\<rparr>)"
  by (auto simp: validate_transition_Inr lifecycle_iff intro: task_step.intros)

lemma task_step_cancel:
  "validate_cancel_transition (tr_status t) = Inr tr \<Longrightarrow>
     task_step t (tt_event_type tr) (t\<lparr>tr_status := tt_to tr\<rparr>)"
  by (auto simp: validate_cancel_transition_Inr intro: task_step.intros)

lemma task_step_recovery:
  "task_step t RecoveryAction (t\<lparr>tr_status := fst (recovery_action (tr_status t))\<rparr>)"
  using task_step.recover [of t] by (cases "tr_status t") (simp_all add: recovery_target_def)

text \<open>A legacy event other than a denial is a task step, whichever plan it gets.\<close>

lemma task_step_legacy:
  assumes "plan_legacy_event_append (tr_status t) e = Inr plan" and "e \<noteq> LTaskApprovalDenied"
  shows "case plan of
      Lifecycle tr \<Rightarrow> tt_from tr = tr_status t \<and> task_step t (tt_event_type tr) (t\<lparr>tr_status := tt_to tr\<rparr>)
    | Operational ty st \<Rightarrow> st = tr_status t \<and> task_step t ty t"
proof (cases "normalize_legacy_transition (tr_status t) e")
  case (Some tr)
  with assms have "lifecycle (tr_status t) (tt_event_type tr) (tt_to tr)" "tt_from tr = tr_status t"
    using normalize_legacy_lifecycle [OF Some] normalize_legacy_from [OF Some] by auto
  with Some assms show ?thesis
    by (auto simp: plan_legacy_event_append_def lifecycle_iff intro: task_step.intros)
next
  case None
  with assms have "is_valid_operational_legacy (tr_status t) e"
    and "plan = Operational (as_keryx_event_type e) (tr_status t)"
    by (auto simp: plan_legacy_event_append_def split: if_splits)
  moreover from this have "is_replayable_operational_legacy_event (as_keryx_event_type e)"
    by (cases "tr_status t"; cases e) auto
  ultimately show ?thesis
    using operational_legacy_status by (auto intro: task_step.intros)
qed

section \<open>Every operation is good\<close>

lemmas find_defs [simp] = find_task_def find_lease_def

lemma mem_good_lease:
  assumes "mem_inv s"
  shows "mem_good s (snd (mem_lease_task_with_peer_guard tid lease peer s))"
proof -
  have start: "mem_good s (snd (mem_lease_start tid lease t s))"
    if "fmlookup (ms_tasks s) tid = Some t" "lr_task_id lease = tid" "lr_worker_id lease \<noteq> None" for t
    using that assms
    by (auto simp: mem_lease_start_def Let_def dest: validate_transition_fields split: attempt_splits
        intro!: mem_good_grant task_step_transition)
  have timeout: "mem_good s (put_task tid (t\<lparr>tr_status := Failed\<rparr>)
      (append_in_memory_event tid TaskTimedOut (Some (tr_status t)) Failed s))"
    if "fmlookup (ms_tasks s) tid = Some t" "fmlookup (ms_leases s) tid = None"
      "\<not> is_terminal (tr_status t)" for t
    using that assms task_step.time_out [of t] by (intro mem_good_keep) auto
  show ?thesis
    using assms start timeout
    by (auto simp: mem_lease_task_with_peer_guard_def guard_defs Let_def
        split: attempt_splits option.splits)
qed

lemma mem_good_put_lease:
  assumes "mem_inv s" and "fmlookup (ms_tasks s) tid = Some t" and "tr_status t = Running"
    and "lr_task_id l = tid" and "lr_worker_id l \<noteq> None"
  shows "mem_good s (put_lease tid l s)"
  using assms
  by (auto simp: mem_good_def mem_inv_def mem_observe_def mem_history_def put_lease_def leases_ok_def)

lemma mem_good_renew:
  assumes "mem_inv s"
  shows "mem_good s (snd (mem_renew_lease tid lid wid now_ms expires s))"
  using assms
  by (auto simp: mem_renew_lease_def guard_defs Let_def split: attempt_splits
      intro!: mem_good_put_lease dest: mem_inv_lease)

lemma wf_not_failed:
  "wf_record t \<Longrightarrow> tr_status t \<noteq> Failed \<Longrightarrow> tr_dead_lettered t = False \<and> tr_dead_letter_reason t = None"
  by (auto simp: wf_record_def)

text \<open>
  The general completion helper is called with the metadata of the task itself, or with the reset
  metadata of a running task, which is the same.
\<close>

lemma mem_good_finish:
  assumes inv: "mem_inv s" and t: "fmlookup (ms_tasks s) tid = Some t"
    and meta: "rc = tr_retry_count t"
      "tr_status t = Running \<Longrightarrow> dl = tr_dead_lettered t \<and> reason = tr_dead_letter_reason t"
    and to: "to = Completed \<or> to = Failed"
  shows "mem_good s (snd (finish_task_in_state tid lid wid to rc dl reason s))"
proof -
  have step: "task_step t (tt_event_type tr) (t\<lparr>tr_status := to, tr_retry_count := rc,
      tr_dead_lettered := dl, tr_dead_letter_reason := reason\<rparr>)"
    if tr: "validate_transition (tr_status t) to = Inr tr" for tr
  proof -
    have "tr_status t = Running"
      using tr to by (auto simp: validate_transition_Inr lifecycle_iff)
    with meta have "t\<lparr>tr_status := to, tr_retry_count := rc, tr_dead_lettered := dl,
        tr_dead_letter_reason := reason\<rparr> = t\<lparr>tr_status := to\<rparr>"
      by simp
    with task_step_transition [OF tr] show ?thesis by simp
  qed
  show ?thesis
    using inv t
    by (auto simp: finish_task_in_state_def guard_defs Let_def
        dest: validate_transition_fields split: attempt_splits intro!: mem_good_release step)
qed

lemma mem_good_complete:
  assumes "mem_inv s"
  shows "mem_good s (snd (mem_complete_task tid lid wid s))"
  using assms
  by (auto simp: mem_complete_task_def mem_finish_task_def split: attempt_splits
      intro!: mem_good_finish)

lemma mem_good_retry_in_state:
  assumes "mem_inv s" and "fmlookup (ms_tasks s) tid = Some t"
  shows "mem_good s (snd (retry_task_in_state tid active t s))"
  using assms
  by (auto simp: retry_task_in_state_def guard_defs Let_def split: attempt_splits
      intro!: mem_good_release task_step.requeue)

lemma mem_good_dead_letter_in_state:
  assumes "mem_inv s" and "fmlookup (ms_tasks s) tid = Some t"
  shows "mem_good s (snd (dead_letter_task_in_state tid active t reason s))"
  using assms
  by (auto simp: dead_letter_task_in_state_def guard_defs Let_def
      split: attempt_splits intro!: mem_good_release task_step.dead_letter)

lemma mem_good_fail_policy:
  assumes inv: "mem_inv s" and t: "fmlookup (ms_tasks s) tid = Some t"
  shows "mem_good s (snd (finish_task_in_state tid lid wid Failed (tr_retry_count t) False None s))"
  using mem_good_finish [OF inv t refl] wf_not_failed [of t] mem_inv_task [OF inv t] by simp

lemma mem_good_fail:
  assumes "mem_inv s"
  shows "mem_good s (snd (mem_fail_task tid lid wid reason policy s))"
  using assms
  by (auto simp: mem_fail_task_def guard_defs split: attempt_splits
      intro: mem_good_fail_policy mem_good_retry_in_state mem_good_dead_letter_in_state)

lemma mem_good_retry:
  assumes "mem_inv s"
  shows "mem_good s (snd (mem_retry_task tid lid wid s))"
  using assms
  by (auto simp: mem_retry_task_def guard_defs split: attempt_splits intro: mem_good_retry_in_state)

lemma mem_good_dead_letter:
  assumes "mem_inv s"
  shows "mem_good s (snd (mem_dead_letter_task tid lid wid reason s))"
  using assms
  by (auto simp: mem_dead_letter_task_def guard_defs split: attempt_splits
      intro: mem_good_dead_letter_in_state)

lemma mem_good_cancel:
  assumes "mem_inv s"
  shows "mem_good s (snd (mem_cancel_task tid now_ms s))"
  using assms
  by (auto simp: mem_cancel_task_def Let_def validate_cancel_transition_Inr
      split: attempt_splits intro!: mem_good_release task_step.cancel)

lemma mem_good_transition:
  assumes "mem_inv s"
  shows "mem_good s (snd (mem_transition_task tid to s))"
proof -
  have keep: "fmlookup (ms_leases s) tid = None \<or> to = Running"
    if "validate_transition (tr_status t) to = Inr tr" "\<not> is_terminal to" for t tr
    using that by (auto simp: validate_transition_Inr lifecycle_iff)
  show ?thesis
    using assms keep
    by (auto simp: mem_transition_task_def Let_def dest: validate_transition_fields
        split: attempt_splits intro!: mem_good_release mem_good_keep task_step_transition)
qed

lemma mem_good_legacy:
  assumes inv: "mem_inv s" and ty: "ty \<noteq> TaskApprovalDenied"
  shows "mem_good s (snd (mem_accept_legacy_event tid ty s))"
proof -
  have lifecycle: "mem_good s (put_task tid (t\<lparr>tr_status := tt_to tr\<rparr>)
      (append_in_memory_event tid (tt_event_type tr) (Some (tt_from tr)) (tt_to tr)
        (if is_terminal (tt_to tr) then remove_lease tid s else s)))"
    if t: "fmlookup (ms_tasks s) tid = Some t"
      and tr: "plan_legacy_event_append (tr_status t) e = Inr (Lifecycle tr)" "e \<noteq> LTaskApprovalDenied" for t e tr
  proof -
    from task_step_legacy [OF tr] have step: "tt_from tr = tr_status t"
      "task_step t (tt_event_type tr) (t\<lparr>tr_status := tt_to tr\<rparr>)" by auto
    have "tt_to tr = Running" if "\<not> is_terminal (tt_to tr)"
      using tr that by (cases "tr_status t"; cases e) (auto simp: plan_legacy_event_append_def)
    with step t inv show ?thesis
      by (auto intro!: mem_good_release mem_good_keep)
  qed
  have operational: "mem_good s (append_in_memory_event tid oty (Some st) st s)"
    if t: "fmlookup (ms_tasks s) tid = Some t"
      and plan: "plan_legacy_event_append (tr_status t) e = Inr (Operational oty st)" "e \<noteq> LTaskApprovalDenied"
    for t e oty st
  proof -
    from task_step_legacy [OF plan] have step: "st = tr_status t" "task_step t oty t" by auto
    have "put_task tid t (append_in_memory_event tid oty (Some st) st s) =
        append_in_memory_event tid oty (Some st) st s"
      using fmupd_same [OF t] by (simp add: mem_updates)
    with mem_good_keep [OF inv t step(2), of "Some st" st] step t inv show ?thesis
      by (metis mem_inv_lease option.exhaust option.sel)
  qed
  have denied: "from_keryx_event_type ty \<noteq> Some LTaskApprovalDenied"
    using ty by (cases ty) auto
  show ?thesis
  proof (cases "from_keryx_event_type ty")
    case (Some e)
    show ?thesis
    proof (cases "fmlookup (ms_tasks s) tid")
      case t: (Some t)
      show ?thesis
      proof (cases "plan_legacy_event_append (tr_status t) e")
        case (Inr plan)
        with lifecycle [OF t, of e] operational [OF t, of e] Some denied inv t show ?thesis
          by (cases plan) (auto simp: mem_accept_legacy_event_def Let_def simp del: if_split)
      qed (use inv Some t in \<open>auto simp: mem_accept_legacy_event_def\<close>)
    qed (use inv Some in \<open>auto simp: mem_accept_legacy_event_def\<close>)
  qed (use inv in \<open>auto simp: mem_accept_legacy_event_def\<close>)
qed

section \<open>The sweeping operations\<close>

lemma mem_good_fail_expired_loop:
  "mem_inv s \<Longrightarrow> mem_good s (snd (mem_fail_expired_loop expired failed s))"
proof (induction expired failed s rule: mem_fail_expired_loop.induct)
  case (2 d tid expired failed s)
  show ?case
  proof (cases "fmlookup (ms_tasks s) tid")
    case (Some t)
    show ?thesis
    proof (cases "is_terminal (tr_status t)")
      case False
      let ?s = "put_task tid (t\<lparr>tr_status := Failed\<rparr>)
        (append_in_memory_event tid TaskTimedOut (Some (tr_status t)) Failed (remove_lease tid s))"
      have good: "mem_good s ?s"
        using "2.prems" Some task_step.time_out [of t] False by (intro mem_good_release) auto
      from Some False "2.IH" [OF refl refl refl mem_good_inv [OF good]] good show ?thesis
        by (auto simp: Let_def intro: mem_good_trans)
    next
      case True
      with Some "2.prems" show ?thesis by (cases "tr_status t") auto
    qed
  qed (use "2.prems" in auto)
qed auto

lemma mem_good_fail_expired:
  "mem_inv s \<Longrightarrow> mem_good s (snd (mem_fail_expired_deadlines now_ms limit s))"
  by (simp add: mem_fail_expired_deadlines_def mem_good_fail_expired_loop)

lemma mem_good_remove_lease: "mem_inv s \<Longrightarrow> mem_good s (remove_lease tid s)"
  by (auto simp: mem_good_def mem_inv_def mem_observe_def mem_history_def remove_lease_def leases_ok_def)

text \<open>One pass of the recovery loop, as a state transformer.\<close>

definition mem_recover_one :: "lease_record \<Rightarrow> mem_state \<Rightarrow> mem_state" where
  "mem_recover_one lease s =
     (let tid = lr_task_id lease; s1 = remove_lease tid s in
      case fmlookup (ms_tasks s1) tid of
        None \<Rightarrow> s1
      | Some t \<Rightarrow>
          put_task tid (t\<lparr>tr_status := fst (recovery_action (tr_status t))\<rparr>)
            (append_in_memory_event tid RecoveryAction (Some (tr_status t))
              (fst (recovery_action (tr_status t))) s1))"

lemma mem_recover_loop_state:
  "snd (mem_recover_loop leases recovered cleaned s) = fold mem_recover_one leases s"
  by (induction leases recovered cleaned s rule: mem_recover_loop.induct)
    (auto simp: mem_recover_one_def Let_def split: option.splits prod.splits)

lemma mem_good_recover_one: "mem_inv s \<Longrightarrow> mem_good s (mem_recover_one lease s)"
  using task_step_recovery
  by (auto simp: mem_recover_one_def Let_def remove_lease_def [of "lr_task_id lease"]
      mem_good_remove_lease [unfolded remove_lease_def]
      intro!: mem_good_release [unfolded remove_lease_def] split: option.splits)

lemma mem_good_fold:
  "(\<And>x s. mem_inv s \<Longrightarrow> mem_good s (f x s)) \<Longrightarrow> mem_inv s \<Longrightarrow> mem_good s (fold f xs s)"
proof (induction xs arbitrary: s)
  case (Cons x xs)
  from Cons.prems have good: "mem_good s (f x s)" by simp
  have "mem_good (f x s) (fold f xs (f x s))"
    using Cons.IH [OF Cons.prems(1) mem_good_inv [OF good]] .
  with good show ?case by (auto intro: mem_good_trans)
qed auto

lemma mem_good_recover:
  "mem_inv s \<Longrightarrow> mem_good s (snd (mem_recover_stale_leases now_ms limit s))"
  using mem_recover_loop_state [of "mem_stale_leases now_ms limit s" "[]" 0 s]
  by (auto simp: mem_recover_stale_leases_def split: prod.splits
      intro!: mem_good_fold mem_good_recover_one)

section \<open>Acceptance\<close>

lemma mem_good_insert:
  assumes inv: "mem_inv s" and new: "fmlookup (ms_tasks s) tid = None"
    and t: "fresh_task tid t" and key: "Option.bind (tr_idempotency_key t) (fmlookup (ms_idempotency s)) = None"
  shows "mem_good s (put_task tid t (append_in_memory_event tid TaskAccepted None Pending
           (put_idempotency (tr_idempotency_key t) tid s)))"
    (is "mem_good s ?s")
proof -
  have no_events: "fmlookup (ms_events s) tid = None"
    using inv new by (simp add: mem_inv_events)
  have no_lease: "fmlookup (ms_leases s) tid = None"
    using inv new mem_inv_lease by (cases "fmlookup (ms_leases s) tid") fastforce+
  have "tasks_ok (ms_tasks ?s) (ms_events ?s)"
    using inv t by (auto simp: mem_inv_def tasks_ok_def mem_updates fresh_task_def split: option.splits)
  moreover have "idempotency_ok (ms_tasks ?s) (ms_idempotency ?s)"
  proof (cases "tr_idempotency_key t")
    case (Some k)
    have "tr_idempotency_key u \<noteq> Some k" if "fmlookup (ms_tasks s) i = Some u" for i u
      using inv key Some that unfolding mem_inv_def idempotency_ok_def
      by (metis bind.bind_lunit option.distinct(1))
    with inv new Some show ?thesis
      by (auto simp: mem_inv_def idempotency_ok_def mem_updates)
  qed (use inv new in \<open>auto simp: mem_inv_def idempotency_ok_def mem_updates\<close>)
  moreover have "leases_ok (ms_tasks ?s) (ms_leases ?s)"
    using inv no_lease by (auto simp: mem_inv_def leases_ok_def mem_updates split: option.splits)
  moreover have "transport_ok (ms_tasks ?s) (ms_envelopes ?s) (ms_transport_contexts ?s)"
    using inv by (auto simp: mem_inv_def transport_ok_def mem_updates split: option.splits)
  moreover have "results_ok (ms_tasks ?s) (ms_terminal_results ?s) (ms_result_outbox ?s)"
  proof -
    have "results_ok (fmupd tid t (ms_tasks s)) (ms_terminal_results s) (ms_result_outbox s)"
      using inv new unfolding mem_inv_def by (elim conjE results_ok_mono) auto
    then show ?thesis by (auto simp: mem_updates split: option.splits)
  qed
  moreover have "evolves k (mem_observe s k) (mem_observe ?s k)" for k
    using evolves_fresh [OF t] no_events new
    by (auto simp: mem_observe_def mem_history_def mem_updates accepted_event_def split: option.splits)
  ultimately show ?thesis by (simp add: mem_good_def mem_inv_def)
qed

lemma mem_good_put_envelope:
  "mem_inv s \<Longrightarrow> fmlookup (ms_tasks s) tid \<noteq> None \<Longrightarrow> er_task_id env = tid \<Longrightarrow>
     mem_good s (put_envelope tid env s)"
  by (auto simp: mem_good_def mem_inv_def mem_observe_def mem_history_def put_envelope_def
      transport_ok_def)

lemma mem_good_put_context:
  "mem_inv s \<Longrightarrow> fmlookup (ms_tasks s) tid \<noteq> None \<Longrightarrow> tc_task_id ctx = tid \<Longrightarrow>
     mem_good s (put_context tid ctx s)"
  by (auto simp: mem_good_def mem_inv_def mem_observe_def mem_history_def put_context_def
      transport_ok_def)

lemma put_task_lookup [simp]: "fmlookup (ms_tasks (put_task tid t s)) tid = Some t"
  by (simp add: put_task_def)

lemma put_envelope_tasks [simp]: "ms_tasks (put_envelope tid env s) = ms_tasks s"
  by (simp add: put_envelope_def)

lemma mem_good_accept:
  assumes "mem_inv s" and "wf_record t"
  shows "mem_good s (snd (mem_accept_task t s))"
  using assms mem_good_insert [of s "tr_id t" t]
  by (auto simp: mem_accept_task_def guard_defs fresh_task_def Let_def
      split: attempt_splits option.splits)

lemma mem_good_accept_with_envelope:
  assumes inv: "mem_inv s" and t: "wf_record t"
  shows "mem_good s (snd (mem_accept_task_with_envelope t env s))"
proof -
  let ?s = "put_task (tr_id t) t (append_in_memory_event (tr_id t) TaskAccepted None Pending
    (put_idempotency (tr_idempotency_key t) (tr_id t) s))"
  have "mem_good s (put_envelope (tr_id t) env ?s)"
    if "fmlookup (ms_tasks s) (tr_id t) = None" "tr_status t = Pending" "er_task_id env = tr_id t"
      "Option.bind (tr_idempotency_key t) (fmlookup (ms_idempotency s)) = None"
  proof (rule mem_good_trans)
    show good: "mem_good s ?s"
      using that inv t by (intro mem_good_insert) (auto simp: fresh_task_def)
    show "mem_good ?s (put_envelope (tr_id t) env ?s)"
      using that mem_good_inv [OF good] by (intro mem_good_put_envelope) auto
  qed
  with inv show ?thesis
    by (cases "Option.bind (tr_idempotency_key t) (fmlookup (ms_idempotency s))";
        cases "fmlookup (ms_tasks s) (tr_id t)")
      (auto simp: mem_accept_task_with_envelope_def guard_defs Let_def split: attempt_split)
qed

lemma mem_good_accept_with_context:
  assumes inv: "mem_inv s" and t: "wf_record t"
  shows "mem_good s (snd (mem_accept_task_with_envelope_and_context t env ctx s))"
proof -
  let ?s1 = "put_task (tr_id t) t (append_in_memory_event (tr_id t) TaskAccepted None Pending
    (put_idempotency (tr_idempotency_key t) (tr_id t) s))"
  let ?s2 = "put_envelope (tr_id t) env ?s1"
  have new: "mem_good s (put_context (tr_id t) ctx ?s2)"
    if "fmlookup (ms_tasks s) (tr_id t) = None" "tr_status t = Pending" "er_task_id env = tr_id t"
      "tc_task_id ctx = tr_id t"
      "Option.bind (tr_idempotency_key t) (fmlookup (ms_idempotency s)) = None"
  proof (rule mem_good_trans, rule mem_good_trans)
    show good1: "mem_good s ?s1"
      using that inv t by (intro mem_good_insert) (auto simp: fresh_task_def)
    show good2: "mem_good ?s1 ?s2"
      using that mem_good_inv [OF good1] by (intro mem_good_put_envelope) auto
    show "mem_good ?s2 (put_context (tr_id t) ctx ?s2)"
      using that mem_good_inv [OF good2] by (intro mem_good_put_context) auto
  qed
  have old: "mem_good s (put_context (tr_id t) ctx s)"
    if "fmlookup (ms_tasks s) (tr_id t) = Some t" "tc_task_id ctx = tr_id t"
    using that inv by (intro mem_good_put_context) auto
  show ?thesis
  proof (cases "fmlookup (ms_tasks s) (tr_id t)")
    case None
    with inv new show ?thesis
      by (cases "Option.bind (tr_idempotency_key t) (fmlookup (ms_idempotency s))")
        (auto simp: mem_accept_task_with_envelope_and_context_def guard_defs Let_def
          split: attempt_split)
  next
    case (Some u)
    with inv old show ?thesis
      by (auto simp: mem_accept_task_with_envelope_and_context_def guard_defs split: attempt_split)
  qed
qed

lemma mem_good_put_transport_context:
  "mem_inv s \<Longrightarrow> mem_good s (snd (mem_put_transport_context ctx s))"
  by (auto simp: mem_put_transport_context_def intro!: mem_good_put_context split: option.splits)

section \<open>Terminal results\<close>

lemma delivery_id_inj [simp]: "delivery_id a = delivery_id b \<longleftrightarrow> a = b"
  by (simp add: delivery_id_def)

lemma make_outbox_fields:
  "make_outbox r = Some ob \<Longrightarrow> ob_task_id ob = tm_task_id r \<and> ob_delivery_id ob = delivery_id (tm_task_id r)"
  by (auto simp: make_outbox_def)

lemma mem_good_put_result:
  assumes inv: "mem_inv s" and t: "fmlookup (ms_tasks s) tid = Some t" "is_terminal (tr_status t)"
    and none: "fmlookup (ms_terminal_results s) tid = None"
    and r: "tm_task_id r = tid" "is_terminal (tm_terminal_status r)"
  shows "mem_good s (put_result tid r s)"
proof -
  let ?s = "put_result tid r s"
  have fields: "ms_tasks ?s = ms_tasks s" "ms_events ?s = ms_events s" "ms_leases ?s = ms_leases s"
    "ms_idempotency ?s = ms_idempotency s" "ms_envelopes ?s = ms_envelopes s"
    "ms_transport_contexts ?s = ms_transport_contexts s"
    "ms_terminal_results ?s = fmupd tid r (ms_terminal_results s)"
    "ms_result_outbox ?s = (case make_outbox r of None \<Rightarrow> ms_result_outbox s
       | Some ob \<Rightarrow> fmupd (delivery_id tid) ob (ms_result_outbox s))"
    using r make_outbox_fields [of r] by (auto simp: put_result_def Let_def split: option.splits)
  have old: "ob_task_id ob \<noteq> tid" if "fmlookup (ms_result_outbox s) d = Some ob" for d ob
    using inv none that unfolding mem_inv_def results_ok_def by (metis option.distinct(1))
  have "results_ok (ms_tasks s) (ms_terminal_results s) (ms_result_outbox s)"
    using inv by (simp add: mem_inv_def)
  with t r none have "results_ok (ms_tasks ?s) (ms_terminal_results ?s) (ms_result_outbox ?s)"
    unfolding fields results_ok_def
    by (cases "make_outbox r") (auto dest: make_outbox_fields old split: if_splits)
  with inv fields show ?thesis
    by (simp add: mem_good_def mem_inv_def mem_observe_def mem_history_def)
qed

text \<open>A completion that succeeds leaves a terminal task and no new terminal result.\<close>

lemma finish_task_in_state_ok:
  assumes "finish_task_in_state tid lid wid to rc dl reason s = (Inr u, s')"
    and "to = Completed \<or> to = Failed"
  shows "fmlookup (ms_tasks s') tid = Some u \<and> is_terminal (tr_status u) \<and>
    ms_terminal_results s' = ms_terminal_results s"
  using assms
  by (auto simp: finish_task_in_state_def attempt_eq_ok Let_def mem_updates)

lemma dead_letter_task_in_state_ok:
  assumes "dead_letter_task_in_state tid active t reason s = (Inr u, s')"
  shows "fmlookup (ms_tasks s') tid = Some u \<and> is_terminal (tr_status u) \<and>
    ms_terminal_results s' = ms_terminal_results s"
  using assms
  by (auto simp: dead_letter_task_in_state_def attempt_eq_ok Let_def mem_updates)

lemma mem_good_with_result:
  assumes good: "mem_good s s'" and "fmlookup (ms_tasks s') tid = Some u" "is_terminal (tr_status u)"
    and "ms_terminal_results s' = ms_terminal_results s" "fmlookup (ms_terminal_results s) tid = None"
    and "tm_task_id r = tid" "is_terminal (tm_terminal_status r)"
  shows "mem_good s (put_result tid r s')"
  using mem_good_trans [OF good mem_good_put_result] mem_good_inv [OF good] assms by metis

lemma mem_good_complete_with_result:
  assumes inv: "mem_inv s"
  shows "mem_good s (snd (mem_complete_task_with_result tid lid wid r s))"
proof (cases "ensure_result_task r tid")
  case r: (Inr a)
  show ?thesis
  proof (cases "fmlookup (ms_terminal_results s) tid = None \<and> fmlookup (ms_tasks s) tid \<noteq> None")
    case True
    then obtain t where t: "fmlookup (ms_tasks s) tid = Some t" by auto
    obtain res s' where fin: "finish_task_in_state tid lid wid Completed (tr_retry_count t)
        (tr_dead_lettered t) (tr_dead_letter_reason t) s = (res, s')" by fastforce
    with mem_good_finish [OF inv t refl, of _ _ Completed lid wid] have "mem_good s s'"
      by (metis snd_conv)
    with fin True r t show ?thesis
      by (cases res) (auto simp: mem_complete_task_with_result_def mem_recorded_result_def
          dest!: finish_task_in_state_ok intro: mem_good_with_result)
  next
    case False
    with inv r show ?thesis
      by (auto simp: mem_complete_task_with_result_def mem_recorded_result_def
          split: option.splits attempt_split)
  qed
qed (use inv in \<open>auto simp: mem_complete_task_with_result_def\<close>)

lemma mem_good_fail_with_result:
  assumes inv: "mem_inv s"
  shows "mem_good s (snd (mem_fail_task_with_result tid lid wid reason policy r s))"
proof -
  have fin: "mem_good s (put_result tid r s')"
    if "fmlookup (ms_tasks s) tid = Some t" "fmlookup (ms_terminal_results s) tid = None"
      "tm_task_id r = tid" "is_terminal (tm_terminal_status r)"
      "finish_task_in_state tid lid wid Failed (tr_retry_count t) False None s = (Inr u, s')" for t u s'
    using mem_good_fail_policy [OF inv that(1), of lid wid] finish_task_in_state_ok [OF that(5)] that
    by (auto intro: mem_good_with_result)
  have fin_err: "mem_good s s'"
    if "fmlookup (ms_tasks s) tid = Some t"
      "finish_task_in_state tid lid wid Failed (tr_retry_count t) False None s = (Inl e, s')" for t e s'
    using mem_good_fail_policy [OF inv that(1), of lid wid] that by simp
  have dl: "mem_good s (put_result tid r s')"
    if "fmlookup (ms_tasks s) tid = Some t" "fmlookup (ms_terminal_results s) tid = None"
      "tm_task_id r = tid" "is_terminal (tm_terminal_status r)"
      "dead_letter_task_in_state tid active t reason s = (Inr u, s')" for t u s' active
    using mem_good_dead_letter_in_state [OF inv that(1), of active reason]
      dead_letter_task_in_state_ok [OF that(5)] that
    by (auto intro: mem_good_with_result)
  have dl_err: "mem_good s s'"
    if "fmlookup (ms_tasks s) tid = Some t"
      "dead_letter_task_in_state tid active t reason s = (Inl e, s')" for t e s' active
    using mem_good_dead_letter_in_state [OF inv that(1), of active reason] that by simp
  show ?thesis
    using inv fin fin_err dl dl_err
    by (auto simp: mem_fail_task_with_result_def mem_recorded_result_def
        intro: mem_good_retry_in_state split: attempt_split option.split prod.split sum.split)
qed

lemma mem_good_cancel_with_result:
  assumes inv: "mem_inv s"
  shows "mem_good s (snd (mem_cancel_task_with_result tid lid wid now_ms r s))"
proof -
  have "mem_good s (put_result tid r (put_task tid (t\<lparr>tr_status := Failed\<rparr>)
      (append_in_memory_event tid TaskCanceled (Some (tr_status t)) Failed (remove_lease tid s))))"
    if "fmlookup (ms_tasks s) tid = Some t" "\<not> is_terminal (tr_status t)"
      "fmlookup (ms_terminal_results s) tid = None"
      "tm_task_id r = tid" "is_terminal (tm_terminal_status r)" for t
    using that inv task_step.cancel [of t]
    by (intro mem_good_with_result mem_good_release) (auto simp: mem_updates)
  with inv show ?thesis
    by (auto simp: mem_cancel_task_with_result_def Let_def validate_cancel_transition_Inr
        split: attempt_split)
qed

section \<open>The contract holds\<close>

lemmas mem_good_ops = mem_good_accept mem_good_accept_with_envelope mem_good_accept_with_context
  mem_good_put_transport_context mem_good_lease mem_good_renew mem_good_complete mem_good_fail
  mem_good_retry mem_good_dead_letter mem_good_cancel mem_good_transition mem_good_legacy
  mem_good_fail_expired mem_good_recover mem_good_cancel_with_result mem_good_complete_with_result
  mem_good_fail_with_result

lemma mem_good_step: "mem_inv s \<Longrightarrow> admissible oper \<Longrightarrow> mem_good s (snd (mem_step oper s))"
  by (cases oper) (simp_all add: mem_good_ops)

interpretation mem: event_sourced_store mem_step admissible mem_observe mem_inv mem_init
proof
  show "mem_inv mem_init"
    by (simp add: mem_inv_def mem_init_def mem_ok_defs)
  show "mem_observe mem_init tid = (None, [])" for tid
    by (simp add: mem_observe_def mem_history_def mem_init_def)
  show "mem_inv (snd (mem_step oper s))" if "mem_inv s" "admissible oper" for oper s
    using mem_good_step [OF that] by (rule mem_good_inv)
  show "evolves tid (mem_observe s tid) (mem_observe (snd (mem_step oper s)) tid)"
    if "mem_inv s" "admissible oper" for oper s tid
    using mem_good_step [OF that] by (simp add: mem_good_def)
qed

end
