(* ===== verification/Sql_Tables.thy ===== *)
theory Sql_Tables
  imports Sql_Store Mem_Invariant
begin

text \<open>
  Tables as maps: when the rows of a table with a unique key represent a finite map, and what the
  statements of the store do to the map. \<open>represents\<close> is the correspondence for one table; \<open>matches\<close>
  collects the tables of a database and the maps of an in-memory state. The lemmas of this theory
  say how a lookup, an insert, an update and an ordered selection read on the two sides.
\<close>

section \<open>One table\<close>

definition represents ::
  "('row \<Rightarrow> 'k) \<Rightarrow> ('k \<Rightarrow> 'v \<Rightarrow> 'row) \<Rightarrow> ('v \<Rightarrow> bool) \<Rightarrow> 'row list \<Rightarrow> ('k, 'v) fmap \<Rightarrow> bool" where
  "represents key enc ok rows m \<longleftrightarrow>
     distinct (map key rows) \<and>
     (\<forall>k. find (\<lambda>r. key r = k) rows = map_option (enc k) (fmlookup m k)) \<and>
     (\<forall>k v. fmlookup m k = Some v \<longrightarrow> ok v \<and> key (enc k v) = k)"

lemma find_map_distinct:
  "distinct (map key rows) \<Longrightarrow> r \<in> set rows \<Longrightarrow> find (\<lambda>x. key x = key r) rows = Some r"
  by (induction rows) auto

lemma find_append: "find P (xs @ ys) = (case find P xs of None \<Rightarrow> find P ys | Some x \<Rightarrow> Some x)"
  by (induction xs) auto

lemma find_filter: "find (\<lambda>r. P r \<and> Q r) xs = find P (filter Q xs)"
  by (induction xs) auto

lemma represents_find:
  "represents key enc ok rows m \<Longrightarrow> find (\<lambda>r. key r = k) rows = map_option (enc k) (fmlookup m k)"
  by (simp add: represents_def)

lemma represents_ok:
  "represents key enc ok rows m \<Longrightarrow> fmlookup m k = Some v \<Longrightarrow> ok v \<and> key (enc k v) = k"
  by (simp add: represents_def)

lemma represents_empty: "represents key enc ok [] fmempty"
  by (simp add: represents_def)

lemma represents_row:
  assumes "represents key enc ok rows m" and "r \<in> set rows"
  obtains v where "fmlookup m (key r) = Some v" and "r = enc (key r) v"
proof -
  have "find (\<lambda>x. key x = key r) rows = Some r"
    using assms by (intro find_map_distinct) (simp_all add: represents_def)
  with represents_find [OF assms(1), of "key r"] have "map_option (enc (key r)) (fmlookup m (key r)) = Some r"
    by simp
  with that show thesis by (cases "fmlookup m (key r)") auto
qed

lemma represents_in_rows:
  "represents key enc ok rows m \<Longrightarrow> fmlookup m k = Some v \<Longrightarrow> enc k v \<in> set rows"
  using represents_find [of key enc ok rows m k] by (auto simp: find_Some_iff set_conv_nth)

lemma represents_absent:
  "represents key enc ok rows m \<Longrightarrow> list_ex (\<lambda>r. key r = k) rows \<longleftrightarrow> fmlookup m k \<noteq> None"
  using represents_find [of key enc ok rows m k]
  by (cases "fmlookup m k") (auto simp: list_ex_iff find_None_iff find_Some_iff set_conv_nth)

lemma represents_insert:
  assumes "represents key enc ok rows m" and "fmlookup m k = None" and "ok v" and "key (enc k v) = k"
  shows "represents key enc ok (rows @ [enc k v]) (fmupd k v m)"
proof -
  have "find (\<lambda>r. key r = k) rows = None"
    using represents_find [OF assms(1), of k] assms(2) by simp
  then have "k \<notin> key ` set rows"
    by (auto simp: find_None_iff)
  with assms show ?thesis
    by (auto simp: represents_def find_append split: option.splits)
qed

lemma find_map_update:
  assumes "\<And>r. key (f r) = key r"
  shows "find (\<lambda>r. key r = j) (map (\<lambda>r. if key r = k then f r else r) rows) =
     (if j = k then map_option f (find (\<lambda>r. key r = j) rows) else find (\<lambda>r. key r = j) rows)"
  using assms by (induction rows) auto

lemma represents_update:
  assumes "represents key enc ok rows m" and "fmlookup m k = Some v" and "f (enc k v) = enc k v'"
    and "ok v'" and "key (enc k v') = k" and "\<And>r. key (f r) = key r"
  shows "represents key enc ok (map (\<lambda>r. if key r = k then f r else r) rows) (fmupd k v' m)"
proof -
  have "map key (map (\<lambda>r. if key r = k then f r else r) rows) = map key rows"
    using assms(6) by (simp add: comp_def)
  then show ?thesis
    using assms unfolding represents_def find_map_update [of key f, OF assms(6)]
    by (auto simp: comp_def simp del: map_map)
qed

text \<open>
  An ordered selection: filtering and sorting the rows is the encoding of filtering and sorting the
  values, when the sort key identifies the value.
\<close>

lemma represents_select:
  fixes m :: "('k::linorder, 'v) fmap" and h :: "'v \<Rightarrow> 'o::linorder"
  assumes rep: "represents key (\<lambda>_. enc) ok rows m"
    and P: "\<And>v. ok v \<Longrightarrow> P (enc v) \<longleftrightarrow> Q v"
    and g: "\<And>v. ok v \<Longrightarrow> Q v \<Longrightarrow> g (enc v) = h v"
    and inj: "\<And>u v. u \<in> set (fmvalues m) \<Longrightarrow> v \<in> set (fmvalues m) \<Longrightarrow> Q u \<Longrightarrow> Q v \<Longrightarrow> h u = h v \<Longrightarrow> u = v"
  shows "sort_key g (filter P rows) = map enc (sort_key h (filter Q (fmvalues m)))"
proof -
  have ok: "ok v" if "v \<in> set (fmvalues m)" for v
    using that represents_ok [OF rep] by (auto simp: set_fmvalues)
  have key: "key (enc v) = k" if "fmlookup m k = Some v" for k v
    using that represents_ok [OF rep] by auto
  have dist_vals: "distinct (fmvalues m)"
    by (rule distinct_fmvalues [where f = "\<lambda>v. key (enc v)"]) (simp add: key)
  have inj_enc: "inj_on enc (set (fmvalues m))"
  proof (rule inj_onI)
    fix u v assume uv: "u \<in> set (fmvalues m)" "v \<in> set (fmvalues m)" "enc u = enc v"
    then obtain i j where "fmlookup m i = Some u" "fmlookup m j = Some v"
      by (auto simp: set_fmvalues)
    with uv key show "u = v" by (metis option.inject)
  qed
  have rows: "set rows = enc ` set (fmvalues m)"
    using represents_in_rows [OF rep]
    by (auto simp: set_fmvalues elim!: represents_row [OF rep])
  have sorted: "sorted (map g (map enc (sort_key h (filter Q (fmvalues m)))))"
  proof -
    have "map g (map enc (sort_key h (filter Q (fmvalues m)))) = map h (sort_key h (filter Q (fmvalues m)))"
      using g ok by (auto simp: comp_def)
    then show ?thesis by (simp del: map_map)
  qed
  let ?A = "sort_key g (filter P rows)" and ?B = "map enc (sort_key h (filter Q (fmvalues m)))"
  have set_eq: "set ?A = set ?B"
    using rows P ok by auto
  have "inj_on g (set ?B)"
    using g ok inj by (auto simp: inj_on_def)
  moreover have "distinct (map g ?B)"
  proof -
    have "inj_on enc {x \<in> set (fmvalues m). Q x}"
      using inj_enc by (rule inj_on_subset) auto
    with dist_vals \<open>inj_on g (set ?B)\<close> show ?thesis
      by (auto simp: distinct_map intro: comp_inj_on)
  qed
  moreover have "distinct ?A"
    using rep by (auto simp: represents_def distinct_map)
  ultimately show ?thesis
    using sorted set_eq
    by (intro map_sorted_distinct_set_unique [where f = g]) (auto simp: distinct_map)
qed

section \<open>The database and the in-memory state\<close>

definition events_match :: "event_row list \<Rightarrow> mem_state \<Rightarrow> bool" where
  "events_match rows s \<longleftrightarrow>
     (\<forall>tid. filter (\<lambda>r. el_task_id r = tid) rows = map event_to_row (mem_history s tid))"

text \<open>
  Deactivated rows stay in \<open>leases\<close>; the active ones represent the lease map. \<open>owner\<close> is the task a
  lease identifier was made for: identifiers are never shared between tasks.
\<close>

definition leases_match ::
  "(lease_id \<Rightarrow> task_id) \<Rightarrow> lease_row list \<Rightarrow> (task_id, lease_record) fmap \<Rightarrow> bool" where
  "leases_match owner rows m \<longleftrightarrow>
     represents ll_task_id (\<lambda>_. lease_to_row) valid_lease (filter ll_active rows) m \<and>
     distinct (map ll_task_id rows) \<and>
     (\<forall>r \<in> set rows. owner (ll_lease_id r) = ll_task_id r)"

abbreviation tasks_match :: "task_row list \<Rightarrow> (task_id, task_record) fmap \<Rightarrow> bool" where
  "tasks_match \<equiv> represents tk_task_id (\<lambda>_. task_to_row) valid_task"

abbreviation envelopes_match ::
  "task_envelope_record list \<Rightarrow> (task_id, task_envelope_record) fmap \<Rightarrow> bool" where
  "envelopes_match \<equiv> represents er_task_id (\<lambda>_ e. e) (\<lambda>e. valid_id (er_task_id e))"

abbreviation contexts_match ::
  "transport_context list \<Rightarrow> (task_id, transport_context) fmap \<Rightarrow> bool" where
  "contexts_match \<equiv> represents tc_task_id (\<lambda>_ c. c) valid_context"

abbreviation results_match :: "result_row list \<Rightarrow> (task_id, terminal_result) fmap \<Rightarrow> bool" where
  "results_match \<equiv> represents rs_task_id (\<lambda>_. result_to_row) valid_result"

text \<open>
  The in-memory outbox holds every delivery as it was enqueued; the rows of \<open>result_outbox\<close> go
  through delivery attempts, so they agree with it on the key and the addressee only. \<open>delivery_ok\<close>
  is what the attempts keep of a row.
\<close>

definition delivery_ok :: "outbox_row \<Rightarrow> bool" where
  "delivery_ok r \<longleftrightarrow>
     ox_state r \<in> set (map delivery_state_as_str [DPending, DLeased, DDelivered, DDeadLettered]) \<and>
     0 \<le> ox_attempt_count r \<and> ox_attempt_count r \<le> max_result_delivery_attempts \<and>
     (ox_state r \<in> {''pending'', ''leased''} \<longrightarrow> ox_attempt_count r < max_result_delivery_attempts) \<and>
     (ox_state r = ''leased'' \<longleftrightarrow> ox_lease_owner r \<noteq> None) \<and>
     (ox_lease_owner r \<noteq> None \<longleftrightarrow> ox_lease_expires_at_ms r \<noteq> None)"

definition addressed_to :: "outbox_row \<Rightarrow> result_outbox_record \<Rightarrow> bool" where
  "addressed_to r ob \<longleftrightarrow>
     ox_task_id r = ob_task_id ob \<and> ox_target_peer_id r = ob_target_peer_id ob \<and>
     ox_created_at_ms r = ob_created_at_ms ob \<and> valid_outbox ob"

definition outbox_matches :: "outbox_row list \<Rightarrow> (string, result_outbox_record) fmap \<Rightarrow> bool" where
  "outbox_matches rows m \<longleftrightarrow>
     distinct (map ox_delivery_id rows) \<and>
     (\<forall>d. list_ex (\<lambda>r. ox_delivery_id r = d) rows \<longleftrightarrow> fmlookup m d \<noteq> None) \<and>
     (\<forall>r ob. r \<in> set rows \<longrightarrow> fmlookup m (ox_delivery_id r) = Some ob \<longrightarrow> delivery_ok r \<and> addressed_to r ob)"

lemma outbox_matches_empty: "outbox_matches [] fmempty"
  by (simp add: outbox_matches_def)

lemma outbox_matches_row:
  assumes "outbox_matches rows m" and "r \<in> set rows"
  obtains ob where "fmlookup m (ox_delivery_id r) = Some ob" and "delivery_ok r" and "addressed_to r ob"
proof -
  have "list_ex (\<lambda>x. ox_delivery_id x = ox_delivery_id r) rows"
    using assms(2) by (auto simp: list_ex_iff)
  with assms(1) obtain ob where "fmlookup m (ox_delivery_id r) = Some ob"
    unfolding outbox_matches_def by auto
  with assms that show thesis
    unfolding outbox_matches_def by auto
qed

lemma outbox_matches_absent:
  "outbox_matches rows m \<Longrightarrow> list_ex (\<lambda>r. ox_delivery_id r = d) rows \<longleftrightarrow> fmlookup m d \<noteq> None"
  by (simp add: outbox_matches_def)

lemma outbox_matches_insert:
  assumes m: "outbox_matches rows m" and new: "fmlookup m d = None" and "ox_delivery_id r = d"
    and "delivery_ok r" and "addressed_to r ob"
  shows "outbox_matches (rows @ [r]) (fmupd d ob m)"
proof -
  have "\<not> list_ex (\<lambda>x. ox_delivery_id x = d) rows"
    using outbox_matches_absent [OF m] new by simp
  then have "d \<notin> ox_delivery_id ` set rows"
    by (auto simp: list_ex_iff)
  with assms show ?thesis
    unfolding outbox_matches_def by (auto simp: list_ex_iff)
qed

lemma outbox_matches_map:
  assumes m: "outbox_matches rows m"
    and f: "\<And>r. r \<in> set rows \<Longrightarrow> delivery_ok r \<Longrightarrow> delivery_ok (f r)"
    and key: "\<And>r. ox_delivery_id (f r) = ox_delivery_id r"
      "\<And>r ob. addressed_to r ob \<Longrightarrow> addressed_to (f r) ob"
  shows "outbox_matches (map f rows) m"
  unfolding outbox_matches_def
proof (intro conjI allI impI)
  show "distinct (map ox_delivery_id (map f rows))"
    using m key by (simp add: outbox_matches_def comp_def)
  show "list_ex (\<lambda>r. ox_delivery_id r = d) (map f rows) \<longleftrightarrow> fmlookup m d \<noteq> None" for d
    using outbox_matches_absent [OF m, of d] by (simp add: list_ex_iff key)
  fix r ob assume "r \<in> set (map f rows)" and ob: "fmlookup m (ox_delivery_id r) = Some ob"
  then obtain x where x: "x \<in> set rows" "r = f x" by auto
  with ob m have "delivery_ok x" "addressed_to x ob"
    unfolding outbox_matches_def by (auto simp: key)
  with x f key show "delivery_ok r" "addressed_to r ob" by auto
qed

abbreviation idempotency_matches ::
  "(string \<times> string) list \<Rightarrow> (idempotency_key, task_id) fmap \<Rightarrow> bool" where
  "idempotency_matches \<equiv> represents fst Pair valid_id"

definition matches :: "(lease_id \<Rightarrow> task_id) \<Rightarrow> sql_db \<Rightarrow> mem_state \<Rightarrow> bool" where
  "matches owner db s \<longleftrightarrow>
     mem_inv s \<and> (\<forall>tid. sourced tid (mem_observe s tid)) \<and>
     tasks_match (db_tasks db) (ms_tasks s) \<and>
     events_match (db_events db) s \<and>
     leases_match owner (db_leases db) (ms_leases s) \<and>
     idempotency_matches (db_idempotency_keys db) (ms_idempotency s) \<and>
     envelopes_match (db_task_envelopes db) (ms_envelopes s) \<and>
     contexts_match (db_transport_context db) (ms_transport_contexts s) \<and>
     results_match (db_terminal_results db) (ms_terminal_results s) \<and>
     outbox_matches (db_result_outbox db) (ms_result_outbox s)"

lemma matches_inv: "matches owner db s \<Longrightarrow> mem_inv s"
  by (simp add: matches_def)

lemma matches_sourced: "matches owner db s \<Longrightarrow> sourced tid (mem_observe s tid)"
  by (simp add: matches_def)

lemma matches_valid_task:
  "matches owner db s \<Longrightarrow> fmlookup (ms_tasks s) tid = Some t \<Longrightarrow> valid_task t \<and> tr_id t = tid"
  using represents_ok [of tk_task_id "\<lambda>_. task_to_row" valid_task "db_tasks db" "ms_tasks s" tid t]
  by (simp add: matches_def task_to_row_def)

lemma matches_init: "matches owner sql_init mem_init"
  by (simp add: matches_def sql_init_def represents_empty events_match_def leases_match_def
      mem.start_inv mem.start_empty sourced_def mem_history_def)
    (simp add: mem_init_def represents_empty outbox_matches_empty mem_history_def)

end
