(* ===== verification/Artifact_Contract.thy ===== *)
theory Artifact_Contract
  imports Artifact_Store Sql_Tables Task_Store
begin

text \<open>
  The contract of an artifact store: a finite map from artifact identifiers to records with their
  content. The laws say what put, get and delete do to the map; the client lemmas are proved once
  and hold for both backends. Content addressing is part of the contract: a blob that no artifact
  refers to is gone, and a shared blob stays as long as one artifact refers to it.
\<close>

section \<open>The abstract store\<close>

type_synonym artifact_map = "(artifact_id, artifact_record \<times> bytes) fmap"

definition valid_artifact :: "artifact_record \<Rightarrow> bool" where
  "valid_artifact a \<longleftrightarrow>
     valid_id (ar_artifact_id a) \<and> valid_id (ar_task_id a) \<and>
     digest_new (ar_digest a) = Inr (ar_digest a) \<and> media_type_new (ar_media_type a) = ar_media_type a"

definition artifact_ok :: "(bytes \<Rightarrow> bytes) \<Rightarrow> artifact_record \<times> bytes \<Rightarrow> bool" where
  "artifact_ok sha256 p \<longleftrightarrow>
     (case p of (a, content) \<Rightarrow>
        valid_artifact a \<and> ar_digest a = digest_compute sha256 content \<and>
        ar_byte_len a = length content \<and> ar_inline a = should_inline (length content))"

text \<open>The artifacts whose content is the blob \<open>d\<close>.\<close>

definition ref_set :: "artifact_map \<Rightarrow> digest \<Rightarrow> artifact_id set" where
  "ref_set m d = {k. \<exists>a content. fmlookup m k = Some (a, content) \<and> \<not> ar_inline a \<and> ar_digest a = d}"

definition blob_refs :: "artifact_map \<Rightarrow> digest \<Rightarrow> nat" where
  "blob_refs m d = card (ref_set m d)"

definition sha_ok :: "(bytes \<Rightarrow> bytes) \<Rightarrow> bool" where
  "sha_ok sha256 \<longleftrightarrow> (\<forall>content. length (sha256 content) = 32)"

text \<open>
  What a caller of \<open>put_artifact\<close> supplies: values of the newtypes, the right digest, and content
  that does not collide with stored content under SHA-256.
\<close>

definition storable :: "(bytes \<Rightarrow> bytes) \<Rightarrow> artifact_map \<Rightarrow> artifact_meta \<Rightarrow> bytes \<Rightarrow> bool" where
  "storable sha256 m meta content \<longleftrightarrow>
     length content \<le> max_blob_bytes \<and> am_digest meta = digest_compute sha256 content \<and>
     valid_id (am_artifact_id meta) \<and> valid_id (am_task_id meta) \<and>
     media_type_new (am_media_type meta) = am_media_type meta \<and>
     (\<forall>k a c. fmlookup m k = Some (a, c) \<longrightarrow> digest_compute sha256 c = digest_compute sha256 content \<longrightarrow> c = content)"

abbreviation stored_as :: "(bytes \<Rightarrow> bytes) \<Rightarrow> artifact_meta \<Rightarrow> bytes \<Rightarrow> artifact_record" where
  "stored_as sha256 meta content \<equiv>
     artifact_record_from_meta meta (digest_compute sha256 content) (length content)"

lemma finite_ref_set [simp]: "finite (ref_set m d)"
  by (rule finite_subset [of _ "fmdom' m"]) (auto simp: ref_set_def fmlookup_dom'_iff)

lemma ref_set_upd:
  "ref_set (fmupd k (a, c) m) d =
     (if \<not> ar_inline a \<and> ar_digest a = d then insert k (ref_set (fmdrop k m) d) else ref_set (fmdrop k m) d)"
  by (auto simp: ref_set_def split: if_splits)

lemma ref_set_drop: "ref_set (fmdrop k m) d = ref_set m d - {k}"
  by (auto simp: ref_set_def)

lemma blob_refs_upd:
  "blob_refs (fmupd k (a, c) m) d = blob_refs (fmdrop k m) d + (if \<not> ar_inline a \<and> ar_digest a = d then 1 else 0)"
  by (simp add: blob_refs_def ref_set_upd ref_set_drop card.insert_remove)

lemma blob_refs_drop:
  "blob_refs m d = blob_refs (fmdrop k m) d +
     (case fmlookup m k of Some (a, c) \<Rightarrow> if \<not> ar_inline a \<and> ar_digest a = d then 1 else 0 | None \<Rightarrow> 0)"
proof (cases "k \<in> ref_set m d")
  case True
  then have "card (ref_set m d) = Suc (card (ref_set m d - {k}))"
    using card_Suc_Diff1 [OF finite_ref_set True] by simp
  with True show ?thesis
    by (auto simp: blob_refs_def ref_set_drop) (auto simp: ref_set_def)
next
  case False
  then have "ref_set m d - {k} = ref_set m d" by blast
  then have "blob_refs (fmdrop k m) d = blob_refs m d"
    by (simp add: blob_refs_def ref_set_drop)
  moreover have "(case fmlookup m k of Some (a, c) \<Rightarrow> if \<not> ar_inline a \<and> ar_digest a = d then 1 else 0
      | None \<Rightarrow> 0) = (0 :: nat)"
    using False by (auto simp: ref_set_def split: option.split)
  ultimately show ?thesis by simp
qed

lemma blob_refs_pos:
  "fmlookup m k = Some (a, c) \<Longrightarrow> \<not> ar_inline a \<Longrightarrow> 0 < blob_refs m (ar_digest a)"
proof -
  assume "fmlookup m k = Some (a, c)" and "\<not> ar_inline a"
  then have "k \<in> ref_set m (ar_digest a)" by (auto simp: ref_set_def)
  then show ?thesis by (auto simp: blob_refs_def card_gt_0_iff)
qed

lemma blob_refsE:
  assumes "0 < blob_refs m d"
  obtains k a c where "fmlookup m k = Some (a, c)" and "\<not> ar_inline a" and "ar_digest a = d"
  using assms by (auto simp: blob_refs_def card_gt_0_iff ref_set_def)

lemma storable_ok:
  "sha_ok sha256 \<Longrightarrow> storable sha256 m meta content \<Longrightarrow>
     artifact_ok sha256 (stored_as sha256 meta content, content) \<and>
     check_artifact sha256 meta content = Inr (digest_compute sha256 content)"
  by (auto simp: storable_def artifact_ok_def valid_artifact_def artifact_record_from_meta_def check_artifact_def
      sha_ok_def validate_artifact_size_def digest_new_compute)

section \<open>Sequences of operations\<close>

datatype artifact_op = PutArtifact artifact_meta bytes | DeleteArtifact artifact_id

datatype artifact_reply = Stored "store_error + artifact_record" | Deleted "store_error + unit"

definition artifact_exec ::
  "((bytes \<Rightarrow> bytes) \<Rightarrow> artifact_meta \<Rightarrow> bytes \<Rightarrow> 's \<Rightarrow> (store_error + artifact_record) \<times> 's) \<Rightarrow>
   (artifact_id \<Rightarrow> 's \<Rightarrow> (store_error + unit) \<times> 's) \<Rightarrow> (bytes \<Rightarrow> bytes) \<Rightarrow> artifact_op \<Rightarrow> 's \<Rightarrow> artifact_reply \<times> 's" where
  "artifact_exec put delete sha256 oper s =
     (case oper of
        PutArtifact meta content \<Rightarrow> apfst Stored (put sha256 meta content s)
      | DeleteArtifact aid \<Rightarrow> apfst Deleted (delete aid s))"

text \<open>The same operations on the abstract map.\<close>

fun artifact_spec :: "(bytes \<Rightarrow> bytes) \<Rightarrow> artifact_op \<Rightarrow> artifact_map \<Rightarrow> artifact_reply \<times> artifact_map" where
  "artifact_spec sha256 (PutArtifact meta content) m =
     (Stored (Inr (stored_as sha256 meta content)), fmupd (am_artifact_id meta) (stored_as sha256 meta content, content) m)"
| "artifact_spec sha256 (DeleteArtifact aid) m =
     (Deleted (if fmlookup m aid = None then Inl (ArtifactNotFound aid) else Inr ()), fmdrop aid m)"

fun artifacts_fit ::
  "(bytes \<Rightarrow> bytes) \<Rightarrow> (task_id \<Rightarrow> bool) \<Rightarrow> (artifact_map \<Rightarrow> bool) \<Rightarrow> artifact_op list \<Rightarrow> artifact_map \<Rightarrow> bool" where
  "artifacts_fit sha256 known room [] m = True"
| "artifacts_fit sha256 known room (oper # opers) m =
     ((case oper of
         PutArtifact meta content \<Rightarrow> storable sha256 m meta content \<and> known (am_task_id meta) \<and> room m
       | DeleteArtifact _ \<Rightarrow> True) \<and>
      artifacts_fit sha256 known room opers (snd (artifact_spec sha256 oper m)))"

section \<open>The contract\<close>

locale artifact_store =
  fixes put :: "(bytes \<Rightarrow> bytes) \<Rightarrow> artifact_meta \<Rightarrow> bytes \<Rightarrow> 's \<Rightarrow> (store_error + artifact_record) \<times> 's"
    and get :: "(bytes \<Rightarrow> bytes) \<Rightarrow> artifact_id \<Rightarrow> 's \<Rightarrow> store_error + (artifact_record \<times> bytes)"
    and delete :: "artifact_id \<Rightarrow> 's \<Rightarrow> (store_error + unit) \<times> 's"
    and holds :: "(bytes \<Rightarrow> bytes) \<Rightarrow> 's \<Rightarrow> artifact_map \<Rightarrow> bool"
    and known :: "'s \<Rightarrow> task_id \<Rightarrow> bool"
    and room :: "artifact_map \<Rightarrow> bool"
  assumes get_law: "sha_ok sha256 \<Longrightarrow> holds sha256 s m \<Longrightarrow>
      get sha256 aid s = ok_or (fmlookup m aid) (ArtifactNotFound aid)"
    and put_law: "sha_ok sha256 \<Longrightarrow> holds sha256 s m \<Longrightarrow> storable sha256 m meta content \<Longrightarrow>
      known s (am_task_id meta) \<Longrightarrow> room m \<Longrightarrow>
      \<exists>s'. put sha256 meta content s = (Inr (stored_as sha256 meta content), s') \<and>
        holds sha256 s' (fmupd (am_artifact_id meta) (stored_as sha256 meta content, content) m)"
    and put_digest: "am_digest meta \<noteq> digest_compute sha256 content \<Longrightarrow>
      \<exists>e. put sha256 meta content s = (Inl e, s)"
    and delete_law: "sha_ok sha256 \<Longrightarrow> holds sha256 s m \<Longrightarrow>
      holds sha256 (snd (delete aid s)) (fmdrop aid m) \<and>
      fst (delete aid s) = (if fmlookup m aid = None then Inl (ArtifactNotFound aid) else Inr ())"
    and put_known: "known (snd (put sha256 meta content s)) = known s"
    and delete_known: "known (snd (delete aid s)) = known s"
begin

lemma put_then_get:
  assumes "sha_ok sha256" and "holds sha256 s m" and "storable sha256 m meta content"
    and "known s (am_task_id meta)" and "room m"
  shows "get sha256 (am_artifact_id meta) (snd (put sha256 meta content s)) =
      Inr (stored_as sha256 meta content, content)"
  using put_law [OF assms] get_law [OF assms(1)] by (auto simp: ok_or_def)

lemma delete_then_get:
  assumes "sha_ok sha256" and "holds sha256 s m"
  shows "get sha256 aid (snd (delete aid' s)) =
    (if aid = aid' then Inl (ArtifactNotFound aid) else get sha256 aid s)"
  using delete_law [OF assms, of aid'] get_law [OF assms(1)] assms(2) by (auto simp: ok_or_def)

text \<open>Every fitting sequence of operations behaves like the map.\<close>

lemma exec_refines:
  assumes "sha_ok sha256" and "holds sha256 s m" and "artifacts_fit sha256 (known s) room [oper] m"
  shows "fst (artifact_exec put delete sha256 oper s) = fst (artifact_spec sha256 oper m)"
    and "holds sha256 (snd (artifact_exec put delete sha256 oper s)) (snd (artifact_spec sha256 oper m))"
    and "known (snd (artifact_exec put delete sha256 oper s)) = known s"
proof -
  have "fst (artifact_exec put delete sha256 oper s) = fst (artifact_spec sha256 oper m) \<and>
    holds sha256 (snd (artifact_exec put delete sha256 oper s)) (snd (artifact_spec sha256 oper m)) \<and>
    known (snd (artifact_exec put delete sha256 oper s)) = known s"
  proof (cases oper)
    case (PutArtifact meta content)
    with assms put_law [of sha256 s m meta content] put_known [of sha256 meta content s] show ?thesis
      by (auto simp: artifact_exec_def)
  next
    case (DeleteArtifact aid)
    with delete_law [OF assms(1,2), of aid] delete_known [of aid s] show ?thesis
      by (simp add: artifact_exec_def)
  qed
  then show "fst (artifact_exec put delete sha256 oper s) = fst (artifact_spec sha256 oper m)"
    "holds sha256 (snd (artifact_exec put delete sha256 oper s)) (snd (artifact_spec sha256 oper m))"
    "known (snd (artifact_exec put delete sha256 oper s)) = known s" by simp_all
qed

lemma run_refines:
  "sha_ok sha256 \<Longrightarrow> holds sha256 s m \<Longrightarrow> artifacts_fit sha256 (known s) room opers m \<Longrightarrow>
     replies (artifact_exec put delete sha256) opers s = replies (artifact_spec sha256) opers m \<and>
     holds sha256 (run_ops (artifact_exec put delete sha256) opers s) (run_ops (artifact_spec sha256) opers m)"
proof (induction opers arbitrary: s m)
  case (Cons oper opers)
  from Cons.prems have "artifacts_fit sha256 (known s) room [oper] m" by simp
  note step = exec_refines [OF Cons.prems(1,2) this]
  from Cons.IH [OF Cons.prems(1) step(2)] step Cons.prems(3) show ?case by simp
qed simp

end

end
