(* ===== verification/Sql_Refinement.thy ===== *)
theory Sql_Refinement
  imports Sql_Tables
begin

text \<open>
  The SQLite store refines the in-memory store. From matching states every admissible operation gives
  the same reply and ends in matching states. The proofs go along the structure of the two definitions:
  \<open>sim_bind\<close> steps over one \<open>?\<close> on both sides, and \<open>commit_event\<close> closes a branch that appends an event.
\<close>

section \<open>Admissible operations\<close>

text \<open>
  What the theorems ask of an operation. Its identifiers are valid, which the newtypes of the code
  guarantee. The rest is asked of the caller: a task is submitted through \<open>accept_task\<close> as pending (the
  backends refuse another status with different errors), a lease names its task and a worker (both
  backends refuse it otherwise), a lease identifier is used for one task only, and a limit fits the
  \<open>i64\<close> that SQLite binds it to.
\<close>

definition limit_ok :: "nat option \<Rightarrow> bool" where
  "limit_ok limit = (case limit of None \<Rightarrow> True | Some n \<Rightarrow> n < 2 ^ 63)"

fun typed_op :: "(lease_id \<Rightarrow> task_id) \<Rightarrow> store_op \<Rightarrow> bool" where
  "typed_op owner (AcceptTask t) = (valid_task t \<and> tr_status t = Pending)"
| "typed_op owner (AcceptTaskWithEnvelope t env) = (valid_task t \<and> valid_id (er_task_id env))"
| "typed_op owner (AcceptTaskWithContext t env ctx) =
     (valid_task t \<and> valid_id (er_task_id env) \<and> valid_context ctx)"
| "typed_op owner (PutTransportContext ctx) = valid_context ctx"
| "typed_op owner (LeaseTask tid lease _) =
     (valid_lease lease \<and> lr_task_id lease = tid \<and> lr_worker_id lease \<noteq> None \<and>
      owner (lr_lease_id lease) = tid)"
| "typed_op owner (FailExpiredDeadlines _ limit) = limit_ok limit"
| "typed_op owner (RecoverStaleLeases _ limit) = limit_ok limit"
| "typed_op owner (CancelTaskWithResult _ _ _ _ r) = valid_result r"
| "typed_op owner (CompleteTaskWithResult _ _ _ r) = valid_result r"
| "typed_op owner (FailTaskWithResult _ _ _ _ _ r) = valid_result r"
| "typed_op owner _ = True"

definition sql_admissible :: "(lease_id \<Rightarrow> task_id) \<Rightarrow> store_op \<Rightarrow> bool" where
  "sql_admissible owner oper \<longleftrightarrow> admissible oper \<and> typed_op owner oper"

section \<open>Fetches agree\<close>

lemma transposeR_round:
  "(\<And>v. x = Some v \<Longrightarrow> dec (enc v) = Inr v) \<Longrightarrow> transposeR (map_option dec (map_option enc x)) = Inr x"
  by (cases x) simp_all

lemma fetch_task_optional:
  assumes "matches owner db s"
  shows "fetch_task_optional_with_executor tid db = Inr (fmlookup (ms_tasks s) tid)"
proof -
  have rep: "tasks_match (db_tasks db) (ms_tasks s)"
    using assms by (simp add: matches_def)
  show ?thesis
    using represents_ok [OF rep] unfolding fetch_task_optional_with_executor_def represents_find [OF rep]
    by (intro transposeR_round) simp
qed

lemma fetch_task:
  "matches owner db s \<Longrightarrow> fetch_task_with_executor tid db = find_task s tid"
  by (simp add: fetch_task_with_executor_def fetch_task_optional)

lemma get_task: "matches owner db s \<Longrightarrow> sql_get_task tid db = find_task s tid"
proof -
  assume "matches owner db s"
  then have rep: "tasks_match (db_tasks db) (ms_tasks s)"
    by (simp add: matches_def)
  show ?thesis
    using represents_ok [OF rep, of tid] unfolding sql_get_task_def represents_find [OF rep]
    by (cases "fmlookup (ms_tasks s) tid") auto
qed

lemma fetch_lease:
  assumes "matches owner db s"
  shows "fetch_active_lease_with_executor tid db = Inr (fmlookup (ms_leases s) tid)"
proof -
  have rep: "represents ll_task_id (\<lambda>_. lease_to_row) valid_lease (filter ll_active (db_leases db)) (ms_leases s)"
    using assms by (simp add: matches_def leases_match_def)
  show ?thesis
    using represents_ok [OF rep]
    unfolding fetch_active_lease_with_executor_def find_filter represents_find [OF rep]
    by (intro transposeR_round) simp
qed

lemma fetch_envelope:
  assumes "matches owner db s"
  shows "fetch_task_envelope_optional_with_executor tid db = Inr (fmlookup (ms_envelopes s) tid)"
proof -
  have rep: "envelopes_match (db_task_envelopes db) (ms_envelopes s)"
    using assms by (simp add: matches_def)
  show ?thesis
    using represents_ok [OF rep]
    unfolding fetch_task_envelope_optional_with_executor_def represents_find [OF rep]
    by (intro transposeR_round row_to_task_envelope_round) blast
qed

lemma fetch_context:
  assumes "matches owner db s"
  shows "fetch_transport_context_optional tid db = Inr (fmlookup (ms_transport_contexts s) tid)"
proof -
  have rep: "contexts_match (db_transport_context db) (ms_transport_contexts s)"
    using assms by (simp add: matches_def)
  show ?thesis
    using represents_ok [OF rep]
    unfolding fetch_transport_context_optional_def represents_find [OF rep]
    by (intro transposeR_round) simp
qed

lemma fetch_result:
  assumes "matches owner db s"
  shows "fetch_terminal_result_optional tid db = Inr (fmlookup (ms_terminal_results s) tid)"
proof -
  have rep: "results_match (db_terminal_results db) (ms_terminal_results s)"
    using assms by (simp add: matches_def)
  show ?thesis
    using represents_ok [OF rep]
    unfolding fetch_terminal_result_optional_def represents_find [OF rep]
    by (intro transposeR_round) simp
qed

lemma find_task_row:
  "matches owner db s \<Longrightarrow>
     find (\<lambda>r. tk_task_id r = tid) (db_tasks db) = map_option task_to_row (fmlookup (ms_tasks s) tid)"
  unfolding matches_def by (elim conjE represents_find)

lemma find_idempotency_row:
  "matches owner db s \<Longrightarrow> find_idempotency key db =
     map_option (Pair (the key)) (Option.bind key (fmlookup (ms_idempotency s)))"
  unfolding matches_def find_idempotency_def
  by (cases key) (auto dest: represents_find)

lemmas fetches = fetch_task_optional fetch_task get_task fetch_lease fetch_envelope fetch_context
  fetch_result find_task_row find_idempotency_row

section \<open>Events\<close>

lemma matched_history_gapless:
  assumes "matches owner db s" and "k < length (mem_history s tid)"
  shows "ev_sequence (mem_history s tid ! k) = k + 1 \<and> ev_task_id (mem_history s tid ! k) = tid"
  using matches_sourced [OF assms(1), of tid] assms(2)
  by (cases "fmlookup (ms_tasks s) tid")
    (auto simp: sourced_def mem_observe_def dest: replays_to_gapless)

lemma history_sequences:
  assumes "matches owner db s"
  shows "map ev_sequence (mem_history s tid) = [1..<length (mem_history s tid) + 1]"
  by (rule nth_equalityI) (simp_all add: matched_history_gapless [OF assms] nth_upt del: upt_Suc)

lemma event_rows:
  "matches owner db s \<Longrightarrow>
     filter (\<lambda>r. el_task_id r = tid) (db_events db) = map event_to_row (mem_history s tid)"
  by (simp add: matches_def events_match_def)

lemma row_sequences: "map el_sequence (map event_to_row evs) = map ev_sequence evs"
  by (simp add: event_to_row_def)

lemma fold_max_upt: "fold max [1..<n + 1] (0 :: nat) = n"
  by (induction n) simp_all

lemma next_sequence:
  "matches owner db s \<Longrightarrow> next_sequence_with_executor tid db = length (mem_history s tid) + 1"
  unfolding next_sequence_with_executor_def
  by (simp only: event_rows row_sequences history_sequences fold_max_upt)

lemma select_events_rows:
  assumes "matches owner db s"
  shows "select_events tid db = map event_to_row (mem_history s tid)"
proof -
  have "sorted (map el_sequence (map event_to_row (mem_history s tid)))"
    unfolding row_sequences history_sequences [OF assms] by (simp del: upt_Suc)
  then show ?thesis
    unfolding select_events_def event_rows [OF assms] by (rule sort_key_id_if_sorted)
qed

lemma history_valid:
  assumes "matches owner db s" and "e \<in> set (mem_history s tid)"
  shows "valid_id (ev_task_id e)"
proof -
  from assms have "ev_task_id e = tid"
    using matched_history_gapless by (metis in_set_conv_nth)
  moreover have "fmlookup (ms_tasks s) tid \<noteq> None"
    using assms mem_inv_events [OF matches_inv [OF assms(1)], of tid]
    by (auto simp: mem_history_def split: option.splits)
  ultimately show ?thesis
    using matches_valid_task [OF assms(1), of tid] by (auto simp: valid_task_def)
qed

lemma decode_history:
  "matches owner db s \<Longrightarrow> mapR row_to_event (map event_to_row (mem_history s tid)) = Inr (mem_history s tid)"
  by (intro mapR_round row_to_event_round history_valid)

section \<open>Simulation, step by step\<close>

definition sim :: "(lease_id \<Rightarrow> task_id) \<Rightarrow> 'a sql_result \<Rightarrow> 'a mem_result \<Rightarrow> bool" where
  "sim owner r r' \<longleftrightarrow> matches owner (snd r) (snd r') \<and> fst r = fst r'"

lemma sim_bind:
  assumes "matches owner db s" and "g = g'"
    and "\<And>a. g' = Inr a \<Longrightarrow> sim owner (transaction db (body a)) (mbody a)"
  shows "sim owner (transaction db (bindR g body)) (attempt g' s mbody)"
  using assms by (cases g') (auto simp: sim_def transaction_def)

lemma sim_attempt:
  assumes "matches owner db s" and "\<And>a. g = Inr a \<Longrightarrow> sim owner (body a) (mbody a)"
  shows "sim owner (attempt g db body) (attempt g s mbody)"
  using assms by (cases g) (auto simp: sim_def)

lemma sim_error: "matches owner db s \<Longrightarrow> sim owner (transaction db (Inl e)) (Inl e, s)"
  by (simp add: sim_def transaction_def)

lemma sim_commit: "matches owner db' s' \<Longrightarrow> sim owner (transaction db (commit a db')) (Inr a, s')"
  by (simp add: sim_def transaction_def commit_def)

lemma sim_committed: "matches owner db' s' \<Longrightarrow> r = r' \<Longrightarrow> sim owner (transaction db (Inr (r, db'))) (r', s')"
  by (simp add: sim_def transaction_def)

lemma sim_if:
  assumes "c \<Longrightarrow> sim owner (transaction db x) u" and "\<not> c \<Longrightarrow> sim owner (transaction db y) v"
  shows "sim owner (transaction db (if c then x else y)) (if c then u else v)"
  using assms by simp

lemma bindR_assoc: "bindR (bindR r f) k = bindR r (\<lambda>a. bindR (f a) k)"
  by (cases r) auto

section \<open>Leases\<close>

lemma leases_match_release:
  assumes "leases_match owner rows m"
  shows "leases_match owner
    (map (\<lambda>r. if ll_task_id r = tid \<and> ll_active r then r\<lparr>ll_active := False\<rparr> else r) rows) (fmdrop tid m)"
    (is "leases_match owner (map ?f rows) _")
proof -
  have "filter ll_active (map ?f rows) = filter (\<lambda>r. ll_task_id r \<noteq> tid) (filter ll_active rows)"
    by (induction rows) auto
  moreover have "represents ll_task_id (\<lambda>_. lease_to_row) valid_lease
      (filter (\<lambda>r. ll_task_id r \<noteq> tid) (filter ll_active rows)) (fmdrop tid m)"
  proof -
    have find: "find (\<lambda>r. ll_task_id r = k) (filter (\<lambda>r. ll_task_id r \<noteq> tid) xs) =
        (if k = tid then None else find (\<lambda>r. ll_task_id r = k) xs)" for k and xs :: "lease_row list"
      by (induction xs) auto
    show ?thesis
      using assms unfolding leases_match_def represents_def find by (auto simp: distinct_map_filter)
  qed
  moreover have "map ll_task_id (map ?f rows) = map ll_task_id rows"
    by simp
  ultimately show ?thesis
    using assms by (auto simp: leases_match_def comp_def simp del: map_map)
qed

lemma leases_match_grant:
  assumes lm: "leases_match owner rows m" and none: "fmlookup m tid = None"
    and l: "valid_lease l" "lr_task_id l = tid" "owner (lr_lease_id l) = tid"
  shows "leases_match owner
    (filter (\<lambda>r. ll_lease_id r \<noteq> lr_lease_id l \<and> ll_task_id r \<noteq> tid) rows @ [lease_to_row l])
    (fmupd tid l m)"
proof -
  let ?rows = "filter (\<lambda>r. ll_lease_id r \<noteq> lr_lease_id l \<and> ll_task_id r \<noteq> tid) rows"
  have rep: "represents ll_task_id (\<lambda>_. lease_to_row) valid_lease (filter ll_active rows) m"
    using lm by (simp add: leases_match_def)
  have "ll_task_id r \<noteq> tid" if "r \<in> set rows" "ll_active r" for r
    using represents_absent [OF rep, of tid] none that by (auto simp: list_ex_iff)
  then have "ll_active r \<Longrightarrow> ll_lease_id r \<noteq> lr_lease_id l \<and> ll_task_id r \<noteq> tid" if "r \<in> set rows" for r
    using lm l that unfolding leases_match_def by metis
  then have "filter ll_active ?rows = filter ll_active rows"
    by (auto intro!: filter_cong)
  with represents_insert [OF rep none l(1)] lm l show ?thesis
    by (auto simp: leases_match_def lease_to_row_def distinct_map_filter)
qed

section \<open>One event and its snapshot\<close>

lemma history_append:
  "mem_history (put_task tid t' (append_in_memory_event tid ty from to s)) k =
     (if k = tid then mem_history s tid @
        [\<lparr>ev_task_id = tid, ev_sequence = length (mem_history s tid) + 1, ev_event_type = ty,
          ev_from_status = from, ev_to_status = to\<rparr>]
      else mem_history s k)"
  using arg_cong [OF mem_observe_commit [of tid t' ty "from" to s k], of snd]
  by (auto simp: mem_observe_def)

lemma matches_good_sourced:
  assumes "matches owner db s" and "mem_good s s'"
  shows "mem_inv s'" and "sourced tid (mem_observe s' tid)"
  using assms matches_sourced [OF assms(1), of tid]
  by (auto simp: mem_good_def intro: evolves_sourced)

lemma commit_event:
  assumes m: "matches owner db s" and t: "fmlookup (ms_tasks s) tid = Some t"
    and good: "mem_good s (put_task tid t' (append_in_memory_event tid ty from to (s\<lparr>ms_leases := ls\<rparr>)))"
    and leases: "leases_match owner lrows ls"
    and step: "task_step t ty t'"
    and f: "f (task_to_row t) = task_to_row t'" "\<And>r. tk_task_id (f r) = tk_task_id r"
  shows "\<exists>db'. insert_event tid (next_sequence_with_executor tid db) ty from to
      (update_tasks_where tid f (db\<lparr>db_leases := lrows\<rparr>)) = Inr db' \<and>
    matches owner db' (put_task tid t' (append_in_memory_event tid ty from to (s\<lparr>ms_leases := ls\<rparr>)))"
proof -
  let ?s = "put_task tid t' (append_in_memory_event tid ty from to (s\<lparr>ms_leases := ls\<rparr>))"
  let ?n = "length (mem_history s tid) + 1"
  let ?ev = "\<lparr>el_task_id = tid, el_sequence = ?n, el_event_type = event_type_to_str ty,
    el_from_status = map_option status_to_str from, el_to_status = status_to_str to\<rparr>"
  let ?db = "db\<lparr>db_leases := lrows,
    db_tasks := map (\<lambda>r. if tk_task_id r = tid then f r else r) (db_tasks db),
    db_events := db_events db @ [?ev]\<rparr>"
  have fresh: "\<not> list_ex (\<lambda>r. el_task_id r = tid \<and> el_sequence r = ?n) (db_events db)"
  proof
    assume "list_ex (\<lambda>r. el_task_id r = tid \<and> el_sequence r = ?n) (db_events db)"
    then have "?n \<in> set (map el_sequence (filter (\<lambda>r. el_task_id r = tid) (db_events db)))"
      by (force simp: list_ex_iff)
    then show False
      unfolding event_rows [OF m] row_sequences history_sequences [OF m] by simp
  qed
  have t': "tr_id t' = tid" "valid_task t'"
    using matches_valid_task [OF m t] task_step_same [OF step] by (auto simp: valid_task_def)
  have "tasks_match (db_tasks ?db) (ms_tasks ?s)"
    using represents_update [where key = tk_task_id and enc = "\<lambda>_. task_to_row" and ok = valid_task
        and rows = "db_tasks db" and m = "ms_tasks s" and k = tid and v = t and v' = t' and f = f]
      m t f t' by (simp add: matches_def mem_updates task_to_row_def)
  moreover have hist: "mem_history (s\<lparr>ms_leases := ls\<rparr>) k = mem_history s k" for k
    by (simp add: mem_history_def)
  have "events_match (db_events ?db) ?s"
    using event_rows [OF m] unfolding events_match_def history_append hist
    by (auto simp: event_to_row_def)
  moreover have "mem_inv ?s" "sourced k (mem_observe ?s k)" for k
    using matches_good_sourced [OF m good] by auto
  ultimately have "matches owner ?db ?s"
    using m leases by (simp add: matches_def mem_updates)
  moreover have "insert_event tid (next_sequence_with_executor tid db) ty from to
      (update_tasks_where tid f (db\<lparr>db_leases := lrows\<rparr>)) = Inr ?db"
    using fresh by (simp add: insert_event_def update_tasks_where_def next_sequence [OF m])
  ultimately show ?thesis by blast
qed

text \<open>The three leaves of the simulation: the lease is released, left alone, or granted.\<close>

lemma event_release:
  assumes m: "matches owner db s" and t: "fmlookup (ms_tasks s) tid = Some t"
    and step: "task_step t ty t'" and "from = Some (tr_status t)" "to = tr_status t'"
    and f: "f (task_to_row t) = task_to_row t'" "\<And>r. tk_task_id (f r) = tk_task_id r"
  shows "\<exists>db'. insert_event tid (next_sequence_with_executor tid db) ty from to
      (update_tasks_where tid f (deactivate_lease_for_task_with_executor tid db)) = Inr db' \<and>
    matches owner db' (put_task tid t' (append_in_memory_event tid ty from to (remove_lease tid s)))"
proof -
  have "mem_good s (put_task tid t' (append_in_memory_event tid ty from to (remove_lease tid s)))"
    using assms by (intro mem_good_release) (auto dest: matches_inv)
  then have good: "mem_good s (put_task tid t' (append_in_memory_event tid ty from to
      (s\<lparr>ms_leases := fmdrop tid (ms_leases s)\<rparr>)))"
    by (simp add: remove_lease_def)
  have "leases_match owner (db_leases db) (ms_leases s)"
    using m by (simp add: matches_def)
  from commit_event [OF m t good leases_match_release [OF this] step f] show ?thesis
    by (auto simp: deactivate_lease_for_task_with_executor_def remove_lease_def)
qed

lemma sim_release:
  assumes "matches owner db s" and "fmlookup (ms_tasks s) tid = Some t"
    and "task_step t ty t'" and "from = Some (tr_status t)" "to = tr_status t'"
    and "f (task_to_row t) = task_to_row t'" "\<And>r. tk_task_id (f r) = tk_task_id r"
    and k: "\<And>db'. matches owner db' (put_task tid t' (append_in_memory_event tid ty from to (remove_lease tid s)))
        \<Longrightarrow> sim owner (transaction db0 (k db')) r"
  shows "sim owner (transaction db0 (bindR (insert_event tid (next_sequence_with_executor tid db) ty from to
    (update_tasks_where tid f (deactivate_lease_for_task_with_executor tid db))) k)) r"
  using event_release [OF assms(1-7)] k by auto

lemma event_keep:
  assumes m: "matches owner db s" and t: "fmlookup (ms_tasks s) tid = Some t"
    and step: "task_step t ty t'" and "from = Some (tr_status t)" "to = tr_status t'"
    and "fmlookup (ms_leases s) tid = None \<or> tr_status t' = Running"
    and f: "f (task_to_row t) = task_to_row t'" "\<And>r. tk_task_id (f r) = tk_task_id r"
  shows "\<exists>db'. insert_event tid (next_sequence_with_executor tid db) ty from to (update_tasks_where tid f db) = Inr db' \<and>
    matches owner db' (put_task tid t' (append_in_memory_event tid ty from to s))"
proof -
  have "mem_good s (put_task tid t' (append_in_memory_event tid ty from to s))"
    using assms by (intro mem_good_keep) (auto dest: matches_inv)
  then have good: "mem_good s (put_task tid t' (append_in_memory_event tid ty from to
      (s\<lparr>ms_leases := ms_leases s\<rparr>)))"
    by simp
  have "leases_match owner (db_leases db) (ms_leases s)"
    using m by (simp add: matches_def)
  from commit_event [OF m t good this step f] show ?thesis by simp
qed

lemma sim_keep:
  assumes "matches owner db s" and "fmlookup (ms_tasks s) tid = Some t"
    and "task_step t ty t'" and "from = Some (tr_status t)" "to = tr_status t'"
    and "fmlookup (ms_leases s) tid = None \<or> tr_status t' = Running"
    and "f (task_to_row t) = task_to_row t'" "\<And>r. tk_task_id (f r) = tk_task_id r"
    and k: "\<And>db'. matches owner db' (put_task tid t' (append_in_memory_event tid ty from to s))
        \<Longrightarrow> sim owner (transaction db0 (k db')) r"
  shows "sim owner (transaction db0 (bindR (insert_event tid (next_sequence_with_executor tid db) ty from to
    (update_tasks_where tid f db)) k)) r"
  using event_keep [OF assms(1-8)] k by auto

lemma sim_grant:
  assumes m: "matches owner db s" and t: "fmlookup (ms_tasks s) tid = Some t"
    and step: "task_step t ty t'" and "from = Some (tr_status t)" "to = tr_status t'"
    and "tr_status t' = Running" and none: "fmlookup (ms_leases s) tid = None"
    and l: "valid_lease l" "lr_task_id l = tid" "lr_worker_id l \<noteq> None" "owner (lr_lease_id l) = tid"
    and f: "f (task_to_row t) = task_to_row t'" "\<And>r. tk_task_id (f r) = tk_task_id r"
    and k: "\<And>db'. matches owner db' (put_task tid t' (append_in_memory_event tid ty from to (put_lease tid l s)))
        \<Longrightarrow> sim owner (transaction db0 (k db')) r"
  shows "sim owner (transaction db0 (bindR (insert_event tid (next_sequence_with_executor tid db) ty from to
    (update_tasks_where tid f (replace_lease_row (lease_to_row l) db))) k)) r"
proof -
  have "mem_good s (put_task tid t' (append_in_memory_event tid ty from to (put_lease tid l s)))"
    using assms by (intro mem_good_grant) (auto dest: matches_inv)
  then have good: "mem_good s (put_task tid t' (append_in_memory_event tid ty from to
      (s\<lparr>ms_leases := fmupd tid l (ms_leases s)\<rparr>)))"
    by (simp add: put_lease_def)
  have "leases_match owner (db_leases db) (ms_leases s)"
    using m by (simp add: matches_def)
  from commit_event [OF m t good leases_match_grant [OF this none l(1,2,4)] step f] k l show ?thesis
    by (auto simp: replace_lease_row_def put_lease_def lease_to_row_def)
qed

section \<open>Operations on an owned lease\<close>

lemmas status_updates = set_status_with_event_def update_task_status_with_executor_def
  update_task_metadata_with_executor_def

lemma find_task_put [simp]: "fmlookup (ms_tasks (put_task tid t s)) tid = Some t"
  by (simp add: put_task_def)

lemma sim_lease_start:
  assumes m: "matches owner db s" and t: "fmlookup (ms_tasks s) tid = Some t"
    and none: "fmlookup (ms_leases s) tid = None"
    and l: "valid_lease l" "lr_task_id l = tid" "lr_worker_id l \<noteq> None" "owner (lr_lease_id l) = tid"
  shows "sim owner (transaction db (sql_lease_start tid l t db)) (mem_lease_start tid l t s)"
proof -
  have row: "\<lparr>ll_lease_id = lr_lease_id l, ll_task_id = tid, ll_worker_id = lr_worker_id l,
      ll_leased_at_ms = lr_leased_at_ms l, ll_expires_at_ms = lr_expires_at_ms l, ll_active = True\<rparr> =
      lease_to_row l"
    using l by (simp add: lease_to_row_def)
  have leaf: "sim owner (transaction db (bindR (insert_event tid (next_sequence_with_executor tid db)
        (tt_event_type tr) (Some (tt_from tr)) (tt_to tr)
        (update_tasks_where tid (\<lambda>r. r\<lparr>tk_status := status_to_str Running\<rparr>)
          (replace_lease_row (lease_to_row l) db))) (\<lambda>db2. Inr (sql_get_task tid db2, db2))))
      (Inr (t\<lparr>tr_status := Running\<rparr>), put_task tid (t\<lparr>tr_status := Running\<rparr>)
        (append_in_memory_event tid (tt_event_type tr) (Some (tt_from tr)) (tt_to tr) (put_lease tid l s)))"
    if tr: "validate_transition (tr_status t) Running = Inr tr" for tr
    using task_step_transition [OF tr] validate_transition_fields [OF tr] l
    by (intro sim_grant [OF m t _ _ _ _ none]) (auto simp: task_to_row_def get_task intro: sim_committed)
  show ?thesis
    unfolding sql_lease_start_def mem_lease_start_def status_updates Let_def row
    by (rule sim_bind [OF m refl], rule leaf) simp
qed

lemma sim_check_executor:
  assumes "matches owner db s"
  shows "sql_check_executor tid peer db = check_executor s tid peer"
proof -
  have rep: "contexts_match (db_transport_context db) (ms_transport_contexts s)"
    using assms by (simp add: matches_def)
  have valid: "valid_id e" if "fmlookup (ms_transport_contexts s) tid = Some c"
    "tc_expected_executor_peer_id c = Some e" for c e
    using represents_ok [OF rep that(1)] that(2) by (simp add: valid_context_def valid_opt_def)
  show ?thesis
    unfolding sql_check_executor_def check_executor_def represents_find [OF rep]
    by (cases peer; cases "fmlookup (ms_transport_contexts s) tid")
      (auto simp: valid ensure_def split: option.split)
qed

lemma sim_lease_task:
  assumes m: "matches owner db s"
    and l: "valid_lease l" "lr_task_id l = tid" "lr_worker_id l \<noteq> None" "owner (lr_lease_id l) = tid"
  shows "sim owner (sql_lease_task_with_peer_guard tid l peer db) (mem_lease_task_with_peer_guard tid l peer s)"
proof -
  have guards: "ensure_matching_task_id tid l = Inr ()" "ensure_lease_has_owner l = Inr ()"
    using l by (simp_all add: guard_defs)
  have timeout: "sim owner (transaction db (bindR (insert_event tid (next_sequence_with_executor tid db)
        TaskTimedOut (Some (tr_status t)) Failed
        (update_tasks_where tid (\<lambda>r. r\<lparr>tk_status := status_to_str Failed\<rparr>) db))
          (\<lambda>db. Inr (Inl (TaskDeadlineExpired tid d (lr_leased_at_ms l)), db))))
      (Inl (TaskDeadlineExpired tid d (lr_leased_at_ms l)), put_task tid (t\<lparr>tr_status := Failed\<rparr>)
        (append_in_memory_event tid TaskTimedOut (Some (tr_status t)) Failed s))"
    if "fmlookup (ms_tasks s) tid = Some t" "fmlookup (ms_leases s) tid = None" "\<not> is_terminal (tr_status t)" for t d
    using that task_step.time_out [of t]
    by (intro sim_keep [OF m that(1)]) (auto simp: task_to_row_def intro: sim_committed)
  have deadline: "sim owner (transaction db (bindR (validate_deadline_transition (tr_status t)) (\<lambda>_.
        bindR (set_status_with_event tid Failed (next_sequence_with_executor tid db) TaskTimedOut
          (tr_status t) Failed db) (\<lambda>db. Inr (Inl (TaskDeadlineExpired tid d (lr_leased_at_ms l)), db)))))
      (attempt (validate_deadline_transition (tr_status t)) s (\<lambda>_.
        (Inl (TaskDeadlineExpired tid d (lr_leased_at_ms l)), put_task tid (t\<lparr>tr_status := Failed\<rparr>)
        (append_in_memory_event tid TaskTimedOut (Some (tr_status t)) Failed s))))"
    if "fmlookup (ms_tasks s) tid = Some t" "fmlookup (ms_leases s) tid = None" for t d
    unfolding status_updates using timeout [OF that] by (intro sim_bind [OF m refl]) auto
  show ?thesis
    unfolding sql_lease_task_with_peer_guard_def mem_lease_task_with_peer_guard_def guards
      fetches [OF m] sim_check_executor [OF m] Let_def bindR_simps attempt_simps
    using sim_lease_start [OF m _ _ l] deadline
    by (intro sim_bind [OF m refl]) (auto intro: sim_error [OF m] split: option.split)
qed

text \<open>
  The helpers that run inside a transaction return a record and a database; their in-memory
  counterparts leave the state unchanged when they fail.
\<close>

definition sim_in_tx ::
  "(lease_id \<Rightarrow> task_id) \<Rightarrow> mem_state \<Rightarrow> store_error + ('a \<times> sql_db) \<Rightarrow> 'a mem_result \<Rightarrow> bool" where
  "sim_in_tx owner s r r' \<longleftrightarrow>
     (case r of
        Inl e \<Rightarrow> r' = (Inl e, s)
      | Inr (a, db') \<Rightarrow> \<exists>s'. r' = (Inr a, s') \<and> matches owner db' s')"

lemma sim_in_tx_bind:
  assumes "g = g'" and "\<And>a. g' = Inr a \<Longrightarrow> sim_in_tx owner s (body a) (mbody a)"
  shows "sim_in_tx owner s (bindR g body) (attempt g' s mbody)"
  using assms by (cases g') (auto simp: sim_in_tx_def)

lemma sim_from_in_tx:
  assumes "matches owner db s" and "sim_in_tx owner s r r'"
  shows "sim owner (transaction db (bindR r (\<lambda>(u, db'). commit u db'))) r'"
  using assms by (cases r) (auto simp: sim_in_tx_def sim_def transaction_def commit_def)

lemma sim_in_tx_event:
  assumes "\<exists>db'. r = Inr db' \<and> matches owner db' s'" and "fmlookup (ms_tasks s') tid = Some u"
  shows "sim_in_tx owner s
    (bindR r (\<lambda>db'. bindR (fetch_task_with_executor tid db') (\<lambda>t. Inr (t, db')))) (Inr u, s')"
  using assms by (auto simp: sim_in_tx_def fetch_task)

lemma sim_finish:
  assumes m: "matches owner db s" and t: "fmlookup (ms_tasks s) tid = Some t"
    and meta: "rc = tr_retry_count t"
      "tr_status t = Running \<Longrightarrow> dl = tr_dead_lettered t \<and> reason = tr_dead_letter_reason t"
    and to: "to = Completed \<or> to = Failed"
  shows "sim_in_tx owner s (finish_task_in_tx tid lid wid to rc dl reason db)
    (finish_task_in_state tid lid wid to rc dl reason s)"
proof -
  let ?t = "t\<lparr>tr_status := to, tr_retry_count := rc, tr_dead_lettered := dl, tr_dead_letter_reason := reason\<rparr>"
  have step: "task_step t (tt_event_type tr) ?t" if tr: "validate_transition (tr_status t) to = Inr tr" for tr
  proof -
    have "tr_status t = Running"
      using tr to by (auto simp: validate_transition_Inr lifecycle_iff)
    with meta have "?t = t\<lparr>tr_status := to\<rparr>" by simp
    with task_step_transition [OF tr] show ?thesis by simp
  qed
  have leaf: "\<exists>db'. insert_event tid (next_sequence_with_executor tid db) (tt_event_type tr)
        (Some (tt_from tr)) (tt_to tr) (update_task_metadata_with_executor tid to rc dl reason
          (deactivate_lease_for_task_with_executor tid db)) = Inr db' \<and>
      matches owner db' (put_task tid ?t (append_in_memory_event tid (tt_event_type tr)
        (Some (tt_from tr)) (tt_to tr) (remove_lease tid s)))"
    if tr: "validate_transition (tr_status t) to = Inr tr" for tr
    unfolding update_task_metadata_with_executor_def
    using validate_transition_fields [OF tr]
    by (intro event_release [OF m t step [OF tr]]) (auto simp: task_to_row_def)
  have leaf': "sim_in_tx owner s
      (bindR (insert_event tid (next_sequence_with_executor tid db) (tt_event_type tr)
        (Some (tt_from tr)) (tt_to tr) (update_task_metadata_with_executor tid to rc dl reason
          (deactivate_lease_for_task_with_executor tid db)))
        (\<lambda>db'. bindR (fetch_task_with_executor tid db') (\<lambda>t. Inr (t, db'))))
      (Inr ?t, put_task tid ?t (append_in_memory_event tid (tt_event_type tr)
        (Some (tt_from tr)) (tt_to tr) (remove_lease tid s)))"
    if tr: "validate_transition (tr_status t) to = Inr tr" for tr
    by (rule sim_in_tx_event [OF leaf [OF tr]]) simp
  show ?thesis
    unfolding finish_task_in_tx_def finish_task_in_state_def fetches [OF m] Let_def find_defs t
      bindR_simps ok_or_simps attempt_simps
    by (intro sim_in_tx_bind refl) (simp add: leaf')
qed

lemma sim_retry_in_tx:
  assumes m: "matches owner db s" and t: "fmlookup (ms_tasks s) tid = Some t"
  shows "sim_in_tx owner s (sqlite_retry_task_in_tx tid t db) (retry_task_in_state tid active t s)"
proof -
  let ?t = "t\<lparr>tr_retry_count := sat_add (tr_retry_count t) 1, tr_status := Pending\<rparr>"
  have leaf: "\<exists>db'. insert_event tid (next_sequence_with_executor tid db) RecoveryAction (Some Running) Pending
        (update_task_metadata_with_executor tid Pending (sat_add (tr_retry_count t) 1) False None
          (deactivate_lease_for_task_with_executor tid db)) = Inr db' \<and>
      matches owner db' (put_task tid ?t (append_in_memory_event tid RecoveryAction (Some Running) Pending
        (remove_lease tid s)))"
    if running: "tr_status t = Running"
    unfolding update_task_metadata_with_executor_def
    using running wf_not_failed [of t] mem_inv_task [OF matches_inv [OF m] t]
    by (intro event_release [OF m t task_step.requeue [OF running]]) (auto simp: task_to_row_def)
  show ?thesis
    unfolding sqlite_retry_task_in_tx_def retry_task_in_state_def Let_def ensure_matching_lease_id_def
    by (simp, intro sim_in_tx_bind refl sim_in_tx_event leaf) simp_all
qed

lemma sim_dead_letter_in_tx:
  assumes m: "matches owner db s" and t: "fmlookup (ms_tasks s) tid = Some t"
  shows "sim_in_tx owner s (sqlite_dead_letter_task_in_tx tid t reason db)
    (dead_letter_task_in_state tid active t reason s)"
proof -
  let ?t = "t\<lparr>tr_retry_count := sat_add (tr_retry_count t) 1, tr_dead_lettered := True,
    tr_dead_letter_reason := Some reason, tr_status := Failed\<rparr>"
  have leaf: "\<exists>db'. insert_event tid (next_sequence_with_executor tid db) TaskDeadLettered
        (Some (tt_from tr)) (tt_to tr) (update_task_metadata_with_executor tid Failed
          (sat_add (tr_retry_count t) 1) True (Some reason)
          (deactivate_lease_for_task_with_executor tid db)) = Inr db' \<and>
      matches owner db' (put_task tid ?t (append_in_memory_event tid TaskDeadLettered
        (Some (tt_from tr)) (tt_to tr) (remove_lease tid s)))"
    if running: "tr_status t = Running" and tr: "validate_transition (tr_status t) Failed = Inr tr" for tr
    unfolding update_task_metadata_with_executor_def
    using running validate_transition_fields [OF tr]
    by (intro event_release [OF m t task_step.dead_letter [OF running]]) (auto simp: task_to_row_def)
  show ?thesis
    unfolding sqlite_dead_letter_task_in_tx_def dead_letter_task_in_state_def Let_def
      ensure_matching_lease_id_def
    by (simp, intro sim_in_tx_bind refl sim_in_tx_event leaf) simp_all
qed

lemma sim_complete:
  assumes m: "matches owner db s"
  shows "sim owner (sql_complete_task tid lid wid db) (mem_complete_task tid lid wid s)"
  unfolding sql_complete_task_def sql_finish_task_def mem_complete_task_def mem_finish_task_def
    fetches [OF m]
  by (intro sim_bind [OF m refl] sim_from_in_tx [OF m] sim_finish [OF m]) auto

text \<open>The lease checks of the failing operations, on both sides.\<close>

lemma fetch_owned_bind:
  assumes m: "matches owner db s"
    and k: "\<And>t active. fmlookup (ms_tasks s) tid = Some t \<Longrightarrow> fmlookup (ms_leases s) tid = Some active \<Longrightarrow>
      lr_lease_id active = lid \<Longrightarrow> lr_worker_id active = Some wid \<Longrightarrow>
      sim owner (transaction db (k t)) (mk t active)"
  shows "sim owner (transaction db (bindR (fetch_owned_task tid lid wid db) k))
    (attempt (find_task s tid) s (\<lambda>t. attempt (find_lease s tid) s (\<lambda>active.
     attempt (ensure_matching_lease_id tid active lid) s (\<lambda>_.
     attempt (ensure_matching_worker_id tid active wid) s (\<lambda>_. mk t active)))))"
  unfolding fetch_owned_task_def fetches [OF m] bindR_assoc bindR_simps find_lease_def
  by (intro sim_bind [OF m refl]) (auto intro!: k simp: ensure_matching_lease_id_def)

lemma finish_reset:
  assumes m: "matches owner db s" and t: "fmlookup (ms_tasks s) tid = Some t"
  shows "sim_in_tx owner s (finish_task_in_tx tid lid wid Failed (tr_retry_count t) False None db)
    (finish_task_in_state tid lid wid Failed (tr_retry_count t) False None s)"
  using wf_not_failed [of t] mem_inv_task [OF matches_inv [OF m] t]
  by (intro sim_finish [OF m t]) auto

lemma sim_fail:
  assumes m: "matches owner db s"
  shows "sim owner (sql_fail_task tid lid wid reason policy db) (mem_fail_task tid lid wid reason policy s)"
  unfolding sql_fail_task_def mem_fail_task_def
  by (intro fetch_owned_bind [OF m] sim_bind [OF m refl])
    (auto intro!: sim_from_in_tx [OF m] finish_reset [OF m] sim_retry_in_tx [OF m] sim_dead_letter_in_tx [OF m])

lemma sim_retry:
  assumes m: "matches owner db s"
  shows "sim owner (sql_retry_task tid lid wid db) (mem_retry_task tid lid wid s)"
  unfolding sql_retry_task_def mem_retry_task_def
  by (intro fetch_owned_bind [OF m] sim_from_in_tx [OF m] sim_retry_in_tx [OF m])

lemma sim_dead_letter:
  assumes m: "matches owner db s"
  shows "sim owner (sql_dead_letter_task tid lid wid reason db) (mem_dead_letter_task tid lid wid reason s)"
  unfolding sql_dead_letter_task_def mem_dead_letter_task_def
  by (intro fetch_owned_bind [OF m] sim_from_in_tx [OF m] sim_dead_letter_in_tx [OF m])

lemma matches_touch [simp]: "touch_task_updated_at_with_executor tid db = db"
  by (simp add: touch_task_updated_at_with_executor_def update_tasks_where_def)

lemma leases_match_renew:
  assumes lm: "leases_match owner rows m" and l: "fmlookup m tid = Some l"
    and ids: "lr_lease_id l = lid" "lr_worker_id l = Some wid"
  shows "leases_match owner
    (map (\<lambda>r. if ll_task_id r = tid \<and> ll_lease_id r = lid \<and> ll_worker_id r = Some wid
            then r\<lparr>ll_expires_at_ms := e, ll_active := True\<rparr> else r) rows)
    (fmupd tid (l\<lparr>lr_expires_at_ms := e\<rparr>) m)"
    (is "leases_match owner (map ?f rows) _")
proof -
  let ?g = "\<lambda>r. r\<lparr>ll_expires_at_ms := e\<rparr>"
  have rep: "represents ll_task_id (\<lambda>_. lease_to_row) valid_lease (filter ll_active rows) m"
    and dist: "distinct (map ll_task_id rows)"
    using lm by (simp_all add: leases_match_def)
  have ok: "valid_lease l" "lr_task_id l = tid"
    using represents_ok [OF rep l] by (auto simp: lease_to_row_def)
  have active: "lease_to_row l \<in> set rows"
    using represents_in_rows [OF rep l] by simp
  have row: "r = lease_to_row l" if "r \<in> set rows" "ll_task_id r = tid" for r
  proof (rule inj_onD [of ll_task_id "set rows"])
    show "inj_on ll_task_id (set rows)"
      using dist by (simp add: distinct_map)
    show "ll_task_id r = ll_task_id (lease_to_row l)"
      using that ok by (simp add: lease_to_row_def)
  qed (use that active in auto)
  have "?f r = (if ll_task_id r = tid then ?g r else r)" if "r \<in> set rows" for r
  proof (cases "ll_task_id r = tid")
    case True
    with row [OF that] have "r = lease_to_row l" by simp
    with ids ok show ?thesis by (simp add: lease_to_row_def)
  qed simp
  then have "map ?f rows = map (\<lambda>r. if ll_task_id r = tid then ?g r else r) rows"
    by (intro map_cong refl)
  moreover have "filter ll_active (map (\<lambda>r. if ll_task_id r = tid then ?g r else r) rows) =
      map (\<lambda>r. if ll_task_id r = tid then ?g r else r) (filter ll_active rows)"
    by (induction rows) auto
  ultimately have "filter ll_active (map ?f rows) =
      map (\<lambda>r. if ll_task_id r = tid then ?g r else r) (filter ll_active rows)"
    by (simp only:)
  moreover have "represents ll_task_id (\<lambda>_. lease_to_row) valid_lease
      (map (\<lambda>r. if ll_task_id r = tid then ?g r else r) (filter ll_active rows))
      (fmupd tid (l\<lparr>lr_expires_at_ms := e\<rparr>) m)"
    using ok by (intro represents_update [OF rep l]) (auto simp: lease_to_row_def valid_lease_def)
  moreover have "map ll_task_id (map ?f rows) = map ll_task_id rows"
    by simp
  ultimately show ?thesis
    using lm unfolding leases_match_def by (auto simp del: map_map)
qed

lemma sim_renew:
  assumes m: "matches owner db s"
  shows "sim owner (sql_renew_lease tid lid wid now_ms e db) (mem_renew_lease tid lid wid now_ms e s)"
proof -
  have "matches owner (db\<lparr>db_leases :=
        map (\<lambda>r. if ll_task_id r = tid \<and> ll_lease_id r = lid \<and> ll_worker_id r = Some wid
            then r\<lparr>ll_expires_at_ms := e, ll_active := True\<rparr> else r) (db_leases db)\<rparr>)
      (put_lease tid (l\<lparr>lr_expires_at_ms := e\<rparr>) s)"
    if l: "fmlookup (ms_leases s) tid = Some l" "lr_lease_id l = lid" "lr_worker_id l = Some wid"
      and t: "fmlookup (ms_tasks s) tid = Some t" "tr_status t = Running" for l t
  proof -
    have "mem_good s (put_lease tid (l\<lparr>lr_expires_at_ms := e\<rparr>) s)"
      using l t mem_inv_lease [OF matches_inv [OF m] l(1)]
      by (intro mem_good_put_lease [OF matches_inv [OF m]]) auto
    from matches_good_sourced [OF m this] leases_match_renew [OF _ l] m show ?thesis
      by (auto simp: matches_def put_lease_def events_match_def mem_history_def)
  qed
  then show ?thesis
    unfolding sql_renew_lease_def mem_renew_lease_def fetches [OF m] Let_def
    by (intro sim_bind [OF m]) (auto intro!: sim_commit simp: ensure_matching_lease_id_def)
qed

section \<open>Cancellation, transitions and legacy events\<close>

lemma sim_cancel:
  assumes m: "matches owner db s"
  shows "sim owner (sql_cancel_task tid now_ms db) (mem_cancel_task tid now_ms s)"
proof -
  have leaf: "sim owner (transaction db (bindR (insert_event tid (next_sequence_with_executor tid db)
        TaskCanceled (Some (tr_status t)) Failed
        (update_tasks_where tid (\<lambda>r. r\<lparr>tk_status := status_to_str Failed\<rparr>)
          (deactivate_lease_for_task_with_executor tid db))) (\<lambda>db2. Inr (sql_get_task tid db2, db2))))
      (Inr (t\<lparr>tr_status := Failed\<rparr>), put_task tid (t\<lparr>tr_status := Failed\<rparr>)
        (append_in_memory_event tid TaskCanceled (Some (tr_status t)) Failed (remove_lease tid s)))"
    if "fmlookup (ms_tasks s) tid = Some t" "\<not> is_terminal (tr_status t)" for t
    using that task_step.cancel [of t]
    by (intro sim_release [OF m that(1)]) (auto simp: task_to_row_def get_task intro: sim_committed)
  have cancel: "sim owner (transaction db (bindR (map_err from_core_error (validate_cancel_transition (tr_status t)))
        (\<lambda>tr. bindR (insert_event tid (next_sequence_with_executor tid db) (tt_event_type tr)
          (Some (tt_from tr)) (tt_to tr) (update_tasks_where tid (\<lambda>r. r\<lparr>tk_status := status_to_str (tt_to tr)\<rparr>)
          (deactivate_lease_for_task_with_executor tid db))) (\<lambda>db2. Inr (sql_get_task tid db2, db2)))))
      (attempt (map_err from_core_error (validate_cancel_transition (tr_status t))) s (\<lambda>tr.
        (Inr (t\<lparr>tr_status := tt_to tr\<rparr>), put_task tid (t\<lparr>tr_status := tt_to tr\<rparr>)
        (append_in_memory_event tid (tt_event_type tr) (Some (tt_from tr)) (tt_to tr) (remove_lease tid s)))))"
    if "fmlookup (ms_tasks s) tid = Some t" for t
    using leaf [OF that] by (intro sim_bind [OF m refl]) (auto simp: validate_cancel_transition_Inr)
  show ?thesis
    unfolding sql_cancel_task_def mem_cancel_task_def fetches [OF m] status_updates Let_def
    by (intro sim_bind [OF m] sim_if sim_commit m cancel) auto
qed

lemma sim_transition:
  assumes m: "matches owner db s"
  shows "sim owner (sql_transition_task tid to db) (mem_transition_task tid to s)"
proof -
  have keep: "to = Running" if "validate_transition (tr_status t) to = Inr tr" "\<not> is_terminal to" for t tr
    using that by (auto simp: validate_transition_Inr lifecycle_iff)
  have leaf: "sim owner (transaction db (bindR (insert_event tid (next_sequence_with_executor tid db)
        (tt_event_type tr) (Some (tt_from tr)) (tt_to tr)
        (update_tasks_where tid (\<lambda>r. r\<lparr>tk_status := status_to_str to\<rparr>)
          (if is_terminal to then deactivate_lease_for_task_with_executor tid db else db)))
          (\<lambda>db2. Inr (sql_get_task tid db2, db2))))
      (Inr (t\<lparr>tr_status := to\<rparr>), put_task tid (t\<lparr>tr_status := to\<rparr>)
        (append_in_memory_event tid (tt_event_type tr) (Some (tt_from tr)) (tt_to tr)
          (if is_terminal to then remove_lease tid s else s)))"
    if t: "fmlookup (ms_tasks s) tid = Some t" and tr: "validate_transition (tr_status t) to = Inr tr" for t tr
  proof (cases "is_terminal to")
    case True
    have "sim owner (transaction db (bindR (insert_event tid (next_sequence_with_executor tid db)
        (tt_event_type tr) (Some (tt_from tr)) (tt_to tr)
        (update_tasks_where tid (\<lambda>r. r\<lparr>tk_status := status_to_str to\<rparr>)
          (deactivate_lease_for_task_with_executor tid db))) (\<lambda>db2. Inr (sql_get_task tid db2, db2))))
      (Inr (t\<lparr>tr_status := to\<rparr>), put_task tid (t\<lparr>tr_status := to\<rparr>)
        (append_in_memory_event tid (tt_event_type tr) (Some (tt_from tr)) (tt_to tr) (remove_lease tid s)))"
      using task_step_transition [OF tr] validate_transition_fields [OF tr]
      by (intro sim_release [OF m t]) (auto simp: task_to_row_def get_task intro: sim_committed)
    with True show ?thesis by simp
  next
    case False
    have "sim owner (transaction db (bindR (insert_event tid (next_sequence_with_executor tid db)
        (tt_event_type tr) (Some (tt_from tr)) (tt_to tr)
        (update_tasks_where tid (\<lambda>r. r\<lparr>tk_status := status_to_str to\<rparr>) db))
        (\<lambda>db2. Inr (sql_get_task tid db2, db2))))
      (Inr (t\<lparr>tr_status := to\<rparr>), put_task tid (t\<lparr>tr_status := to\<rparr>)
        (append_in_memory_event tid (tt_event_type tr) (Some (tt_from tr)) (tt_to tr) s))"
      using task_step_transition [OF tr] validate_transition_fields [OF tr] keep [OF tr False]
      by (intro sim_keep [OF m t]) (auto simp: task_to_row_def get_task intro: sim_committed)
    with False show ?thesis by simp
  qed
  show ?thesis
    unfolding sql_transition_task_def mem_transition_task_def fetches [OF m] status_updates Let_def
    by (intro sim_bind [OF m refl] leaf) auto
qed

text \<open>An operational legacy event leaves the task row alone.\<close>

lemma event_note:
  assumes m: "matches owner db s" and t: "fmlookup (ms_tasks s) tid = Some t"
    and step: "task_step t ty t"
  shows "\<exists>db'. insert_event tid (next_sequence_with_executor tid db) ty (Some (tr_status t)) (tr_status t) db = Inr db' \<and>
    matches owner db' (append_in_memory_event tid ty (Some (tr_status t)) (tr_status t) s)"
proof -
  have same: "put_task tid t (append_in_memory_event tid ty from to s) = append_in_memory_event tid ty from to s"
    for "from" to
    using fmupd_same [OF t] by (simp add: mem_updates)
  have "fmlookup (ms_leases s) tid = None \<or> tr_status t = Running"
    using mem_inv_lease [OF matches_inv [OF m], of tid] t by (cases "fmlookup (ms_leases s) tid") auto
  then have "mem_good s (put_task tid t (append_in_memory_event tid ty (Some (tr_status t)) (tr_status t)
      (s\<lparr>ms_leases := ms_leases s\<rparr>)))"
    using mem_good_keep [OF matches_inv [OF m] t step refl refl] by simp
  moreover have "leases_match owner (db_leases db) (ms_leases s)"
    using m by (simp add: matches_def)
  ultimately show ?thesis
    using commit_event [OF m t _ _ step, of "Some (tr_status t)" "tr_status t" "ms_leases s" "db_leases db" "\<lambda>r. r"]
    by (simp add: update_tasks_where_def same)
qed

lemma sim_legacy:
  assumes m: "matches owner db s" and ty: "ty \<noteq> TaskApprovalDenied"
  shows "sim owner (sql_accept_legacy_event tid ty db) (mem_accept_legacy_event tid ty s)"
proof -
  have note_leaf: "sim owner (transaction db (bindR (insert_event tid (next_sequence_with_executor tid db)
        oty (Some st) st db) (\<lambda>db. Inr (sql_get_task tid db, db))))
      (Inr t, append_in_memory_event tid oty (Some st) st s)"
    if "fmlookup (ms_tasks s) tid = Some t" "st = tr_status t" "task_step t oty t" for t oty st
    using event_note [OF m that(1,3)] that
    by (auto simp: get_task mem_updates intro!: sim_committed)
  have release: "sim owner (transaction db (bindR (insert_event tid (next_sequence_with_executor tid db)
        (tt_event_type tr) (Some (tt_from tr)) (tt_to tr)
        (update_tasks_where tid (\<lambda>r. r\<lparr>tk_status := status_to_str (tt_to tr)\<rparr>)
          (deactivate_lease_for_task_with_executor tid db))) (\<lambda>db2. Inr (sql_get_task tid db2, db2))))
      (Inr (t\<lparr>tr_status := tt_to tr\<rparr>), put_task tid (t\<lparr>tr_status := tt_to tr\<rparr>)
        (append_in_memory_event tid (tt_event_type tr) (Some (tt_from tr)) (tt_to tr) (remove_lease tid s)))"
    if "fmlookup (ms_tasks s) tid = Some t" "tt_from tr = tr_status t"
      "task_step t (tt_event_type tr) (t\<lparr>tr_status := tt_to tr\<rparr>)" for t tr
    using that by (intro sim_release [OF m that(1,3)]) (auto simp: task_to_row_def get_task intro: sim_committed)
  have keep: "sim owner (transaction db (bindR (insert_event tid (next_sequence_with_executor tid db)
        (tt_event_type tr) (Some (tt_from tr)) (tt_to tr)
        (update_tasks_where tid (\<lambda>r. r\<lparr>tk_status := status_to_str (tt_to tr)\<rparr>) db))
        (\<lambda>db2. Inr (sql_get_task tid db2, db2))))
      (Inr (t\<lparr>tr_status := tt_to tr\<rparr>), put_task tid (t\<lparr>tr_status := tt_to tr\<rparr>)
        (append_in_memory_event tid (tt_event_type tr) (Some (tt_from tr)) (tt_to tr) s))"
    if "fmlookup (ms_tasks s) tid = Some t" "tt_from tr = tr_status t"
      "task_step t (tt_event_type tr) (t\<lparr>tr_status := tt_to tr\<rparr>)" "tt_to tr = Running" for t tr
    using that by (intro sim_keep [OF m that(1,3)]) (auto simp: task_to_row_def get_task intro: sim_committed)
  have plan: "sim owner (transaction db (bindR (case plan of
        Lifecycle tr \<Rightarrow> set_status_with_event tid (tt_to tr) (next_sequence_with_executor tid db)
          (tt_event_type tr) (tt_from tr) (tt_to tr)
          (if is_terminal (tt_to tr) then deactivate_lease_for_task_with_executor tid db else db)
      | Operational oty st \<Rightarrow> insert_event tid (next_sequence_with_executor tid db) oty (Some st) st db)
        (\<lambda>db. Inr (sql_get_task tid db, db))))
      (case plan of
        Lifecycle tr \<Rightarrow> (Inr (t\<lparr>tr_status := tt_to tr\<rparr>), put_task tid (t\<lparr>tr_status := tt_to tr\<rparr>)
          (append_in_memory_event tid (tt_event_type tr) (Some (tt_from tr)) (tt_to tr)
            (if is_terminal (tt_to tr) then remove_lease tid s else s)))
      | Operational oty st \<Rightarrow> (Inr t, append_in_memory_event tid oty (Some st) st s))"
    if t: "fmlookup (ms_tasks s) tid = Some t"
      and plan: "plan_legacy_event_append (tr_status t) e = Inr plan" and e: "e \<noteq> LTaskApprovalDenied" for t e plan
  proof (cases plan)
    case (Lifecycle tr)
    with task_step_legacy [OF plan e] have "tt_from tr = tr_status t"
      "task_step t (tt_event_type tr) (t\<lparr>tr_status := tt_to tr\<rparr>)" by auto
    moreover have "tt_to tr = Running" if "\<not> is_terminal (tt_to tr)"
      using plan Lifecycle that by (cases "tr_status t"; cases e) (auto simp: plan_legacy_event_append_def)
    ultimately show ?thesis
      using release [OF t, of tr] keep [OF t, of tr] Lifecycle
      by (cases "is_terminal (tt_to tr)") (simp_all add: status_updates)
  next
    case (Operational oty st)
    with task_step_legacy [OF plan e] show ?thesis
      by (simp add: note_leaf [OF t])
  qed
  have "from_keryx_event_type ty \<noteq> Some LTaskApprovalDenied"
    using ty by (cases ty) auto
  then show ?thesis
    unfolding sql_accept_legacy_event_def mem_accept_legacy_event_def fetches [OF m] Let_def
    by (intro sim_attempt [OF m] sim_bind [OF m refl] plan) auto
qed

end
