(* ===== verification/Sql_Accept.thy ===== *)
theory Sql_Accept
  imports Sql_Refinement
begin

text \<open>
  The simulation of the operations that insert rows: the three accept operations, the transport
  context, and the operations that record a terminal result with its outbox row. The inserts never
  violate a key, because the maps of the in-memory state know of every row.
\<close>

section \<open>Inserts\<close>

lemma task_row_key_absent:
  assumes m: "matches owner db s" and none: "Option.bind key (fmlookup (ms_idempotency s)) = None"
    and key: "key = Some k"
  shows "\<not> list_ex (\<lambda>r. tk_idempotency_key r = Some k) (db_tasks db)"
proof
  assume "list_ex (\<lambda>r. tk_idempotency_key r = Some k) (db_tasks db)"
  then obtain r where r: "r \<in> set (db_tasks db)" "tk_idempotency_key r = Some k"
    by (auto simp: list_ex_iff)
  have "tasks_match (db_tasks db) (ms_tasks s)"
    using m by (simp add: matches_def)
  from represents_row [OF this r(1)] obtain t where
    "fmlookup (ms_tasks s) (tk_task_id r) = Some t" "r = task_to_row t" .
  moreover have "idempotency_ok (ms_tasks s) (ms_idempotency s)"
    using matches_inv [OF m] by (simp add: mem_inv_def)
  ultimately have "fmlookup (ms_idempotency s) k \<noteq> None"
    using r(2) unfolding idempotency_ok_def by (auto simp: task_to_row_def)
  with none key show False by simp
qed

lemma idempotency_row_task_absent:
  assumes m: "matches owner db s" and none: "fmlookup (ms_tasks s) tid = None"
  shows "\<not> list_ex (\<lambda>r. snd r = tid) (db_idempotency_keys db)"
proof
  assume "list_ex (\<lambda>r. snd r = tid) (db_idempotency_keys db)"
  then obtain r where r: "r \<in> set (db_idempotency_keys db)" "snd r = tid"
    by (auto simp: list_ex_iff)
  have "idempotency_matches (db_idempotency_keys db) (ms_idempotency s)"
    using m by (simp add: matches_def)
  from represents_row [OF this r(1)] obtain v where
    "fmlookup (ms_idempotency s) (fst r) = Some v" "r = (fst r, v)" .
  with r(2) have "fmlookup (ms_idempotency s) (fst r) = Some tid"
    by (metis snd_conv)
  moreover have "idempotency_ok (ms_tasks s) (ms_idempotency s)"
    using matches_inv [OF m] by (simp add: mem_inv_def)
  ultimately show False
    using none unfolding idempotency_ok_def by auto
qed

lemma insert_accepted:
  assumes m: "matches owner db s" and t: "valid_task t" "fresh_task (tr_id t) t"
    and new: "fmlookup (ms_tasks s) (tr_id t) = None"
    and key: "Option.bind (tr_idempotency_key t) (fmlookup (ms_idempotency s)) = None"
  shows "\<exists>db'. insert_accepted_task t db = Inr db' \<and>
    matches owner db' (put_task (tr_id t) t (append_in_memory_event (tr_id t) TaskAccepted None Pending
      (put_idempotency (tr_idempotency_key t) (tr_id t) s)))"
proof -
  let ?tid = "tr_id t"
  let ?s = "put_task ?tid t (append_in_memory_event ?tid TaskAccepted None Pending
    (put_idempotency (tr_idempotency_key t) ?tid s))"
  let ?db = "db\<lparr>db_tasks := db_tasks db @ [task_to_row t],
    db_idempotency_keys := db_idempotency_keys db @
      (case tr_idempotency_key t of None \<Rightarrow> [] | Some k \<Rightarrow> [(k, ?tid)]),
    db_events := db_events db @ [event_to_row (accepted_event ?tid)]\<rparr>"
  have no_history: "mem_history s ?tid = []"
    using new mem_inv_events [OF matches_inv [OF m], of ?tid] by (simp add: mem_history_def)
  have rows: "\<not> list_ex (\<lambda>r. tk_task_id r = ?tid) (db_tasks db)"
    using represents_absent [of tk_task_id "\<lambda>_. task_to_row" valid_task "db_tasks db" "ms_tasks s" ?tid]
      m new by (simp add: matches_def)
  have keys: "\<not> list_ex (\<lambda>r. fst r = k) (db_idempotency_keys db)" if "tr_idempotency_key t = Some k" for k
    using represents_absent [of fst Pair valid_id "db_idempotency_keys db" "ms_idempotency s" k]
      m key that by (simp add: matches_def)
  have events: "\<not> list_ex (\<lambda>r. el_task_id r = ?tid \<and> el_sequence r = 1) (db_events db)"
    using event_rows [OF m, of ?tid] no_history by (auto simp: list_ex_iff filter_empty_conv)
  have ins: "insert_accepted_task t db = Inr ?db"
    using rows keys events idempotency_row_task_absent [OF m new] task_row_key_absent [OF m key] t(2)
    by (cases "tr_idempotency_key t")
      (simp_all add: insert_accepted_task_def insert_task_row_def insert_idempotency_row_def
        insert_event_def task_to_row_def event_to_row_def accepted_event_def fresh_task_def)
  have good: "mem_good s ?s"
    using matches_inv [OF m] new t key by (intro mem_good_insert) auto
  have hist: "mem_history (put_idempotency (tr_idempotency_key t) ?tid s) k = mem_history s k" for k
    by (simp add: mem_history_def put_idempotency_def split: option.splits)
  have "tasks_match (db_tasks ?db) (ms_tasks ?s)"
    using represents_insert [of tk_task_id "\<lambda>_. task_to_row" valid_task "db_tasks db" "ms_tasks s" ?tid t]
      m new t by (cases "tr_idempotency_key t") (simp_all add: matches_def mem_updates task_to_row_def)
  moreover have "events_match (db_events ?db) ?s"
    using event_rows [OF m] no_history unfolding events_match_def history_append hist
    by (auto simp: event_to_row_def accepted_event_def)
  moreover have "idempotency_matches (db_idempotency_keys ?db) (ms_idempotency ?s)"
    using represents_insert [of fst Pair valid_id "db_idempotency_keys db" "ms_idempotency s" _ ?tid]
      m key t by (auto simp: matches_def mem_updates valid_task_def split: option.splits)
  ultimately have "matches owner ?db ?s"
    using m matches_good_sourced [OF m good]
    by (simp add: matches_def mem_updates split: option.splits)
  with ins show ?thesis by blast
qed

lemma insert_envelope:
  assumes m: "matches owner db s" and none: "fmlookup (ms_envelopes s) tid = None"
    and t: "fmlookup (ms_tasks s) tid \<noteq> None" and env: "er_task_id env = tid" "valid_id tid"
  shows "\<exists>db'. insert_envelope_row env db = Inr db' \<and> matches owner db' (put_envelope tid env s)"
proof -
  have rep: "envelopes_match (db_task_envelopes db) (ms_envelopes s)"
    using m by (simp add: matches_def)
  have "insert_envelope_row env db = Inr (db\<lparr>db_task_envelopes := db_task_envelopes db @ [env]\<rparr>)"
    using represents_absent [OF rep, of tid] none env by (simp add: insert_envelope_row_def)
  moreover have "matches owner (db\<lparr>db_task_envelopes := db_task_envelopes db @ [env]\<rparr>) (put_envelope tid env s)"
    using m represents_insert [OF rep none, of env] env
      matches_good_sourced [OF m mem_good_put_envelope [OF matches_inv [OF m] t env(1)]]
    by (simp add: matches_def put_envelope_def events_match_def mem_history_def)
  ultimately show ?thesis by blast
qed

lemma insert_context:
  assumes m: "matches owner db s" and none: "fmlookup (ms_transport_contexts s) tid = None"
    and t: "fmlookup (ms_tasks s) tid \<noteq> None" and ctx: "tc_task_id ctx = tid" "valid_context ctx"
  shows "\<exists>db'. insert_transport_context ctx db = Inr db' \<and> matches owner db' (put_context tid ctx s)"
proof -
  have rep: "contexts_match (db_transport_context db) (ms_transport_contexts s)"
    using m by (simp add: matches_def)
  have "insert_transport_context ctx db = Inr (db\<lparr>db_transport_context := db_transport_context db @ [ctx]\<rparr>)"
    using represents_absent [OF rep, of tid] none ctx by (simp add: insert_transport_context_def)
  moreover have "matches owner (db\<lparr>db_transport_context := db_transport_context db @ [ctx]\<rparr>) (put_context tid ctx s)"
    using m represents_insert [OF rep none, of ctx] ctx
      matches_good_sourced [OF m mem_good_put_context [OF matches_inv [OF m] t ctx(1)]]
    by (simp add: matches_def put_context_def events_match_def mem_history_def)
  ultimately show ?thesis by blast
qed

section \<open>Accept operations\<close>

lemma sim_case_option:
  assumes "x = None \<Longrightarrow> sim owner (transaction db y) v"
    and "\<And>a. x = Some a \<Longrightarrow> sim owner (transaction db (f a)) (g a)"
  shows "sim owner (transaction db (case x of None \<Rightarrow> y | Some a \<Rightarrow> f a)) (case x of None \<Rightarrow> v | Some a \<Rightarrow> g a)"
  using assms by (cases x) auto

text \<open>A key in the idempotency map names a stored task with a valid identifier.\<close>

lemma idempotency_task:
  assumes m: "matches owner db s" and key: "Option.bind key (fmlookup (ms_idempotency s)) = Some tid"
  shows "\<exists>t. fmlookup (ms_tasks s) tid = Some t \<and> valid_id tid"
proof -
  from key obtain k where "fmlookup (ms_idempotency s) k = Some tid"
    by (cases key) auto
  moreover have "idempotency_ok (ms_tasks s) (ms_idempotency s)"
    using matches_inv [OF m] by (simp add: mem_inv_def)
  ultimately obtain t where "fmlookup (ms_tasks s) tid = Some t"
    unfolding idempotency_ok_def by blast
  with matches_valid_task [OF m this] show ?thesis
    by (auto simp: valid_task_def)
qed

lemma sim_accept:
  assumes m: "matches owner db s" and t: "valid_task t" "tr_status t = Pending" "wf_record t"
  shows "sim owner (sql_accept_task t db) (mem_accept_task t s)"
proof (cases "Option.bind (tr_idempotency_key t) (fmlookup (ms_idempotency s))")
  case None
  then show ?thesis
    using m t insert_accepted [OF m t(1) _ _ None]
    by (cases "fmlookup (ms_tasks s) (tr_id t)")
      (auto simp: sql_accept_task_def mem_accept_task_def guard_defs fetches [OF m] fresh_task_def
        intro!: sim_error sim_commit)
next
  case (Some tid)
  with idempotency_task [OF m Some] m t show ?thesis
    by (auto simp: sql_accept_task_def mem_accept_task_def guard_defs fetches [OF m]
        intro!: sim_error sim_commit)
qed

lemma sim_accept_with_envelope:
  assumes m: "matches owner db s" and t: "valid_task t" "wf_record t"
  shows "sim owner (sql_accept_task_with_envelope t env db) (mem_accept_task_with_envelope t env s)"
proof (cases "tr_status t = Pending \<and> er_task_id env = tr_id t")
  case ok: True
  show ?thesis
  proof (cases "Option.bind (tr_idempotency_key t) (fmlookup (ms_idempotency s))")
    case None
    show ?thesis
    proof (cases "fmlookup (ms_tasks s) (tr_id t)")
      case new: None
      let ?s = "put_task (tr_id t) t (append_in_memory_event (tr_id t) TaskAccepted None Pending
        (put_idempotency (tr_idempotency_key t) (tr_id t) s))"
      obtain db1 where db1: "insert_accepted_task t db = Inr db1" "matches owner db1 ?s"
        using insert_accepted [OF m t(1) _ new None] t ok by (auto simp: fresh_task_def)
      have "fmlookup (ms_envelopes s) (tr_id t) = None"
        using matches_inv [OF m] new unfolding mem_inv_def transport_ok_def by (metis not_None_eq)
      then have "fmlookup (ms_envelopes ?s) (tr_id t) = None"
        by (simp add: mem_updates split: option.splits)
      then obtain db2 where "insert_envelope_row env db1 = Inr db2"
        "matches owner db2 (put_envelope (tr_id t) env ?s)"
        using insert_envelope [OF db1(2), of "tr_id t" env] ok t by (auto simp: valid_task_def)
      with db1 None new ok show ?thesis
        by (auto simp: sql_accept_task_with_envelope_def mem_accept_task_with_envelope_def guard_defs
            fetches [OF m] Let_def intro!: sim_commit)
    next
      case (Some u)
      with None m ok show ?thesis
        by (auto simp: sql_accept_task_with_envelope_def mem_accept_task_with_envelope_def guard_defs
            fetches [OF m] intro!: sim_error)
    qed
  next
    case (Some tid)
    with idempotency_task [OF m Some] m ok show ?thesis
      by (auto simp: sql_accept_task_with_envelope_def mem_accept_task_with_envelope_def guard_defs
          fetches [OF m] intro!: sim_error sim_commit)
  qed
next
  case False
  with m show ?thesis
    by (auto simp: sql_accept_task_with_envelope_def mem_accept_task_with_envelope_def guard_defs
        sim_def split: attempt_split)
qed

text \<open>
  On a redelivery the in-memory store replaces the context while the SQLite store updates two of its
  columns; with the same transport identity the results are equal.
\<close>

lemma redeliver_context:
  assumes m: "matches owner db s" and c: "fmlookup (ms_transport_contexts s) tid = Some c"
    and same: "same_transport_identity c ctx" and ctx: "tc_task_id ctx = tid" "valid_context ctx"
  shows "matches owner (db\<lparr>db_transport_context :=
      map (\<lambda>r. if tc_task_id r = tid then r\<lparr>tc_relay_frame_id := tc_relay_frame_id ctx,
        tc_received_at_ms := tc_received_at_ms ctx\<rparr> else r) (db_transport_context db)\<rparr>)
    (put_context tid ctx s)"
proof -
  have rep: "contexts_match (db_transport_context db) (ms_transport_contexts s)"
    using m by (simp add: matches_def)
  have "fmlookup (ms_tasks s) tid \<noteq> None"
    using matches_inv [OF m] c unfolding mem_inv_def transport_ok_def by blast
  note good = matches_good_sourced [OF m mem_good_put_context [OF matches_inv [OF m] this ctx(1)]]
  have "c\<lparr>tc_relay_frame_id := tc_relay_frame_id ctx, tc_received_at_ms := tc_received_at_ms ctx\<rparr> = ctx"
    using same by (cases c; cases ctx) (simp add: same_transport_identity_def)
  with represents_update [OF rep c, of "\<lambda>r. r\<lparr>tc_relay_frame_id := tc_relay_frame_id ctx,
      tc_received_at_ms := tc_received_at_ms ctx\<rparr>" ctx] ctx
  have "contexts_match (map (\<lambda>r. if tc_task_id r = tid then r\<lparr>tc_relay_frame_id := tc_relay_frame_id ctx,
      tc_received_at_ms := tc_received_at_ms ctx\<rparr> else r) (db_transport_context db))
      (fmupd tid ctx (ms_transport_contexts s))"
    by simp
  with m good show ?thesis
    by (simp add: matches_def put_context_def events_match_def mem_history_def)
qed

lemma sim_accept_with_context:
  assumes m: "matches owner db s" and t: "valid_task t" "wf_record t" and ctx: "valid_context ctx"
  shows "sim owner (sql_accept_task_with_envelope_and_context t env ctx db)
    (mem_accept_task_with_envelope_and_context t env ctx s)"
proof (cases "tr_status t = Pending \<and> er_task_id env = tr_id t \<and> tc_task_id ctx = tr_id t")
  case ok: True
  show ?thesis
  proof (cases "fmlookup (ms_tasks s) (tr_id t)")
    case (Some u)
    with m ok ctx redeliver_context [OF m] show ?thesis
      by (auto simp: sql_accept_task_with_envelope_and_context_def guard_defs fetches [OF m]
          mem_accept_task_with_envelope_and_context_def intro!: sim_error sim_commit
          split: option.split)
  next
    case new: None
    show ?thesis
    proof (cases "Option.bind (tr_idempotency_key t) (fmlookup (ms_idempotency s))")
      case None
      let ?s = "put_task (tr_id t) t (append_in_memory_event (tr_id t) TaskAccepted None Pending
        (put_idempotency (tr_idempotency_key t) (tr_id t) s))"
      obtain db1 where db1: "insert_accepted_task t db = Inr db1" "matches owner db1 ?s"
        using insert_accepted [OF m t(1) _ new None] t ok by (auto simp: fresh_task_def)
      have "fmlookup (ms_envelopes s) (tr_id t) = None" "fmlookup (ms_transport_contexts s) (tr_id t) = None"
        using matches_inv [OF m] new unfolding mem_inv_def transport_ok_def by (metis not_None_eq)+
      then have absent: "fmlookup (ms_envelopes ?s) (tr_id t) = None"
        "fmlookup (ms_transport_contexts (put_envelope (tr_id t) env ?s)) (tr_id t) = None"
        by (simp_all add: mem_updates split: option.splits)
      then obtain db2 where db2: "insert_envelope_row env db1 = Inr db2"
        "matches owner db2 (put_envelope (tr_id t) env ?s)"
        using insert_envelope [OF db1(2), of "tr_id t" env] ok t by (auto simp: valid_task_def)
      then obtain db3 where "insert_transport_context ctx db2 = Inr db3"
        "matches owner db3 (put_context (tr_id t) ctx (put_envelope (tr_id t) env ?s))"
        using insert_context [OF db2(2) absent(2), of ctx] ok ctx by auto
      with db1 db2 None new ok show ?thesis
        by (auto simp: sql_accept_task_with_envelope_and_context_def guard_defs fetches [OF m] Let_def
            mem_accept_task_with_envelope_and_context_def intro!: sim_commit)
    next
      case (Some tid)
      with idempotency_task [OF m Some] m ok new show ?thesis
        by (auto simp: sql_accept_task_with_envelope_and_context_def guard_defs fetches [OF m]
            mem_accept_task_with_envelope_and_context_def intro!: sim_error)
    qed
  qed
next
  case False
  with m show ?thesis
    by (auto simp: sql_accept_task_with_envelope_and_context_def guard_defs sim_def
        mem_accept_task_with_envelope_and_context_def split: attempt_split)
qed

lemma sim_put_context:
  assumes m: "matches owner db s" and ctx: "valid_context ctx"
  shows "sim owner (sql_put_transport_context ctx db) (mem_put_transport_context ctx s)"
proof (cases "fmlookup (ms_tasks s) (tc_task_id ctx)")
  case (Some t)
  show ?thesis
  proof (cases "fmlookup (ms_transport_contexts s) (tc_task_id ctx)")
    case None
    with Some m insert_context [OF m None _ refl ctx] show ?thesis
      by (auto simp: sql_put_transport_context_def mem_put_transport_context_def fetches [OF m]
          intro!: sim_commit)
  qed (use Some m in \<open>auto simp: sql_put_transport_context_def mem_put_transport_context_def
         fetches [OF m] intro!: sim_commit sim_error\<close>)
qed (use m in \<open>auto simp: sql_put_transport_context_def mem_put_transport_context_def fetches [OF m]
       intro!: sim_error\<close>)

section \<open>Terminal results\<close>

lemma outbox_task_absent:
  assumes m: "matches owner db s" and none: "fmlookup (ms_terminal_results s) tid = None"
  shows "\<not> list_ex (\<lambda>r. ox_task_id r = tid) (db_result_outbox db)"
    and "fmlookup (ms_result_outbox s) (delivery_id tid) = None"
proof -
  have rep: "outbox_matches (db_result_outbox db) (ms_result_outbox s)"
    using m by (simp add: matches_def)
  have absent: "ob_task_id ob \<noteq> tid" if "fmlookup (ms_result_outbox s) d = Some ob" for d ob
    using matches_inv [OF m] none that unfolding mem_inv_def results_ok_def by (metis option.distinct(1))
  show "\<not> list_ex (\<lambda>r. ox_task_id r = tid) (db_result_outbox db)"
  proof
    assume "list_ex (\<lambda>r. ox_task_id r = tid) (db_result_outbox db)"
    then obtain r where r: "r \<in> set (db_result_outbox db)" "ox_task_id r = tid"
      by (auto simp: list_ex_iff)
    from outbox_matches_row [OF rep r(1)] obtain ob where
      "fmlookup (ms_result_outbox s) (ox_delivery_id r) = Some ob" "addressed_to r ob" .
    with absent r(2) show False by (auto simp: addressed_to_def)
  qed
  show "fmlookup (ms_result_outbox s) (delivery_id tid) = None"
    using matches_inv [OF m] absent unfolding mem_inv_def results_ok_def
    by (metis delivery_id_inj not_None_eq)
qed

lemma insert_result:
  assumes m: "matches owner db s" and t: "fmlookup (ms_tasks s) tid = Some t" "is_terminal (tr_status t)"
    and none: "fmlookup (ms_terminal_results s) tid = None"
    and r: "tm_task_id r = tid" "is_terminal (tm_terminal_status r)" "valid_result r"
  shows "\<exists>db'. insert_terminal_result_and_outbox r db = Inr db' \<and> matches owner db' (put_result tid r s)"
proof -
  have rep: "results_match (db_terminal_results db) (ms_terminal_results s)"
    and rep_ob: "outbox_matches (db_result_outbox db) (ms_result_outbox s)"
    using m by (simp_all add: matches_def)
  note absent = outbox_task_absent [OF m none]
  note good = matches_good_sourced [OF m mem_good_put_result [OF matches_inv [OF m] t none r(1,2)]]
  have res: "results_match (db_terminal_results db @ [result_to_row r]) (fmupd tid r (ms_terminal_results s))"
    using represents_insert [OF rep none, of r] r by (simp add: result_to_row_def)
  have only: "insert_terminal_result_only r db =
      Inr (db\<lparr>db_terminal_results := db_terminal_results db @ [result_to_row r]\<rparr>)"
    using represents_absent [OF rep, of tid] none r by (simp add: insert_terminal_result_only_def)
  show ?thesis
  proof (cases "make_outbox r")
    case None
    with only res good m show ?thesis
      by (auto simp: insert_terminal_result_and_outbox_def put_result_def matches_def
          events_match_def mem_history_def)
  next
    case (Some ob)
    then have ob: "ob_task_id ob = tid" "ob_delivery_id ob = delivery_id tid" "valid_outbox ob"
      using r by (auto simp: make_outbox_def valid_outbox_def valid_result_def valid_opt_def)
    have "outbox_matches (db_result_outbox db @ [outbox_to_row ob])
        (fmupd (delivery_id tid) ob (ms_result_outbox s))"
      using Some ob by (intro outbox_matches_insert [OF rep_ob absent(2)])
        (auto simp: outbox_to_row_def delivery_ok_def addressed_to_def make_outbox_def
          max_result_delivery_attempts_def)
    with only res good m Some absent ob outbox_matches_absent [OF rep_ob, of "delivery_id tid"] show ?thesis
      by (auto simp: insert_terminal_result_and_outbox_def insert_outbox_row_def put_result_def matches_def
          outbox_to_row_def events_match_def mem_history_def)
  qed
qed

lemma sim_in_tx_result:
  assumes m: "matches owner db s" and sim: "sim_in_tx owner s r r'"
    and fin: "\<And>u s'. r' = (Inr u, s') \<Longrightarrow> fmlookup (ms_tasks s') tid = Some u \<and>
      is_terminal (tr_status u) \<and> ms_terminal_results s' = ms_terminal_results s"
    and none: "fmlookup (ms_terminal_results s) tid = None"
    and res: "tm_task_id res = tid" "is_terminal (tm_terminal_status res)" "valid_result res"
  shows "sim owner (transaction db (bindR r (\<lambda>(u, db'). bindR (insert_terminal_result_and_outbox res db')
      (\<lambda>db. commit u db))))
    (case r' of (Inl e, s') \<Rightarrow> (Inl e, s') | (Inr u, s') \<Rightarrow> (Inr u, put_result tid res s'))"
proof (cases r)
  case (Inl e)
  with sim m show ?thesis by (simp add: sim_in_tx_def sim_error)
next
  case (Inr p)
  then obtain u db' s' where p: "r = Inr (u, db')" "r' = (Inr u, s')" "matches owner db' s'"
    using sim by (cases p) (auto simp: sim_in_tx_def)
  with fin [OF p(2)] none have "\<exists>db2. insert_terminal_result_and_outbox res db' = Inr db2 \<and>
      matches owner db2 (put_result tid res s')"
    by (intro insert_result [OF p(3) _ _ _ res]) auto
  with p show ?thesis by (auto intro: sim_commit)
qed

lemma sim_complete_with_result:
  assumes m: "matches owner db s" and r: "valid_result r"
  shows "sim owner (sql_complete_task_with_result tid lid wid r db) (mem_complete_task_with_result tid lid wid r s)"
proof (cases "ensure_result_task r tid")
  case (Inr a)
  then have res: "tm_task_id r = tid" "is_terminal (tm_terminal_status r)" by auto
  show ?thesis
  proof (cases "fmlookup (ms_terminal_results s) tid")
    case None
    have "sim owner (transaction db (bindR (find_task s tid) (\<lambda>t.
        bindR (finish_task_in_tx tid lid wid Completed (tr_retry_count t) (tr_dead_lettered t)
          (tr_dead_letter_reason t) db) (\<lambda>(u, db'). bindR (insert_terminal_result_and_outbox r db')
          (\<lambda>db. commit u db)))))
      (attempt (find_task s tid) s (\<lambda>t.
        case finish_task_in_state tid lid wid Completed (tr_retry_count t) (tr_dead_lettered t)
          (tr_dead_letter_reason t) s of (Inl e, s') \<Rightarrow> (Inl e, s')
        | (Inr u, s') \<Rightarrow> (Inr u, put_result tid r s')))"
      using finish_task_in_state_ok
      by (intro sim_bind [OF m refl] sim_in_tx_result [OF m] sim_finish [OF m] None res r) auto
    with Inr None show ?thesis
      by (simp add: sql_complete_task_with_result_def mem_complete_task_with_result_def fetches [OF m]
          sql_recorded_result_def mem_recorded_result_def)
  next
    case (Some stored)
    with Inr m show ?thesis
      by (cases "fmlookup (ms_tasks s) tid")
        (auto simp: sql_complete_task_with_result_def mem_complete_task_with_result_def fetches [OF m]
          sql_recorded_result_def mem_recorded_result_def intro: sim_error sim_commit)
  qed
qed (use m in \<open>simp add: sql_complete_task_with_result_def mem_complete_task_with_result_def sim_def\<close>)

lemma sim_fail_with_result:
  assumes m: "matches owner db s" and r: "valid_result r"
  shows "sim owner (sql_fail_task_with_result tid lid wid reason policy r db)
    (mem_fail_task_with_result tid lid wid reason policy r s)"
proof (cases "ensure_result_task r tid")
  case (Inr a)
  then have res: "tm_task_id r = tid" "is_terminal (tm_terminal_status r)" by auto
  show ?thesis
  proof (cases "fmlookup (ms_terminal_results s) tid")
    case None
    have fin: "sim_in_tx owner s
        (if max_retries policy = 0 then finish_task_in_tx tid lid wid Failed (tr_retry_count t) False None db
         else sqlite_dead_letter_task_in_tx tid t reason db)
        (if max_retries policy = 0 then finish_task_in_state tid lid wid Failed (tr_retry_count t) False None s
         else dead_letter_task_in_state tid active t reason s)"
      if "fmlookup (ms_tasks s) tid = Some t" for t active
      using finish_reset [OF m that] sim_dead_letter_in_tx [OF m that] by simp
    have fin_ok: "(if max_retries policy = 0 then finish_task_in_state tid lid wid Failed (tr_retry_count t) False None s
         else dead_letter_task_in_state tid active t reason s) = (Inr u, s') \<Longrightarrow>
        fmlookup (ms_tasks s') tid = Some u \<and> is_terminal (tr_status u) \<and>
        ms_terminal_results s' = ms_terminal_results s" for t active u s'
      using finish_task_in_state_ok dead_letter_task_in_state_ok by (auto split: if_splits)
    show ?thesis
      unfolding sql_fail_task_with_result_def mem_fail_task_with_result_def sql_recorded_result_def
        mem_recorded_result_def fetches [OF m] Inr None attempt_simps bindR_simps option.case
      by (intro fetch_owned_bind [OF m] sim_if sim_from_in_tx [OF m] sim_retry_in_tx [OF m]
          sim_in_tx_result [OF m fin fin_ok None res r])
  next
    case (Some stored)
    with Inr m show ?thesis
      by (cases "fmlookup (ms_tasks s) tid")
        (auto simp: sql_fail_task_with_result_def mem_fail_task_with_result_def fetches [OF m]
          sql_recorded_result_def mem_recorded_result_def intro: sim_error sim_commit)
  qed
qed (use m in \<open>simp add: sql_fail_task_with_result_def mem_fail_task_with_result_def sim_def\<close>)

lemma sim_cancel_with_result:
  assumes m: "matches owner db s" and r: "valid_result r"
  shows "sim owner (sql_cancel_task_with_result tid lid wid now_ms r db)
    (mem_cancel_task_with_result tid lid wid now_ms r s)"
proof -
  have leaf: "sim owner (transaction db (bindR (insert_event tid (next_sequence_with_executor tid db)
        TaskCanceled (Some (tr_status t)) Failed
        (update_tasks_where tid (\<lambda>r. r\<lparr>tk_status := status_to_str Failed\<rparr>)
          (deactivate_lease_for_task_with_executor tid db)))
        (\<lambda>db2. bindR (insert_terminal_result_and_outbox r db2) (\<lambda>db3. Inr (sql_get_task tid db3, db3)))))
      (Inr (t\<lparr>tr_status := Failed\<rparr>), put_result tid r (put_task tid (t\<lparr>tr_status := Failed\<rparr>)
        (append_in_memory_event tid TaskCanceled (Some (tr_status t)) Failed (remove_lease tid s))))"
    if t: "fmlookup (ms_tasks s) tid = Some t" "\<not> is_terminal (tr_status t)"
      and none: "fmlookup (ms_terminal_results s) tid = None"
      and res: "tm_task_id r = tid" "is_terminal (tm_terminal_status r)" for t
  proof (rule sim_release [OF m t(1) task_step.cancel [OF t(2)] refl])
    let ?s = "put_task tid (t\<lparr>tr_status := Failed\<rparr>)
      (append_in_memory_event tid TaskCanceled (Some (tr_status t)) Failed (remove_lease tid s))"
    fix db' assume m': "matches owner db' ?s"
    have "fmlookup (ms_terminal_results ?s) tid = None"
      using none by (simp add: mem_updates)
    with insert_result [OF m' _ _ _ res r] obtain db2 where
      db2: "insert_terminal_result_and_outbox r db' = Inr db2" "matches owner db2 (put_result tid r ?s)"
      by auto
    have "fmlookup (ms_tasks (put_result tid r ?s)) tid = Some (t\<lparr>tr_status := Failed\<rparr>)"
      by (simp add: put_result_def Let_def mem_updates split: option.split)
    with db2 show "sim owner (transaction db (bindR (insert_terminal_result_and_outbox r db')
        (\<lambda>db3. Inr (sql_get_task tid db3, db3)))) (Inr (t\<lparr>tr_status := Failed\<rparr>), put_result tid r ?s)"
      by (simp add: get_task sim_committed)
  qed (simp_all add: task_to_row_def)
  have cancel: "sim owner (transaction db (bindR (map_err from_core_error (validate_cancel_transition (tr_status t)))
        (\<lambda>tr. bindR (Inr (fmlookup (ms_terminal_results s) tid)) (\<lambda>existing.
        if existing \<noteq> None then Inl (TerminalResultConflict tid)
        else if tm_terminal_status r \<noteq> tt_to tr then Inl (TerminalResultNotTerminal tid)
        else bindR (insert_event tid (next_sequence_with_executor tid db) (tt_event_type tr)
          (Some (tt_from tr)) (tt_to tr) (update_tasks_where tid (\<lambda>r. r\<lparr>tk_status := status_to_str (tt_to tr)\<rparr>)
          (deactivate_lease_for_task_with_executor tid db))) (\<lambda>db2. bindR (insert_terminal_result_and_outbox r db2)
            (\<lambda>db3. Inr (sql_get_task tid db3, db3)))))))
      (attempt (map_err from_core_error (validate_cancel_transition (tr_status t))) s (\<lambda>tr.
        if fmlookup (ms_terminal_results s) tid \<noteq> None then (Inl (TerminalResultConflict tid), s)
        else if tm_terminal_status r \<noteq> tt_to tr then (Inl (TerminalResultNotTerminal tid), s)
        else (Inr (t\<lparr>tr_status := tt_to tr\<rparr>), put_result tid r (put_task tid (t\<lparr>tr_status := tt_to tr\<rparr>)
        (append_in_memory_event tid (tt_event_type tr) (Some (tt_from tr)) (tt_to tr) (remove_lease tid s))))))"
    if "fmlookup (ms_tasks s) tid = Some t" "tm_task_id r = tid" "is_terminal (tm_terminal_status r)" for t
    using leaf [OF that(1) _ _ that(2,3)]
    by (intro sim_bind [OF m refl]) (auto simp: validate_cancel_transition_Inr intro: sim_error [OF m])
  show ?thesis
    unfolding sql_cancel_task_with_result_def mem_cancel_task_with_result_def fetches [OF m] status_updates Let_def
    by (intro sim_attempt [OF m] sim_bind [OF m] cancel) auto
qed

end
