(* ===== verification/Sql_Sweep.thy ===== *)
theory Sql_Sweep
  imports Sql_Accept
begin

text \<open>
  The simulation of the sweeping operations, \<open>fail_expired_deadlines\<close> and \<open>recover_stale_leases\<close>,
  and of the queries; then the contracts: the SQLite store simulates the in-memory store over every
  sequence of operations, and is itself an event-sourced task store.
\<close>

section \<open>Ordered selections\<close>

lemma insort_map: "insort (h a) (map h ys) = map h (insort_key h a ys)" for h :: "'a \<Rightarrow> 'b::linorder"
  by (induction ys) auto

lemma sort_map: "sort (map h xs) = map h (sort_key h xs)" for h :: "'a \<Rightarrow> 'b::linorder"
  by (induction xs) (simp_all add: insort_map)

lemma sql_limit_opt_truncate: "limit_ok limit \<Longrightarrow> sql_limit_opt limit xs = truncate_to limit xs"
  by (simp add: limit_ok_def sql_limit_opt_def sql_limit_def truncate_to_def split: option.splits)

lemma truncate_to_map: "truncate_to limit (map f xs) = map f (truncate_to limit xs)"
  by (simp add: truncate_to_def take_map split: option.split)

lemma set_truncate_to: "set (truncate_to limit xs) \<subseteq> set xs"
  by (auto simp: truncate_to_def dest: in_set_takeD split: option.splits)

lemma distinct_truncate_to: "distinct (map f xs) \<Longrightarrow> distinct (map f (truncate_to limit xs))"
  by (simp add: truncate_to_def take_map [symmetric] split: option.split)

definition expired_task :: "int \<Rightarrow> task_record \<Rightarrow> bool" where
  "expired_task now_ms t \<longleftrightarrow>
     (case tr_deadline_ms t of None \<Rightarrow> False | Some d \<Rightarrow> d \<le> now_ms) \<and> \<not> is_terminal (tr_status t)"

definition deadline_key :: "task_record \<Rightarrow> int \<times> string" where
  "deadline_key t = (the (tr_deadline_ms t), tr_id t)"

definition expired_tasks :: "int \<Rightarrow> nat option \<Rightarrow> mem_state \<Rightarrow> task_record list" where
  "expired_tasks now_ms limit s =
     truncate_to limit (sort_key deadline_key (filter (expired_task now_ms) (fmvalues (ms_tasks s))))"

lemma mem_expired_deadlines_eq:
  "mem_expired_deadlines now_ms limit s = map deadline_key (expired_tasks now_ms limit s)"
proof -
  have filt: "List.map_filter (expired_deadline now_ms) (filter (\<lambda>t. tr_status t = Pending \<or> tr_status t = Running) xs)
      = map deadline_key (filter (expired_task now_ms) xs)" for xs
  proof (induction xs)
    case (Cons t ts)
    then show ?case
      by (cases "tr_status t")
        (auto simp: List.map_filter_def expired_deadline_def expired_task_def deadline_key_def split: option.splits)
  qed (simp add: List.map_filter_def)
  show ?thesis
    unfolding mem_expired_deadlines_def expired_tasks_def filt sort_map truncate_to_map ..
qed

lemma values_by_id:
  "mem_inv s \<Longrightarrow> t \<in> set (fmvalues (ms_tasks s)) \<Longrightarrow> fmlookup (ms_tasks s) (tr_id t) = Some t"
  by (auto simp: set_fmvalues dest: mem_inv_task)

lemma distinct_ids: "mem_inv s \<Longrightarrow> distinct (map tr_id (fmvalues (ms_tasks s)))"
  using map_fmvalues [of "ms_tasks s" tr_id] by (simp add: mem_inv_task)

lemma sql_expired_deadlines_eq:
  assumes m: "matches owner db s" and limit: "limit_ok limit"
  shows "sql_expired_deadlines now_ms limit db = map task_to_row (expired_tasks now_ms limit s)"
proof -
  have "sort_key (\<lambda>r. (the (tk_deadline_ms r), tk_task_id r)) (filter (deadline_expired now_ms) (db_tasks db)) =
      map task_to_row (sort_key deadline_key (filter (expired_task now_ms) (fmvalues (ms_tasks s))))"
  proof (rule represents_select)
    show "tasks_match (db_tasks db) (ms_tasks s)"
      using m by (simp add: matches_def)
    show "deadline_expired now_ms (task_to_row t) \<longleftrightarrow> expired_task now_ms t" for t
      by (cases "tr_status t") (simp_all add: deadline_expired_def expired_task_def task_to_row_def)
    show "(the (tk_deadline_ms (task_to_row t)), tk_task_id (task_to_row t)) = deadline_key t" for t
      by (simp add: task_to_row_def deadline_key_def)
    show "u = v" if "u \<in> set (fmvalues (ms_tasks s))" "v \<in> set (fmvalues (ms_tasks s))"
      "deadline_key u = deadline_key v" for u v
      using that values_by_id [OF matches_inv [OF m]] by (simp add: deadline_key_def) (metis option.inject)
  qed
  then show ?thesis
    by (simp add: sql_expired_deadlines_def sql_limit_opt_truncate [OF limit] truncate_to_map expired_tasks_def)
qed

section \<open>Deadlines\<close>

lemma lookup_commit_other:
  "k \<noteq> tid \<Longrightarrow> fmlookup (ms_tasks (put_task tid t (append_in_memory_event tid ty from to (remove_lease tid s)))) k =
     fmlookup (ms_tasks s) k"
  by (simp add: mem_updates)

lemma sim_fail_expired_loop:
  assumes "matches owner db s"
    and "\<And>t. t \<in> set ts \<Longrightarrow> fmlookup (ms_tasks s) (tr_id t) = Some t \<and> \<not> is_terminal (tr_status t)"
    and "distinct (map tr_id ts)"
  shows "\<exists>db' s' fs. sql_fail_expired_loop (map task_to_row ts) failed db = Inr (fs, db') \<and>
    mem_fail_expired_loop (map deadline_key ts) failed s = (Inr fs, s') \<and> matches owner db' s'"
  using assms
proof (induction ts arbitrary: failed db s)
  case (Cons t ts)
  let ?s = "put_task (tr_id t) (t\<lparr>tr_status := Failed\<rparr>)
    (append_in_memory_event (tr_id t) TaskTimedOut (Some (tr_status t)) Failed (remove_lease (tr_id t) s))"
  have t: "fmlookup (ms_tasks s) (tr_id t) = Some t" "\<not> is_terminal (tr_status t)"
    using Cons.prems(2) by auto
  then obtain db' where db': "set_status_with_event (tr_id t) Failed (next_sequence_with_executor (tr_id t) db)
      TaskTimedOut (tr_status t) Failed (deactivate_lease_for_task_with_executor (tr_id t) db) = Inr db'"
    "matches owner db' ?s"
    using event_release [OF Cons.prems(1) t(1) task_step.time_out [OF t(2)], of "Some (tr_status t)" Failed
        "\<lambda>r. r\<lparr>tk_status := status_to_str Failed\<rparr>"]
    by (auto simp: status_updates task_to_row_def)
  have rest: "fmlookup (ms_tasks ?s) (tr_id u) = Some u \<and> \<not> is_terminal (tr_status u)" if "u \<in> set ts" for u
  proof -
    have "tr_id u \<in> set (map tr_id ts)"
      using that by simp
    then have "tr_id u \<noteq> tr_id t"
      using Cons.prems(3) by (auto simp del: set_map)
    with Cons.prems(2) [of u] that show ?thesis
      by (simp add: lookup_commit_other)
  qed
  have dist: "distinct (map tr_id ts)"
    using Cons.prems(3) by simp
  obtain db2 s2 fs where
    "sql_fail_expired_loop (map task_to_row ts) (failed @ [t\<lparr>tr_status := Failed\<rparr>]) db' = Inr (fs, db2)"
    "mem_fail_expired_loop (map deadline_key ts) (failed @ [t\<lparr>tr_status := Failed\<rparr>]) ?s = (Inr fs, s2)"
    "matches owner db2 s2"
    using Cons.IH [OF db'(2) rest dist, of "failed @ [t\<lparr>tr_status := Failed\<rparr>]"] by blast
  moreover have "row_to_task (task_to_row t) = Inr t"
    using matches_valid_task [OF Cons.prems(1) t(1)] by simp
  moreover have "validate_deadline_transition (tr_status t) = Inr ()"
    using t(2) by (cases "tr_status t") auto
  ultimately show ?case
    using t(1) db'(1) by (simp add: deadline_key_def [of t] Let_def)
qed simp

lemma sim_fail_expired:
  assumes m: "matches owner db s" and limit: "limit_ok limit"
  shows "sim owner (sql_fail_expired_deadlines now_ms limit db) (mem_fail_expired_deadlines now_ms limit s)"
proof -
  have ts: "fmlookup (ms_tasks s) (tr_id t) = Some t \<and> \<not> is_terminal (tr_status t)"
    if "t \<in> set (expired_tasks now_ms limit s)" for t
    using that set_truncate_to values_by_id [OF matches_inv [OF m]]
    by (force simp: expired_tasks_def expired_task_def)
  have "distinct (map tr_id (sort_key deadline_key (filter (expired_task now_ms) (fmvalues (ms_tasks s)))))"
    using distinct_ids [OF matches_inv [OF m]] by (auto simp: distinct_map inj_on_def)
  then have "distinct (map tr_id (expired_tasks now_ms limit s))"
    unfolding expired_tasks_def by (rule distinct_truncate_to)
  from sim_fail_expired_loop [OF m ts this, of "[]"] show ?thesis
    unfolding sql_fail_expired_deadlines_def mem_fail_expired_deadlines_def
      mem_expired_deadlines_eq sql_expired_deadlines_eq [OF m limit]
    by (auto intro!: sim_commit)
qed

section \<open>Stale leases\<close>

definition lease_key :: "lease_record \<Rightarrow> int \<times> string" where
  "lease_key l = (lr_expires_at_ms l, lr_task_id l)"

lemma lease_by_task:
  "mem_inv s \<Longrightarrow> l \<in> set (fmvalues (ms_leases s)) \<Longrightarrow> fmlookup (ms_leases s) (lr_task_id l) = Some l"
  by (auto simp: set_fmvalues dest: mem_inv_lease)

lemma distinct_lease_tasks: "mem_inv s \<Longrightarrow> distinct (map lr_task_id (fmvalues (ms_leases s)))"
  using map_fmvalues [of "ms_leases s" lr_task_id] by (simp add: mem_inv_lease)

lemma sql_stale_leases_eq:
  assumes m: "matches owner db s" and limit: "limit_ok limit"
  shows "sql_stale_leases now_ms limit db = map lease_to_row (mem_stale_leases now_ms limit s)"
proof -
  have "sort_key (\<lambda>r. (ll_expires_at_ms r, ll_task_id r))
        (filter (\<lambda>r. ll_expires_at_ms r \<le> now_ms) (filter ll_active (db_leases db))) =
      map lease_to_row (sort_key (\<lambda>l. (lr_expires_at_ms l, lr_task_id l))
        (filter (\<lambda>l. lr_expires_at_ms l \<le> now_ms) (fmvalues (ms_leases s))))"
  proof (rule represents_select)
    show "represents ll_task_id (\<lambda>_. lease_to_row) valid_lease (filter ll_active (db_leases db)) (ms_leases s)"
      using m by (simp add: matches_def leases_match_def)
    show "u = v" if "u \<in> set (fmvalues (ms_leases s))" "v \<in> set (fmvalues (ms_leases s))"
      "(lr_expires_at_ms u, lr_task_id u) = (lr_expires_at_ms v, lr_task_id v)" for u v
      using that lease_by_task [OF matches_inv [OF m]] by simp (metis option.inject)
  qed (simp_all add: lease_to_row_def)
  then show ?thesis
    by (simp add: sql_stale_leases_def mem_stale_leases_def sql_limit_opt_truncate [OF limit]
        truncate_to_map conj_commute)
qed

lemma recovery_actions: "sql_recovery_action st = recovery_action st"
  by (cases st) simp_all

lemma next_sequence_events:
  "next_sequence_with_executor tid (update_tasks_where k f db) = next_sequence_with_executor tid db"
  "next_sequence_with_executor tid (deactivate_lease_for_task_with_executor k db) = next_sequence_with_executor tid db"
  by (simp_all add: next_sequence_with_executor_def update_tasks_where_def
      deactivate_lease_for_task_with_executor_def)

lemma sim_recover_loop:
  assumes "matches owner db s"
    and "\<And>l. l \<in> set ls \<Longrightarrow> fmlookup (ms_leases s) (lr_task_id l) = Some l"
    and "distinct (map lr_task_id ls)"
  shows "\<exists>db' s' rs. recover_sqlite_leases_with_executor (map lease_to_row ls) recovered cleaned db = Inr (rs, db') \<and>
    mem_recover_loop ls recovered cleaned s = (rs, s') \<and> matches owner db' s'"
  using assms
proof (induction ls arbitrary: recovered cleaned db s)
  case (Cons l ls)
  let ?tid = "lr_task_id l"
  have l: "fmlookup (ms_leases s) ?tid = Some l"
    using Cons.prems(2) by auto
  with mem_inv_lease [OF matches_inv [OF Cons.prems(1)]] obtain t where
    t: "fmlookup (ms_tasks s) ?tid = Some t" "tr_status t = Running" by blast
  let ?s = "put_task ?tid (t\<lparr>tr_status := Pending\<rparr>)
    (append_in_memory_event ?tid RecoveryAction (Some Running) Pending (remove_lease ?tid s))"
  obtain db' where db': "insert_event ?tid (next_sequence_with_executor ?tid db) RecoveryAction (Some Running) Pending
      (update_task_status_with_executor ?tid Pending (deactivate_lease_for_task_with_executor ?tid db)) = Inr db'"
    "matches owner db' ?s"
    using event_release [OF Cons.prems(1) t(1) task_step_recovery, of "Some Running" Pending
        "\<lambda>r. r\<lparr>tk_status := status_to_str Pending\<rparr>"] t(2)
    by (auto simp: status_updates task_to_row_def)
  have rest: "fmlookup (ms_leases ?s) (lr_task_id k) = Some k" if "k \<in> set ls" for k
  proof -
    have "lr_task_id k \<in> set (map lr_task_id ls)"
      using that by simp
    then have "lr_task_id k \<noteq> ?tid"
      using Cons.prems(3) by (auto simp del: set_map)
    with Cons.prems(2) [of k] that show ?thesis
      by (simp add: mem_updates)
  qed
  have dist: "distinct (map lr_task_id ls)"
    using Cons.prems(3) by simp
  obtain db2 s2 rs where
    "recover_sqlite_leases_with_executor (map lease_to_row ls) (recovered @ [t\<lparr>tr_status := Pending\<rparr>]) cleaned db' = Inr (rs, db2)"
    "mem_recover_loop ls (recovered @ [t\<lparr>tr_status := Pending\<rparr>]) cleaned ?s = (rs, s2)"
    "matches owner db2 s2"
    using Cons.IH [OF db'(2) rest dist, of "recovered @ [t\<lparr>tr_status := Pending\<rparr>]" cleaned] by blast
  moreover have "row_to_lease (lease_to_row l) = Inr l"
    using represents_ok [of ll_task_id "\<lambda>_. lease_to_row" valid_lease _ "ms_leases s"] Cons.prems(1) l
    by (force simp: matches_def leases_match_def)
  moreover have "fmlookup (ms_tasks (remove_lease ?tid s)) ?tid = Some t"
    using t(1) by (simp add: remove_lease_def)
  ultimately show ?case
    using t db'(1) by (simp add: fetches [OF Cons.prems(1)] Let_def recovery_actions
        update_task_status_with_executor_def next_sequence_events)
qed simp

text \<open>No stored task is reported as corrupt, by either store.\<close>

lemma history_replays:
  assumes m: "matches owner db s" and t: "fmlookup (ms_tasks s) tid = Some t"
  shows "replay_task_from_snapshot_and_events t (mem_history s tid) = Inr t"
    and "mem_history s tid \<noteq> []"
  using matches_sourced [OF m, of tid] t sourced_replay [of tid t "mem_history s tid"]
  by (auto simp: mem_observe_def sourced_def replays_to_def)

lemma no_corrupt_row:
  assumes m: "matches owner db s" and r: "r \<in> set (db_tasks db)"
  obtains t where "tk_task_id r = tr_id t" and "valid_id (tr_id t)"
    and "fmlookup (ms_tasks s) (tr_id t) = Some t"
    and "events_for_task_with_executor (tr_id t) db = Inr (mem_history s (tr_id t))"
    and "replay_task_from_snapshot_and_events t (mem_history s (tr_id t)) = Inr t"
proof -
  have "tasks_match (db_tasks db) (ms_tasks s)"
    using m by (simp add: matches_def)
  from represents_row [OF this r] obtain t where
    t: "fmlookup (ms_tasks s) (tk_task_id r) = Some t" and r: "r = task_to_row t" .
  have tid: "tk_task_id r = tr_id t" "valid_id (tr_id t)"
    using matches_valid_task [OF m t] unfolding valid_task_def by auto
  from t tid(1) have t': "fmlookup (ms_tasks s) (tr_id t) = Some t" by simp
  have "events_for_task_with_executor (tr_id t) db = Inr (mem_history s (tr_id t))"
    using history_replays(2) [OF m t'] decode_history [OF m, of "tr_id t"]
    by (simp add: events_for_task_with_executor_def select_events_rows [OF m] Let_def)
  then show thesis
    using that [OF tid t'] history_replays(1) [OF m t'] by blast
qed

lemma no_corrupt_loop:
  assumes m: "matches owner db s" and "set rows \<subseteq> set (db_tasks db)"
  shows "corrupt_tasks_loop rows db = Inr []"
  using assms(2)
proof (induction rows)
  case (Cons r rows)
  then have "r \<in> set (db_tasks db)" by simp
  from no_corrupt_row [OF m this] obtain t where t: "tk_task_id r = tr_id t" "valid_id (tr_id t)"
    "fmlookup (ms_tasks s) (tr_id t) = Some t"
    "events_for_task_with_executor (tr_id t) db = Inr (mem_history s (tr_id t))"
    "replay_task_from_snapshot_and_events t (mem_history s (tr_id t)) = Inr t" .
  from Cons have "corrupt_tasks_loop rows db = Inr []" by simp
  with t show ?case by (simp add: fetch_task [OF m])
qed simp

lemma no_corruption:
  assumes m: "matches owner db s"
  shows "collect_corrupt_sqlite_tasks_with_executor db = Inr []"
    and "collect_corrupt_in_memory_tasks s = []"
proof -
  show "collect_corrupt_sqlite_tasks_with_executor db = Inr []"
    using no_corrupt_loop [OF m] by (simp add: collect_corrupt_sqlite_tasks_with_executor_def)
  show "collect_corrupt_in_memory_tasks s = []"
    unfolding collect_corrupt_in_memory_tasks_def filter_empty_conv
  proof (intro ballI)
    fix tid
    show "\<not> (case fmlookup (ms_tasks s) tid of None \<Rightarrow> False
       | Some t \<Rightarrow> (case fmlookup (ms_events s) tid of None \<Rightarrow> True
          | Some evs \<Rightarrow> (case replay_task_from_snapshot_and_events t evs of
               Inl (CorruptEventStream _) \<Rightarrow> True | _ \<Rightarrow> False)))"
    proof (cases "fmlookup (ms_tasks s) tid")
      case (Some t)
      then obtain evs where "fmlookup (ms_events s) tid = Some evs"
        using mem_inv_events [OF matches_inv [OF m], of tid] by (metis not_None_eq)
      with Some history_replays(1) [OF m Some] show ?thesis by (simp add: mem_history_def)
    qed simp
  qed
qed

lemma sim_recover:
  assumes m: "matches owner db s" and limit: "limit_ok limit"
  shows "sim owner (sql_recover_stale_leases now_ms limit db) (mem_recover_stale_leases now_ms limit s)"
proof -
  have ls: "fmlookup (ms_leases s) (lr_task_id l) = Some l" if "l \<in> set (mem_stale_leases now_ms limit s)" for l
  proof (rule lease_by_task [OF matches_inv [OF m]])
    show "l \<in> set (fmvalues (ms_leases s))"
      using subsetD [OF set_truncate_to that [unfolded mem_stale_leases_def]] by simp
  qed
  have "distinct (map lr_task_id (sort_key lease_key (filter (\<lambda>l. lr_expires_at_ms l \<le> now_ms) (fmvalues (ms_leases s)))))"
    using distinct_lease_tasks [OF matches_inv [OF m]] by (auto simp: distinct_map inj_on_def)
  then have "distinct (map lr_task_id (mem_stale_leases now_ms limit s))"
    unfolding mem_stale_leases_def lease_key_def [abs_def] by (rule distinct_truncate_to)
  from sim_recover_loop [OF m ls this, of "[]" 0] obtain db' s' rs where
    "recover_sqlite_leases_with_executor (sql_stale_leases now_ms limit db) [] 0 db = Inr (rs, db')"
    "mem_recover_loop (mem_stale_leases now_ms limit s) [] 0 s = (rs, s')" and m': "matches owner db' s'"
    unfolding sql_stale_leases_eq [OF m limit] by blast
  moreover obtain recovered cleaned where "rs = (recovered, cleaned)" by fastforce
  ultimately show ?thesis
    unfolding sql_recover_stale_leases_def mem_recover_stale_leases_def
    by (simp add: no_corruption [OF m'] sim_commit [OF m'])
qed

end
