(* ===== verification/Sql_Contract.thy ===== *)
theory Sql_Contract
  imports Sql_Sweep
begin

text \<open>
  The contracts of the SQLite store. It simulates the in-memory store over every sequence of
  admissible operations, with equal replies; it is itself an event-sourced task store; and its
  queries return what the in-memory queries return on the matching state.
\<close>

section \<open>Simulation of every operation\<close>

lemma sim_reply:
  "sim owner r r' \<Longrightarrow> sim owner (reply f r) (reply f r')"
  by (simp add: sim_def fst_reply)

lemmas sim_ops = sim_accept sim_accept_with_envelope sim_accept_with_context sim_put_context
  sim_lease_task sim_renew sim_complete sim_fail sim_retry sim_dead_letter sim_cancel sim_transition
  sim_legacy sim_fail_expired sim_recover sim_cancel_with_result sim_complete_with_result
  sim_fail_with_result

lemma sim_op:
  assumes "matches owner db s" and "sql_admissible owner oper"
  shows "sim owner (sql_step oper db) (mem_step oper s)"
  using assms by (cases oper) (simp_all add: sql_admissible_def sim_reply sim_ops)

interpretation sql_mem: store_simulation sql_step mem_step "sql_admissible owner" "matches owner" "(=)" for owner
  by unfold_locales (rule sim_op [unfolded sim_def])

section \<open>The SQLite store is event-sourced\<close>

definition sql_observe :: "sql_db \<Rightarrow> task_id \<Rightarrow> task_record option \<times> task_event_record list" where
  "sql_observe db tid =
     (case fetch_task_optional_with_executor tid db of Inr t \<Rightarrow> t | Inl _ \<Rightarrow> None,
      case mapR row_to_event (select_events tid db) of Inr h \<Rightarrow> h | Inl _ \<Rightarrow> [])"

definition sql_inv :: "(lease_id \<Rightarrow> task_id) \<Rightarrow> sql_db \<Rightarrow> bool" where
  "sql_inv owner db \<longleftrightarrow> (\<exists>s. matches owner db s)"

lemma sql_observe_matches: "matches owner db s \<Longrightarrow> sql_observe db tid = mem_observe s tid"
  by (simp add: sql_observe_def mem_observe_def fetch_task_optional select_events_rows decode_history)

interpretation sql: event_sourced_store sql_step "sql_admissible owner" sql_observe "sql_inv owner" sql_init
  for owner
proof
  show "sql_inv owner sql_init"
    using matches_init by (auto simp: sql_inv_def)
  show "sql_observe sql_init tid = (None, [])" for tid
    by (simp add: sql_observe_matches [OF matches_init] mem.start_empty)
  fix db :: sql_db and oper :: store_op and tid :: task_id
  assume "sql_inv owner db" and oper: "sql_admissible owner oper"
  then obtain s where s: "matches owner db s"
    by (auto simp: sql_inv_def)
  from sql_mem.sim_step [OF s oper] have s': "matches owner (snd (sql_step oper db)) (snd (mem_step oper s))"
    by simp
  then show "sql_inv owner (snd (sql_step oper db))"
    by (auto simp: sql_inv_def)
  show "evolves tid (sql_observe db tid) (sql_observe (snd (sql_step oper db)) tid)"
    unfolding sql_observe_matches [OF s] sql_observe_matches [OF s']
    using oper by (intro mem.step_evolves matches_inv [OF s]) (simp add: sql_admissible_def)
qed

lemma sql_reachable_matches:
  "list_all (sql_admissible owner) opers \<Longrightarrow>
     matches owner (run_ops sql_step opers sql_init) (run_ops mem_step opers mem_init)"
  using sql_mem.sim_run [OF matches_init] by blast

end
