(* ===== verification/Sql_Frame.thy ===== *)
theory Sql_Frame
  imports Sql_Contract
begin

text \<open>
  What the task operations leave alone. \<open>db_frame\<close> relates two databases when the outbox has only
  grown and the artifact tables are unchanged; every task operation of the SQLite store is within
  the frame, so the delivery of results and the artifact store can be verified next to it.
\<close>

definition frame_of :: "sql_db \<Rightarrow> outbox_row list \<times> artifact_row list \<times> blob_row list" where
  "frame_of db = (db_result_outbox db, db_artifacts db, db_blobs db)"

definition db_frame :: "sql_db \<Rightarrow> sql_db \<Rightarrow> bool" where
  "db_frame db db' \<longleftrightarrow>
     prefix (fst (frame_of db)) (fst (frame_of db')) \<and> snd (frame_of db') = snd (frame_of db)"

lemma db_frame_refl [simp]: "db_frame db db"
  by (simp add: db_frame_def)

lemma frame_updates [simp]:
  "frame_of (deactivate_lease_for_task_with_executor tid db) = frame_of db"
  "frame_of (update_tasks_where tid f db) = frame_of db"
  "frame_of (update_task_status_with_executor tid st db) = frame_of db"
  "frame_of (update_task_metadata_with_executor tid st n dl reason db) = frame_of db"
  "frame_of (touch_task_updated_at_with_executor tid db) = frame_of db"
  "frame_of (replace_lease_row row db) = frame_of db"
  "frame_of (db\<lparr>db_leases := ls\<rparr>) = frame_of db"
  "frame_of (db\<lparr>db_transport_context := cs\<rparr>) = frame_of db"
  by (simp_all add: frame_of_def deactivate_lease_for_task_with_executor_def update_tasks_where_def
      update_task_status_with_executor_def update_task_metadata_with_executor_def
      touch_task_updated_at_with_executor_def replace_lease_row_def)

lemma frame_inserts:
  "insert_event tid n ty from to db = Inr db' \<Longrightarrow> frame_of db' = frame_of db"
  "insert_task_row row db = Inr db' \<Longrightarrow> frame_of db' = frame_of db"
  "insert_idempotency_row key tid db = Inr db' \<Longrightarrow> frame_of db' = frame_of db"
  "insert_envelope_row env db = Inr db' \<Longrightarrow> frame_of db' = frame_of db"
  "insert_transport_context ctx db = Inr db' \<Longrightarrow> frame_of db' = frame_of db"
  "insert_terminal_result_only r db = Inr db' \<Longrightarrow> frame_of db' = frame_of db"
  by (auto simp: frame_of_def insert_event_def insert_task_row_def insert_idempotency_row_def
      insert_envelope_row_def insert_transport_context_def insert_terminal_result_only_def bindR_eq_Inr)

lemma frame_set_status: "set_status_with_event tid st n ty from to db = Inr db' \<Longrightarrow> frame_of db' = frame_of db"
  by (auto simp: set_status_with_event_def dest: frame_inserts)

lemma frame_accepted: "insert_accepted_task t db = Inr db' \<Longrightarrow> frame_of db' = frame_of db"
  by (auto simp: insert_accepted_task_def bindR_eq_Inr dest!: frame_inserts split: option.splits)

lemma frame_result:
  "insert_terminal_result_and_outbox r db = Inr db' \<Longrightarrow>
     prefix (fst (frame_of db)) (fst (frame_of db')) \<and> snd (frame_of db') = snd (frame_of db)"
  by (auto simp: insert_terminal_result_and_outbox_def insert_outbox_row_def bindR_eq_Inr frame_of_def prefix_def
      insert_terminal_result_only_def split: option.splits)

lemma frame_in_tx:
  "finish_task_in_tx tid lid wid to n dl reason db = Inr (t, db') \<Longrightarrow> frame_of db' = frame_of db"
  "sqlite_retry_task_in_tx tid u db = Inr (t, db') \<Longrightarrow> frame_of db' = frame_of db"
  "sqlite_dead_letter_task_in_tx tid u why db = Inr (t, db') \<Longrightarrow> frame_of db' = frame_of db"
  by (auto simp: finish_task_in_tx_def sqlite_retry_task_in_tx_def sqlite_dead_letter_task_in_tx_def
      Let_def bindR_eq_Inr dest!: frame_inserts)

section \<open>Bodies of transactions\<close>

text \<open>\<open>keeps P\<close>: if the computation succeeds, the database it returns satisfies \<open>P\<close>.\<close>

definition keeps :: "(sql_db \<Rightarrow> bool) \<Rightarrow> 'e + ('a \<times> sql_db) \<Rightarrow> bool" where
  "keeps P r = (case r of Inl _ \<Rightarrow> True | Inr (_, db) \<Rightarrow> P db)"

lemma keeps_simps [simp]:
  "keeps P (Inl e)" "keeps P (Inr (a, db)) = P db" "keeps P (commit b db) = P db"
  by (simp_all add: keeps_def commit_def)

lemma keeps_bind: "(\<And>a. g = Inr a \<Longrightarrow> keeps P (k a)) \<Longrightarrow> keeps P (bindR g k)"
  by (cases g) simp_all

lemma keeps_cases:
  "(x = None \<Longrightarrow> keeps P a) \<Longrightarrow> (\<And>y. x = Some y \<Longrightarrow> keeps P (b y)) \<Longrightarrow>
     keeps P (case x of None \<Rightarrow> a | Some y \<Rightarrow> b y)"
  "keeps P a' \<Longrightarrow> keeps P b' \<Longrightarrow> keeps P (if c then a' else b')"
  "(\<And>u v. p = (u, v) \<Longrightarrow> keeps P (f u v)) \<Longrightarrow> keeps P (case p of (u, v) \<Rightarrow> f u v)"
  by (simp_all split: option.split prod.split)

lemma keeps_transaction: "P db \<Longrightarrow> keeps P body \<Longrightarrow> P (snd (transaction db body))"
  by (auto simp: keeps_def transaction_def split: sum.splits)

lemma keeps_attempt: "P db \<Longrightarrow> (\<And>a. g = Inr a \<Longrightarrow> P (snd (k a))) \<Longrightarrow> P (snd (attempt g db k))"
  by (auto split: attempt_split)

lemma frame_fail_expired_loop:
  "frame_of db = fr \<Longrightarrow> keeps (\<lambda>db'. frame_of db' = fr) (sql_fail_expired_loop rows failed db)"
  by (induction rows arbitrary: failed db)
    (auto simp: Let_def intro!: keeps_bind dest!: frame_set_status)

lemma frame_recover_loop:
  "frame_of db = fr \<Longrightarrow>
     keeps (\<lambda>db'. frame_of db' = fr) (recover_sqlite_leases_with_executor rows recovered cleaned db)"
proof (induction rows arbitrary: recovered cleaned db)
  case (Cons row rows)
  then show ?case
    by (auto simp: Let_def intro!: keeps_bind keeps_cases dest!: frame_inserts)
qed simp

lemmas frame_dests = frame_inserts frame_set_status frame_accepted frame_in_tx frame_result

lemmas frame_intros = keeps_attempt [where P = "db_frame db" for db] keeps_transaction [where P = "db_frame db" for db]
  keeps_bind keeps_cases

section \<open>Every task operation is within the frame\<close>

lemma db_frame_eq: "frame_of db' = frame_of db \<Longrightarrow> db_frame db db'"
  by (simp add: db_frame_def)

lemma keeps_then:
  "keeps (\<lambda>db'. frame_of db' = fr) g \<Longrightarrow> (\<And>a db'. frame_of db' = fr \<Longrightarrow> keeps P (k (a, db'))) \<Longrightarrow>
     keeps P (bindR g k)"
  by (cases g) (auto simp: keeps_def)

lemma frame_accept: "db_frame db (snd (sql_accept_task t db))"
  unfolding sql_accept_task_def Let_def
  by (intro frame_intros) (auto simp: db_frame_def dest!: frame_dests)

lemma frame_accept_with_envelope: "db_frame db (snd (sql_accept_task_with_envelope t env db))"
  unfolding sql_accept_task_with_envelope_def Let_def
  by (intro frame_intros) (auto simp: db_frame_def dest!: frame_dests)

lemma frame_accept_with_context: "db_frame db (snd (sql_accept_task_with_envelope_and_context t env ctx db))"
  unfolding sql_accept_task_with_envelope_and_context_def Let_def
  by (intro frame_intros) (auto simp: db_frame_def dest!: frame_dests)

lemma frame_put_context: "db_frame db (snd (sql_put_transport_context ctx db))"
  unfolding sql_put_transport_context_def Let_def
  by (intro frame_intros) (auto simp: db_frame_def dest!: frame_dests)

lemma frame_lease: "db_frame db (snd (sql_lease_task_with_peer_guard tid l peer db))"
  unfolding sql_lease_task_with_peer_guard_def sql_lease_start_def Let_def
  by (intro frame_intros) (auto simp: db_frame_def dest!: frame_dests)

lemma frame_renew: "db_frame db (snd (sql_renew_lease tid lid wid now_ms e db))"
  unfolding sql_renew_lease_def Let_def
  by (intro frame_intros) (auto simp: db_frame_def dest!: frame_dests)

lemma frame_complete: "db_frame db (snd (sql_complete_task tid lid wid db))"
  unfolding sql_complete_task_def sql_finish_task_def Let_def
  by (intro frame_intros) (auto simp: db_frame_def dest!: frame_dests)

lemma frame_fail: "db_frame db (snd (sql_fail_task tid lid wid why policy db))"
  unfolding sql_fail_task_def Let_def
  by (intro frame_intros) (auto simp: db_frame_def dest!: frame_dests split: if_split_asm)

lemma frame_retry: "db_frame db (snd (sql_retry_task tid lid wid db))"
  unfolding sql_retry_task_def Let_def
  by (intro frame_intros) (auto simp: db_frame_def dest!: frame_dests)

lemma frame_dead_letter: "db_frame db (snd (sql_dead_letter_task tid lid wid why db))"
  unfolding sql_dead_letter_task_def Let_def
  by (intro frame_intros) (auto simp: db_frame_def dest!: frame_dests)

lemma frame_cancel: "db_frame db (snd (sql_cancel_task tid now_ms db))"
  unfolding sql_cancel_task_def Let_def
  by (intro frame_intros) (auto simp: db_frame_def dest!: frame_dests)

lemma frame_transition: "db_frame db (snd (sql_transition_task tid to db))"
  unfolding sql_transition_task_def Let_def
  by (intro frame_intros) (auto simp: db_frame_def dest!: frame_dests)

lemma frame_legacy: "db_frame db (snd (sql_accept_legacy_event tid ty db))"
  unfolding sql_accept_legacy_event_def Let_def
  by (intro frame_intros) (auto simp: db_frame_def dest!: frame_dests split: legacy_append_plan.split_asm if_split_asm)

lemma frame_cancel_with_result: "db_frame db (snd (sql_cancel_task_with_result tid mlid mwid now_ms r db))"
  unfolding sql_cancel_task_with_result_def Let_def
  by (intro frame_intros) (auto simp: db_frame_def dest!: frame_dests)

lemma frame_complete_with_result: "db_frame db (snd (sql_complete_task_with_result tid lid wid r db))"
  unfolding sql_complete_task_with_result_def Let_def
  by (intro frame_intros) (auto simp: db_frame_def dest!: frame_dests)

lemma frame_fail_with_result: "db_frame db (snd (sql_fail_task_with_result tid lid wid why policy r db))"
  unfolding sql_fail_task_with_result_def Let_def
  by (intro frame_intros) (auto simp: db_frame_def dest!: frame_dests split: if_split_asm)

lemma frame_fail_expired: "db_frame db (snd (sql_fail_expired_deadlines now_ms limit db))"
  unfolding sql_fail_expired_deadlines_def
proof (rule keeps_transaction [where P = "db_frame db"])
  show "keeps (db_frame db) (bindR (sql_fail_expired_loop (sql_expired_deadlines now_ms limit db) [] db)
      (\<lambda>(failed, db). commit failed db))"
    by (rule keeps_then [OF frame_fail_expired_loop [OF refl]]) (simp add: db_frame_eq)
qed simp

lemma frame_recover: "db_frame db (snd (sql_recover_stale_leases now_ms limit db))"
  unfolding sql_recover_stale_leases_def
  by (rule keeps_transaction [where P = "db_frame db"], simp,
      rule keeps_then [OF frame_recover_loop [OF refl]])
    (auto simp: db_frame_eq intro!: keeps_bind keeps_cases)

lemmas frame_ops = frame_accept frame_accept_with_envelope frame_accept_with_context frame_put_context
  frame_lease frame_renew frame_complete frame_fail frame_retry frame_dead_letter frame_cancel
  frame_transition frame_legacy frame_fail_expired frame_recover frame_cancel_with_result
  frame_complete_with_result frame_fail_with_result

lemma frame_step: "db_frame db (snd (sql_step oper db))"
  by (cases oper) (simp_all add: frame_ops)

end
