(* ===== verification/Artifact_Sqlite.thy ===== *)
theory Artifact_Sqlite
  imports Artifact_Contract Sql_Frame
begin

text \<open>
  The SQLite artifact store meets the contract. The rows of \<open>artifacts\<close> represent the abstract map,
  the rows of \<open>blobs\<close> count its references, and the blob directory holds a file for each referenced
  digest and no other. Cleanup after the commit restores exactly this.
\<close>

section \<open>Reference counts\<close>

definition blob_count :: "blob_row list \<Rightarrow> digest \<Rightarrow> int option" where
  "blob_count blobs d = map_option bl_ref_count (find (\<lambda>b. bl_digest b = d) blobs)"

lemma blob_count_tracked: "list_ex (\<lambda>b. bl_digest b = d) blobs \<longleftrightarrow> blob_count blobs d \<noteq> None"
  by (induction blobs) (auto simp: blob_count_def)

lemma find_map_where:
  "(\<And>b. bl_digest (f b) = bl_digest b) \<Longrightarrow>
     find (\<lambda>b. bl_digest b = e) (map (\<lambda>b. if bl_digest b = d then f b else b) blobs) =
     (if e = d then map_option f (find (\<lambda>b. bl_digest b = e) blobs) else find (\<lambda>b. bl_digest b = e) blobs)"
  by (induction blobs) auto

lemma digests_map_where:
  "(\<And>b. bl_digest (f b) = bl_digest b) \<Longrightarrow>
     map bl_digest (map (\<lambda>b. if bl_digest b = d then f b else b) blobs) = map bl_digest blobs"
  by (induction blobs) auto

lemma count_increment:
  assumes "distinct (map bl_digest (db_blobs db))"
  shows "distinct (map bl_digest (db_blobs (increment_blob_ref_with_executor d n db)))"
    and "blob_count (db_blobs (increment_blob_ref_with_executor d n db)) =
      (blob_count (db_blobs db))(d := Some (case blob_count (db_blobs db) d of None \<Rightarrow> 1 | Some k \<Rightarrow> k + 1))"
proof -
  let ?f = "\<lambda>b. b\<lparr>bl_ref_count := bl_ref_count b + 1, bl_byte_len := int n\<rparr>"
  show "distinct (map bl_digest (db_blobs (increment_blob_ref_with_executor d n db)))"
    using assms digests_map_where [of ?f d "db_blobs db"]
    by (auto simp: increment_blob_ref_with_executor_def list_ex_iff simp del: map_map)
  show "blob_count (db_blobs (increment_blob_ref_with_executor d n db)) =
      (blob_count (db_blobs db))(d := Some (case blob_count (db_blobs db) d of None \<Rightarrow> 1 | Some k \<Rightarrow> k + 1))"
    by (auto simp: increment_blob_ref_with_executor_def blob_count_tracked blob_count_def fun_eq_iff
        find_map_where [of ?f] find_append split: option.splits)
qed

lemma count_decrement:
  assumes "distinct (map bl_digest (db_blobs db))" and "blob_count (db_blobs db) d = Some n"
  shows "\<exists>blobs. decrement_blob_ref_with_executor d db = (n \<le> 1, db\<lparr>db_blobs := blobs\<rparr>) \<and>
    distinct (map bl_digest blobs) \<and>
    blob_count blobs = (blob_count (db_blobs db))(d := Some (if n \<le> 1 then 0 else n - 1))"
proof -
  obtain row where row: "find (\<lambda>b. bl_digest b = d) (db_blobs db) = Some row" "bl_ref_count row = n"
    using assms(2) by (auto simp: blob_count_def)
  let ?set = "\<lambda>f. map (\<lambda>b. if bl_digest b = d then b\<lparr>bl_ref_count := f (bl_ref_count b)\<rparr> else b) (db_blobs db)"
  have "distinct (map bl_digest (?set f))" for f
    using assms(1) digests_map_where [of "\<lambda>b. b\<lparr>bl_ref_count := f (bl_ref_count b)\<rparr>" d "db_blobs db"]
    by (simp del: map_map)
  moreover have "blob_count (?set f) = (blob_count (db_blobs db))(d := Some (f n))" for f
    using row by (auto simp: blob_count_def fun_eq_iff find_map_where [of "\<lambda>b. b\<lparr>bl_ref_count := f (bl_ref_count b)\<rparr>"])
  moreover have "decrement_blob_ref_with_executor d db =
      (n \<le> 1, db\<lparr>db_blobs := if n \<le> 1 then ?set (\<lambda>_. 0) else ?set (\<lambda>n. n - 1)\<rparr>)"
    using row by (simp add: decrement_blob_ref_with_executor_def)
  ultimately show ?thesis
    by (intro exI [of _ "if n \<le> 1 then ?set (\<lambda>_. 0) else ?set (\<lambda>n. n - 1)"]) auto
qed

lemma count_cleanup:
  assumes "distinct (map bl_digest blobs)" and "blob_count blobs d = Some 0"
  shows "distinct (map bl_digest (filter (\<lambda>b. \<not> (bl_digest b = d \<and> bl_ref_count b = 0)) blobs))"
    and "blob_count (filter (\<lambda>b. \<not> (bl_digest b = d \<and> bl_ref_count b = 0)) blobs) = (blob_count blobs)(d := None)"
proof -
  show "distinct (map bl_digest (filter (\<lambda>b. \<not> (bl_digest b = d \<and> bl_ref_count b = 0)) blobs))"
    using assms(1) by (rule distinct_map_filter)
  have "find (\<lambda>b. bl_digest b = e) (filter (\<lambda>b. \<not> (bl_digest b = d \<and> bl_ref_count b = 0)) blobs) =
      (if e = d then None else find (\<lambda>b. bl_digest b = e) blobs)" for e
    using assms
  proof (induction blobs)
    case (Cons b blobs)
    show ?case
    proof (cases "bl_digest b = d")
      case True
      with Cons.prems have "bl_ref_count b = 0" "d \<notin> bl_digest ` set blobs"
        by (auto simp: blob_count_def)
      then have "filter (\<lambda>b. \<not> (bl_digest b = d \<and> bl_ref_count b = 0)) blobs = blobs"
        by (auto intro!: filter_True)
      with True \<open>bl_ref_count b = 0\<close> \<open>d \<notin> _\<close> show ?thesis
        by (auto simp: find_None_iff) (metis imageI)
    next
      case False
      with Cons show ?thesis by (auto simp: blob_count_def)
    qed
  qed (simp add: blob_count_def)
  then show "blob_count (filter (\<lambda>b. \<not> (bl_digest b = d \<and> bl_ref_count b = 0)) blobs) = (blob_count blobs)(d := None)"
    by (auto simp: blob_count_def fun_eq_iff)
qed

section \<open>Blobs and files tally with the references\<close>

definition tally :: "sql_db \<Rightarrow> blob_dir \<Rightarrow> (digest \<Rightarrow> nat) \<Rightarrow> bool" where
  "tally db fs refs \<longleftrightarrow>
     distinct (map bl_digest (db_blobs db)) \<and>
     (\<forall>d. blob_count (db_blobs db) d = (if refs d = 0 then None else Some (int (refs d)))) \<and>
     (\<forall>d. fmlookup fs d = None \<longleftrightarrow> refs d = 0)"

text \<open>The drop of one reference, with its cleanup.\<close>

definition drop_blob :: "digest \<Rightarrow> sql_db \<times> blob_dir \<Rightarrow> sql_db \<times> blob_dir" where
  "drop_blob d st =
     (case decrement_blob_ref_with_executor d (fst st) of
        (gone, db) \<Rightarrow> finalize_blob_cleanup (if gone then [d] else []) (db, snd st))"

lemma tally_drop:
  assumes t: "tally db fs refs" and pos: "0 < refs d"
  shows "\<exists>blobs fs'. drop_blob d (db, fs) = (db\<lparr>db_blobs := blobs\<rparr>, fs') \<and>
    tally (db\<lparr>db_blobs := blobs\<rparr>) fs' (refs(d := refs d - 1)) \<and>
    (\<forall>e. e \<noteq> d \<or> 1 < refs d \<longrightarrow> fmlookup fs' e = fmlookup fs e)"
proof -
  have count: "distinct (map bl_digest (db_blobs db))" "blob_count (db_blobs db) d = Some (int (refs d))"
    using t pos by (simp_all add: tally_def)
  from count_decrement [OF this] obtain blobs where
    blobs: "decrement_blob_ref_with_executor d db = (int (refs d) \<le> 1, db\<lparr>db_blobs := blobs\<rparr>)"
      "distinct (map bl_digest blobs)"
      "blob_count blobs = (blob_count (db_blobs db))(d := Some (if int (refs d) \<le> 1 then 0 else int (refs d) - 1))"
    by blast
  show ?thesis
  proof (cases "refs d = 1")
    case True
    let ?blobs = "filter (\<lambda>b. \<not> (bl_digest b = d \<and> bl_ref_count b = 0)) blobs"
    have zero: "blob_count blobs d = Some 0"
      using True blobs(3) by simp
    have "drop_blob d (db, fs) = (db\<lparr>db_blobs := ?blobs\<rparr>, fmdrop d fs)"
      using True blobs(1) by (simp add: drop_blob_def remove_blob_file_if_present_def)
    moreover have "tally (db\<lparr>db_blobs := ?blobs\<rparr>) (fmdrop d fs) (refs(d := refs d - 1))"
      using t True blobs(3) count_cleanup [OF blobs(2) zero] by (simp add: tally_def)
    ultimately show ?thesis
      using True by (intro exI [of _ ?blobs] exI [of _ "fmdrop d fs"]) auto
  next
    case False
    with pos have "drop_blob d (db, fs) = (db\<lparr>db_blobs := blobs\<rparr>, fs)"
      using blobs(1) by (simp add: drop_blob_def)
    moreover have "tally (db\<lparr>db_blobs := blobs\<rparr>) fs (refs(d := refs d - 1))"
      using t pos False blobs(2,3) by (auto simp: tally_def)
    ultimately show ?thesis by blast
  qed
qed

lemma tally_add:
  assumes t: "tally db fs refs"
    and same: "\<And>c. fmlookup fs (digest_compute sha256 content) = Some c \<Longrightarrow> c = content"
  shows "\<exists>p fs'. prepare_blob_write_with_executor sha256 (digest_compute sha256 content) content db fs = (Inr p, fs') \<and>
    fmlookup fs' (digest_compute sha256 content) = Some content \<and>
    (\<forall>e. e \<noteq> digest_compute sha256 content \<longrightarrow> fmlookup fs' e = fmlookup fs e) \<and>
    tally (increment_blob_ref_with_executor (digest_compute sha256 content) (length content) db) fs'
      (refs(digest_compute sha256 content := refs (digest_compute sha256 content) + 1))"
proof -
  let ?d = "digest_compute sha256 content"
  let ?db = "increment_blob_ref_with_executor ?d (length content) db"
  have dist: "distinct (map bl_digest (db_blobs db))"
    using t by (simp add: tally_def)
  have counts: "distinct (map bl_digest (db_blobs ?db))"
    "blob_count (db_blobs ?db) e = (if e = ?d then Some (int (refs ?d) + 1) else if refs e = 0 then None else Some (int (refs e)))" for e
    using t count_increment [OF dist, of ?d "length content"] by (auto simp: tally_def)
  show ?thesis
  proof (cases "refs ?d = 0")
    case True
    then have none: "fmlookup fs ?d = None" "\<not> list_ex (\<lambda>b. bl_digest b = ?d) (db_blobs db)"
      using t by (simp_all add: tally_def blob_count_tracked)
    then have "prepare_blob_write_with_executor sha256 ?d content db fs =
        (Inr \<lparr>pb_path = ?d, pb_remove_on_rollback = True\<rparr>, fmupd ?d content fs)"
      by (simp add: prepare_blob_write_with_executor_def write_new_blob_file_def Let_def)
    moreover have "tally ?db (fmupd ?d content fs) (refs(?d := refs ?d + 1))"
      using t counts by (auto simp: tally_def)
    ultimately show ?thesis by auto
  next
    case False
    then obtain c where "fmlookup fs ?d = Some c"
      using t by (fastforce simp: tally_def)
    with same have c: "fmlookup fs ?d = Some content" by simp
    moreover have "list_ex (\<lambda>b. bl_digest b = ?d) (db_blobs db)"
      using t False by (simp add: tally_def blob_count_tracked)
    ultimately have "prepare_blob_write_with_executor sha256 ?d content db fs =
        (Inr \<lparr>pb_path = ?d, pb_remove_on_rollback = False\<rparr>, fs)"
      by (simp add: prepare_blob_write_with_executor_def read_verified_blob_def read_blob_file_def ok_or_def Let_def)
    moreover have "tally ?db fs (refs(?d := refs ?d + 1))"
      using t counts c False by (auto simp: tally_def)
    ultimately show ?thesis
      using c by auto
  qed
qed

definition blobs_hold :: "sql_db \<Rightarrow> blob_dir \<Rightarrow> artifact_map \<Rightarrow> bool" where
  "blobs_hold db fs m \<longleftrightarrow>
     tally db fs (blob_refs m) \<and>
     (\<forall>k a c. fmlookup m k = Some (a, c) \<longrightarrow> \<not> ar_inline a \<longrightarrow> fmlookup fs (ar_digest a) = Some c)"

lemma blobs_hold_cong: "db_blobs db = db_blobs db' \<Longrightarrow> blobs_hold db fs m = blobs_hold db' fs m"
  by (simp add: blobs_hold_def tally_def)

lemma blobs_hold_drop:
  assumes h: "blobs_hold db fs m" and old: "fmlookup m k = Some (a, c)" "\<not> ar_inline a"
  shows "\<exists>blobs fs'. drop_blob (ar_digest a) (db, fs) = (db\<lparr>db_blobs := blobs\<rparr>, fs') \<and>
    blobs_hold (db\<lparr>db_blobs := blobs\<rparr>) fs' (fmdrop k m)"
proof -
  let ?d = "ar_digest a"
  have refs: "blob_refs m e = blob_refs (fmdrop k m) e + (if ?d = e then 1 else 0)" for e
    using blob_refs_drop [of m e k] old by simp
  then have pos: "0 < blob_refs m ?d" by simp
  have "tally db fs (blob_refs m)"
    using h by (simp add: blobs_hold_def)
  from tally_drop [OF this pos] obtain blobs fs' where
    drop: "drop_blob ?d (db, fs) = (db\<lparr>db_blobs := blobs\<rparr>, fs')"
      "tally (db\<lparr>db_blobs := blobs\<rparr>) fs' ((blob_refs m)(?d := blob_refs m ?d - 1))"
      "\<And>e. e \<noteq> ?d \<or> 1 < blob_refs m ?d \<Longrightarrow> fmlookup fs' e = fmlookup fs e" by blast
  have "(blob_refs m)(?d := blob_refs m ?d - 1) = blob_refs (fmdrop k m)"
    using refs by (auto simp: fun_eq_iff)
  with drop(2) have "tally (db\<lparr>db_blobs := blobs\<rparr>) fs' (blob_refs (fmdrop k m))" by simp
  moreover have "fmlookup fs' (ar_digest b) = Some cb"
    if "fmlookup (fmdrop k m) j = Some (b, cb)" "\<not> ar_inline b" for j b cb
  proof -
    have "fmlookup fs (ar_digest b) = Some cb"
      using h that by (auto simp: blobs_hold_def split: if_splits)
    moreover have "0 < blob_refs (fmdrop k m) (ar_digest b)"
      using that by (rule blob_refs_pos)
    ultimately show ?thesis
      using drop(3) [of "ar_digest b"] refs [of "ar_digest b"] by (cases "ar_digest b = ?d") auto
  qed
  ultimately show ?thesis
    using drop(1) by (auto simp: blobs_hold_def)
qed

lemma blobs_hold_forget:
  assumes "blobs_hold db fs m" and "\<And>a c. fmlookup m k = Some (a, c) \<Longrightarrow> ar_inline a"
  shows "blobs_hold db fs (fmdrop k m)"
proof -
  have "blob_refs (fmdrop k m) = blob_refs m"
    using blob_refs_drop [of m _ k] assms(2) by (fastforce simp: fun_eq_iff split: option.splits)
  with assms show ?thesis by (auto simp: blobs_hold_def split: if_splits)
qed

lemma blobs_hold_inline:
  assumes "blobs_hold db fs (fmdrop k m)" and "ar_inline a"
  shows "blobs_hold db fs (fmupd k (a, c) m)"
proof -
  have "blob_refs (fmupd k (a, c) m) = blob_refs (fmdrop k m)"
    using assms(2) by (auto simp: fun_eq_iff blob_refs_upd)
  with assms show ?thesis by (auto simp: blobs_hold_def split: if_splits)
qed

lemma blobs_hold_add:
  assumes h: "blobs_hold db fs (fmdrop k m)" and a: "\<not> ar_inline a" "ar_digest a = digest_compute sha256 content"
    and files: "\<And>c. fmlookup fs (digest_compute sha256 content) = Some c \<Longrightarrow> c = content"
  shows "\<exists>p fs'. prepare_blob_write_with_executor sha256 (digest_compute sha256 content) content db fs = (Inr p, fs') \<and>
    blobs_hold (increment_blob_ref_with_executor (digest_compute sha256 content) (length content) db) fs'
      (fmupd k (a, content) m)"
proof -
  let ?d = "digest_compute sha256 content"
  have "tally db fs (blob_refs (fmdrop k m))"
    using h by (simp add: blobs_hold_def)
  from tally_add [OF this files] obtain p fs' where
    add: "prepare_blob_write_with_executor sha256 ?d content db fs = (Inr p, fs')" "fmlookup fs' ?d = Some content"
      "\<And>e. e \<noteq> ?d \<Longrightarrow> fmlookup fs' e = fmlookup fs e"
      "tally (increment_blob_ref_with_executor ?d (length content) db) fs'
        ((blob_refs (fmdrop k m))(?d := blob_refs (fmdrop k m) ?d + 1))" by blast
  have "(blob_refs (fmdrop k m))(?d := blob_refs (fmdrop k m) ?d + 1) = blob_refs (fmupd k (a, content) m)"
    using a by (auto simp: fun_eq_iff blob_refs_upd)
  moreover have "fmlookup fs' (ar_digest b) = Some cb"
    if "fmlookup (fmupd k (a, content) m) j = Some (b, cb)" "\<not> ar_inline b" for j b cb
  proof (cases "j = k")
    case True
    with that a add(2) show ?thesis by simp
  next
    case False
    with that have "fmlookup (fmdrop k m) j = Some (b, cb)" by simp
    with h that(2) have "fmlookup fs (ar_digest b) = Some cb" by (simp add: blobs_hold_def)
    with add(2,3) files show ?thesis by (cases "ar_digest b = ?d") auto
  qed
  ultimately show ?thesis
    using add(1,4) by (auto simp: blobs_hold_def)
qed

lemma blobs_hold_replace:
  assumes h: "blobs_hold db fs m" and old: "fmlookup m k = Some (old, c)" "\<not> ar_inline old"
    and a: "\<not> ar_inline a" "ar_digest a = digest_compute sha256 content" "ar_digest old \<noteq> ar_digest a"
    and files: "\<And>c. fmlookup fs (digest_compute sha256 content) = Some c \<Longrightarrow> c = content"
  shows "\<exists>p fs1 blobs fs'.
    prepare_blob_write_with_executor sha256 (digest_compute sha256 content) content db fs = (Inr p, fs1) \<and>
    drop_blob (ar_digest old)
        (increment_blob_ref_with_executor (digest_compute sha256 content) (length content) db, fs1) =
      (increment_blob_ref_with_executor (digest_compute sha256 content) (length content) db\<lparr>db_blobs := blobs\<rparr>, fs') \<and>
    blobs_hold (db\<lparr>db_blobs := blobs\<rparr>) fs' (fmupd k (a, content) m)"
proof -
  let ?d = "digest_compute sha256 content" and ?o = "ar_digest old" and ?m = "fmupd k (a, content) m"
  let ?db = "increment_blob_ref_with_executor ?d (length content) db"
  have refs: "blob_refs m e = blob_refs (fmdrop k m) e + (if ?o = e then 1 else 0)" for e
    using blob_refs_drop [of m e k] old by simp
  have "tally db fs (blob_refs m)"
    using h by (simp add: blobs_hold_def)
  from tally_add [OF this files] obtain p fs1 where
    add: "prepare_blob_write_with_executor sha256 ?d content db fs = (Inr p, fs1)" "fmlookup fs1 ?d = Some content"
      "\<And>e. e \<noteq> ?d \<Longrightarrow> fmlookup fs1 e = fmlookup fs e"
      "tally ?db fs1 ((blob_refs m)(?d := blob_refs m ?d + 1))" by blast
  from a have neq: "?o \<noteq> ?d" by simp
  then have "0 < ((blob_refs m)(?d := blob_refs m ?d + 1)) ?o"
    using refs [of ?o] by simp
  from tally_drop [OF add(4) this, unfolded fun_upd_other [OF neq]] obtain blobs fs' where
    drop: "drop_blob ?o (?db, fs1) = (?db\<lparr>db_blobs := blobs\<rparr>, fs')"
      "tally (?db\<lparr>db_blobs := blobs\<rparr>) fs' ((blob_refs m)(?d := blob_refs m ?d + 1, ?o := blob_refs m ?o - 1))"
      "\<And>e. e \<noteq> ?o \<or> 1 < blob_refs m ?o \<Longrightarrow> fmlookup fs' e = fmlookup fs1 e" by blast
  have eq: "(blob_refs m)(?d := blob_refs m ?d + 1, ?o := blob_refs m ?o - 1) = blob_refs ?m"
    using a neq refs by (auto simp: fun_eq_iff blob_refs_upd)
  have "tally (db\<lparr>db_blobs := blobs\<rparr>) fs' (blob_refs ?m)"
    using drop(2) unfolding eq by (simp add: tally_def)
  moreover have "fmlookup fs' (ar_digest b) = Some cb"
    if b: "fmlookup ?m j = Some (b, cb)" "\<not> ar_inline b" for j b cb
  proof (cases "j = k")
    case True
    with b a add(2) drop(3) [of ?d] neq show ?thesis by simp
  next
    case False
    with b have j: "fmlookup (fmdrop k m) j = Some (b, cb)" and "fmlookup m j = Some (b, cb)" by simp_all
    with h b(2) have "fmlookup fs (ar_digest b) = Some cb" by (simp add: blobs_hold_def)
    with add(2,3) files have "fmlookup fs1 (ar_digest b) = Some cb" by (cases "ar_digest b = ?d") auto
    moreover have "0 < blob_refs (fmdrop k m) (ar_digest b)"
      using j b(2) by (rule blob_refs_pos)
    ultimately show ?thesis
      using drop(3) [of "ar_digest b"] refs [of "ar_digest b"] by (cases "ar_digest b = ?o") auto
  qed
  ultimately show ?thesis
    using add(1) drop(1) by (auto simp: blobs_hold_def)
qed

section \<open>The contract\<close>

abbreviation artifact_rows ::
  "(bytes \<Rightarrow> bytes) \<Rightarrow> artifact_row list \<Rightarrow> artifact_map \<Rightarrow> bool" where
  "artifact_rows sha256 \<equiv> represents af_artifact_id (\<lambda>_ p. artifact_to_row (fst p) (snd p)) (artifact_ok sha256)"

definition sql_holds :: "(bytes \<Rightarrow> bytes) \<Rightarrow> sql_db \<times> blob_dir \<Rightarrow> artifact_map \<Rightarrow> bool" where
  "sql_holds sha256 st m \<longleftrightarrow>
     artifact_rows sha256 (db_artifacts (fst st)) m \<and> blobs_hold (fst st) (snd st) m"

definition sql_knows :: "sql_db \<times> blob_dir \<Rightarrow> task_id \<Rightarrow> bool" where
  "sql_knows st tid = (case fetch_task_with_executor tid (fst st) of Inr _ \<Rightarrow> True | Inl _ \<Rightarrow> False)"

lemma row_to_artifact_round [simp]: "valid_artifact a \<Longrightarrow> row_to_artifact (artifact_to_row a content) = Inr a"
  by (cases a) (simp add: row_to_artifact_def artifact_to_row_def valid_artifact_def)

lemma artifact_to_row_id [simp]: "af_artifact_id (artifact_to_row a content) = ar_artifact_id a"
  by (simp add: artifact_to_row_def)

lemma artifact_rows_find:
  "artifact_rows sha256 rows m \<Longrightarrow>
     find (\<lambda>r. af_artifact_id r = aid) rows = map_option (\<lambda>p. artifact_to_row (fst p) (snd p)) (fmlookup m aid)"
  by (rule represents_find)

lemma artifact_rows_ok:
  "artifact_rows sha256 rows m \<Longrightarrow> fmlookup m k = Some (a, c) \<Longrightarrow>
     valid_artifact a \<and> ar_digest a = digest_compute sha256 c \<and> ar_byte_len a = length c \<and>
     ar_inline a = should_inline (length c) \<and> ar_artifact_id a = k"
  using represents_ok [of af_artifact_id "\<lambda>_ p. artifact_to_row (fst p) (snd p)" "artifact_ok sha256" rows m k "(a, c)"]
  by (simp add: artifact_ok_def)

lemma fetch_artifact:
  assumes "artifact_rows sha256 (db_artifacts db) m"
  shows "fetch_artifact_optional aid db = Inr (map_option fst (fmlookup m aid))"
  using artifact_rows_ok [OF assms, of aid]
  by (cases "fmlookup m aid") (auto simp: fetch_artifact_optional_def artifact_rows_find [OF assms])

lemma represents_delete:
  assumes "represents key enc ok rows m"
  shows "represents key enc ok (filter (\<lambda>r. key r \<noteq> k) rows) (fmdrop k m)"
proof -
  have "find (\<lambda>r. key r = j) (filter (\<lambda>r. key r \<noteq> k) rows) =
      (if j = k then None else find (\<lambda>r. key r = j) rows)" for j
    by (induction rows) auto
  with assms show ?thesis
    by (auto simp: represents_def distinct_map inj_on_def split: if_splits)
qed

lemma artifact_rows_upsert:
  assumes rep: "artifact_rows sha256 (db_artifacts db) m" and ok: "artifact_ok sha256 (a, c)"
  shows "artifact_rows sha256 (db_artifacts (upsert_artifact_row (artifact_to_row a c) db))
    (fmupd (ar_artifact_id a) (a, c) m)"
proof (cases "fmlookup m (ar_artifact_id a)")
  case None
  with represents_absent [OF rep, of "ar_artifact_id a"]
  have "upsert_artifact_row (artifact_to_row a c) db = db\<lparr>db_artifacts := db_artifacts db @ [artifact_to_row a c]\<rparr>"
    by (simp add: upsert_artifact_row_def)
  with represents_insert [OF rep None, of "(a, c)"] ok show ?thesis by simp
next
  case (Some v)
  let ?f = "\<lambda>r. if af_artifact_id r = ar_artifact_id a then artifact_to_row a c else r"
  from Some represents_absent [OF rep, of "ar_artifact_id a"]
  have "upsert_artifact_row (artifact_to_row a c) db = db\<lparr>db_artifacts := map ?f (db_artifacts db)\<rparr>"
    by (simp add: upsert_artifact_row_def)
  moreover have "af_artifact_id (artifact_to_row (fst v) (snd v)) = ar_artifact_id a"
    using represents_ok [OF rep Some] by simp
  ultimately show ?thesis
    using represents_update [OF rep Some, of ?f "(a, c)"] ok by (simp cong: if_cong map_cong)
qed

lemma get_artifact_law:
  assumes h: "sql_holds sha256 st m"
  shows "sql_get_artifact sha256 aid st = ok_or (fmlookup m aid) (ArtifactNotFound aid)"
proof (cases "fmlookup m aid")
  case None
  have "artifact_rows sha256 (db_artifacts (fst st)) m"
    using h by (simp add: sql_holds_def)
  with None show ?thesis
    by (simp add: sql_get_artifact_def fetch_artifact)
next
  case (Some p)
  obtain a c where p: "p = (a, c)" by fastforce
  have rep: "artifact_rows sha256 (db_artifacts (fst st)) m"
    using h by (simp add: sql_holds_def)
  have a: "ar_digest a = digest_compute sha256 c" "ar_byte_len a = length c"
    using artifact_rows_ok [OF rep] Some p by auto
  have "fmlookup (snd st) (ar_digest a) = Some c" if "\<not> ar_inline a"
    using h Some p that by (auto simp: sql_holds_def blobs_hold_def)
  then show ?thesis
    using Some p a
    by (auto simp: sql_get_artifact_def fetch_artifact [OF rep] artifact_rows_find [OF rep] artifact_to_row_def
        read_verified_blob_def read_blob_file_def ok_or_def)
qed

lemma delete_artifact_law:
  assumes h: "sql_holds sha256 st m"
  shows "sql_holds sha256 (snd (sql_delete_artifact aid st)) (fmdrop aid m) \<and>
    fst (sql_delete_artifact aid st) = (if fmlookup m aid = None then Inl (ArtifactNotFound aid) else Inr ())"
proof -
  obtain db fs where st: "st = (db, fs)" by fastforce
  have rep: "artifact_rows sha256 (db_artifacts db) m" and blobs: "blobs_hold db fs m"
    using h by (simp_all add: sql_holds_def st)
  let ?db = "db\<lparr>db_artifacts := filter (\<lambda>r. af_artifact_id r \<noteq> aid) (db_artifacts db)\<rparr>"
  have rows: "artifact_rows sha256 (db_artifacts ?db) (fmdrop aid m)"
    using represents_delete [OF rep] by simp
  have hold: "blobs_hold ?db fs m"
    using blobs by (simp add: blobs_hold_cong [of ?db db])
  show ?thesis
  proof (cases "fmlookup m aid")
    case None
    moreover have "fmdrop aid m = m"
      using None by (intro fmap_ext) auto
    ultimately show ?thesis
      using h by (simp add: sql_delete_artifact_def delete_artifact_tx_def st fetch_artifact [OF rep])
  next
    case (Some p)
    obtain a c where p: "p = (a, c)" by fastforce
    show ?thesis
    proof (cases "ar_inline a")
      case True
      then have "sql_delete_artifact aid st = (Inr (), ?db, fs)"
        using Some p by (simp add: sql_delete_artifact_def delete_artifact_tx_def st fetch_artifact [OF rep])
      then show ?thesis
        using Some p True rows blobs_hold_forget [OF hold, of aid] by (simp add: sql_holds_def)
    next
      case False
      have "sql_delete_artifact aid st = (Inr (), drop_blob (ar_digest a) (?db, fs))"
        using Some p False
        by (simp add: sql_delete_artifact_def delete_artifact_tx_def st fetch_artifact [OF rep] drop_blob_def
            split: prod.split)
      moreover have "fmlookup m aid = Some (a, c)"
        using Some p by simp
      ultimately show ?thesis
        using blobs_hold_drop [OF hold _ False, of aid c] rows by (auto simp: sql_holds_def)
    qed
  qed
qed

text \<open>Counting a new blob commutes with dropping another one.\<close>

lemma decrement_increment:
  assumes "d \<noteq> e"
  shows "decrement_blob_ref_with_executor d (increment_blob_ref_with_executor e n db) =
     apsnd (increment_blob_ref_with_executor e n) (decrement_blob_ref_with_executor d db)"
proof -
  let ?inc = "\<lambda>b. if bl_digest b = e then b\<lparr>bl_ref_count := bl_ref_count b + 1, bl_byte_len := int n\<rparr> else b"
  let ?set = "\<lambda>f b. if bl_digest b = d then b\<lparr>bl_ref_count := f (bl_ref_count b)\<rparr> else b"
  have find_inc: "find (\<lambda>b. bl_digest b = d) (map ?inc blobs) = find (\<lambda>b. bl_digest b = d) blobs" for blobs
    using assms by (induction blobs) auto
  have ex_set: "list_ex (\<lambda>b. bl_digest b = e) (map (?set f) blobs) = list_ex (\<lambda>b. bl_digest b = e) blobs" for f blobs
    by (induction blobs) auto
  have comm: "map (?set f) (map ?inc blobs) = map ?inc (map (?set f) blobs)" for f blobs
    using assms by (induction blobs) auto
  show ?thesis
    unfolding decrement_blob_ref_with_executor_def increment_blob_ref_with_executor_def Let_def
    using assms
    by (cases "list_ex (\<lambda>b. bl_digest b = e) (db_blobs db)")
      (simp_all add: find_inc ex_set [of "\<lambda>n. n - 1"] ex_set [of "\<lambda>_. 0"] comm [of "\<lambda>n. n - 1"]
        comm [of "\<lambda>_. 0"] find_append split: option.split del: map_map)
qed

lemma finalize_upsert:
  "finalize_blob_cleanup (if gone then [d] else []) (upsert_artifact_row row db, fs) =
     apfst (upsert_artifact_row row) (finalize_blob_cleanup (if gone then [d] else []) (db, fs))"
  by (simp add: upsert_artifact_row_def)

lemma upsert_blobs [simp]: "db_blobs (upsert_artifact_row row db) = db_blobs db"
  by (simp add: upsert_artifact_row_def)

lemma upsert_artifacts:
  "db_artifacts db = db_artifacts db' \<Longrightarrow>
     db_artifacts (upsert_artifact_row row db) = db_artifacts (upsert_artifact_row row db')"
  by (simp add: upsert_artifact_row_def)

lemma blobs_update_artifacts: "db_artifacts (db\<lparr>db_blobs := blobs\<rparr>) = db_artifacts db"
  by simp

lemma increment_artifacts [simp]: "db_artifacts (increment_blob_ref_with_executor d n db) = db_artifacts db"
  by (simp add: increment_blob_ref_with_executor_def)

text \<open>Put, once its checks have passed: the bookkeeping of the blobs and the row.\<close>

lemma put_artifact_steps:
  assumes check: "check_artifact sha256 meta content = Inr d"
    and task: "fetch_task_with_executor (am_task_id meta) db = Inr t"
    and old: "fetch_artifact_optional (am_artifact_id meta) db = Inr existing"
    and a: "a = artifact_record_from_meta meta d (length content)"
  shows "should_write_blob_association existing a \<Longrightarrow> existing = Some old \<Longrightarrow> should_drop_blob_association old a \<Longrightarrow>
      prepare_blob_write_with_executor sha256 d content db fs = (Inr p, fs1) \<Longrightarrow>
      sql_put_artifact sha256 meta content (db, fs) = (Inr a, apfst (upsert_artifact_row (artifact_to_row a content))
        (drop_blob (ar_digest old) (increment_blob_ref_with_executor d (length content) db, fs1)))"
    and "should_write_blob_association existing a \<Longrightarrow>
      (\<And>old. existing = Some old \<Longrightarrow> \<not> should_drop_blob_association old a) \<Longrightarrow>
      prepare_blob_write_with_executor sha256 d content db fs = (Inr p, fs1) \<Longrightarrow>
      sql_put_artifact sha256 meta content (db, fs) = (Inr a, upsert_artifact_row (artifact_to_row a content)
        (increment_blob_ref_with_executor d (length content) db), fs1)"
    and "\<not> should_write_blob_association existing a \<Longrightarrow> existing = Some old \<Longrightarrow> should_drop_blob_association old a \<Longrightarrow>
      sql_put_artifact sha256 meta content (db, fs) = (Inr a, apfst (upsert_artifact_row (artifact_to_row a content))
        (drop_blob (ar_digest old) (db, fs)))"
    and "\<not> should_write_blob_association existing a \<Longrightarrow>
      (\<And>old. existing = Some old \<Longrightarrow> \<not> should_drop_blob_association old a) \<Longrightarrow>
      sql_put_artifact sha256 meta content (db, fs) = (Inr a, upsert_artifact_row (artifact_to_row a content) db, fs)"
proof -
  have a': "ar_task_id a = am_task_id meta" "ar_artifact_id a = am_artifact_id meta" "ar_digest a = d"
    by (simp_all add: a artifact_record_from_meta_def)
  note unfold = sql_put_artifact_def put_artifact_tx_def check Let_def a [symmetric] a' task old
  show "sql_put_artifact sha256 meta content (db, fs) = (Inr a, apfst (upsert_artifact_row (artifact_to_row a content))
      (drop_blob (ar_digest old) (increment_blob_ref_with_executor d (length content) db, fs1)))"
    if "should_write_blob_association existing a" "existing = Some old" "should_drop_blob_association old a"
      "prepare_blob_write_with_executor sha256 d content db fs = (Inr p, fs1)"
  proof -
    have "ar_digest old \<noteq> d"
      using that by (auto simp: should_write_blob_association_def should_drop_blob_association_def a')
    then show ?thesis
      using that by (cases "decrement_blob_ref_with_executor (ar_digest old) db")
        (simp add: unfold drop_blob_def decrement_increment finalize_upsert)
  qed
  show "sql_put_artifact sha256 meta content (db, fs) = (Inr a, apfst (upsert_artifact_row (artifact_to_row a content))
      (drop_blob (ar_digest old) (db, fs)))"
    if "\<not> should_write_blob_association existing a" "existing = Some old" "should_drop_blob_association old a"
    using that by (cases "decrement_blob_ref_with_executor (ar_digest old) db")
      (simp add: unfold drop_blob_def finalize_upsert)
  show "sql_put_artifact sha256 meta content (db, fs) = (Inr a, upsert_artifact_row (artifact_to_row a content)
        (increment_blob_ref_with_executor d (length content) db), fs1)"
    if "should_write_blob_association existing a" "\<And>old. existing = Some old \<Longrightarrow> \<not> should_drop_blob_association old a"
      "prepare_blob_write_with_executor sha256 d content db fs = (Inr p, fs1)"
    using that by (cases existing) (simp_all add: unfold)
  show "sql_put_artifact sha256 meta content (db, fs) = (Inr a, upsert_artifact_row (artifact_to_row a content) db, fs)"
    if "\<not> should_write_blob_association existing a" "\<And>old. existing = Some old \<Longrightarrow> \<not> should_drop_blob_association old a"
    using that by (cases existing) (simp_all add: unfold)
qed

lemma files_agree:
  assumes rep: "artifact_rows sha256 rows m" and h: "blobs_hold db fs m" and new: "storable sha256 m meta content"
    and stored: "fmlookup fs (digest_compute sha256 content) = Some c"
  shows "c = content"
proof -
  have "0 < blob_refs m (digest_compute sha256 content)"
    using h stored unfolding blobs_hold_def tally_def by (metis gr0I option.distinct(1))
  then obtain k a c' where a: "fmlookup m k = Some (a, c')" "\<not> ar_inline a" "ar_digest a = digest_compute sha256 content"
    by (rule blob_refsE)
  with h stored have "c' = c" by (fastforce simp: blobs_hold_def)
  moreover have "c' = content"
    using new a artifact_rows_ok [OF rep a(1)] by (auto simp: storable_def)
  ultimately show ?thesis by simp
qed

lemma blobs_hold_same:
  assumes h: "blobs_hold db fs m" and old: "fmlookup m k = Some (old, c)"
    and a: "ar_inline a = ar_inline old" "ar_digest a = ar_digest old"
  shows "blobs_hold db fs (fmupd k (a, c) m)"
proof -
  have "blob_refs (fmupd k (a, c) m) = blob_refs m"
    using blob_refs_drop [of m _ k] old a by (auto simp: fun_eq_iff blob_refs_upd)
  with h old a show ?thesis by (auto simp: blobs_hold_def split: if_splits)
qed

text \<open>A put that leaves the blob of the artifact it replaces.\<close>

lemma put_dropping:
  assumes check: "check_artifact sha256 meta content = Inr (digest_compute sha256 content)"
    and task: "fetch_task_with_executor (am_task_id meta) db = Inr t"
    and rep: "artifact_rows sha256 (db_artifacts db) m" and hold: "blobs_hold db fs m"
    and new: "storable sha256 m meta content"
    and old: "fmlookup m (am_artifact_id meta) = Some (old, c)"
      "should_drop_blob_association old (stored_as sha256 meta content)"
  shows "\<exists>db' fs'. sql_put_artifact sha256 meta content (db, fs) = (Inr (stored_as sha256 meta content),
      upsert_artifact_row (artifact_to_row (stored_as sha256 meta content) content) db', fs') \<and>
    db_artifacts db' = db_artifacts db \<and>
    blobs_hold db' fs' (fmupd (am_artifact_id meta) (stored_as sha256 meta content, content) m)"
proof -
  let ?k = "am_artifact_id meta" and ?d = "digest_compute sha256 content" and ?a = "stored_as sha256 meta content"
  let ?inc = "increment_blob_ref_with_executor ?d (length content)"
  note steps = put_artifact_steps [OF check task fetch_artifact [OF rep] refl, where fs = fs]
  from old have nonin: "\<not> ar_inline old"
    by (simp add: should_drop_blob_association_def)
  have existing: "map_option fst (fmlookup m ?k) = Some old"
    using old(1) by simp
  show ?thesis
  proof (cases "ar_inline ?a")
    case True
    from blobs_hold_drop [OF hold old(1) nonin] obtain blobs fs' where
      "drop_blob (ar_digest old) (db, fs) = (db\<lparr>db_blobs := blobs\<rparr>, fs')"
      "blobs_hold (db\<lparr>db_blobs := blobs\<rparr>) fs' (fmdrop ?k m)" by blast
    moreover have "\<not> should_write_blob_association (map_option fst (fmlookup m ?k)) ?a"
      using True by (simp add: should_write_blob_association_def)
    note steps(3) [OF this existing old(2)]
    ultimately show ?thesis
      by (intro exI [of _ "db\<lparr>db_blobs := blobs\<rparr>"] exI [of _ fs'])
        (simp only: apfst_conv blobs_update_artifacts blobs_hold_inline [OF _ True] simp_thms)
  next
    case False
    have a: "ar_digest ?a = ?d" by (simp add: artifact_record_from_meta_def)
    from False old(2) have neq: "ar_digest old \<noteq> ar_digest ?a"
      by (simp add: should_drop_blob_association_def)
    from blobs_hold_replace [OF hold old(1) nonin False a neq files_agree [OF rep hold new]]
    obtain p fs1 blobs fs' where p:
      "prepare_blob_write_with_executor sha256 ?d content db fs = (Inr p, fs1)"
      "drop_blob (ar_digest old) (?inc db, fs1) = (?inc db\<lparr>db_blobs := blobs\<rparr>, fs')"
      "blobs_hold (db\<lparr>db_blobs := blobs\<rparr>) fs' (fmupd ?k (?a, content) m)" by blast
    then have "blobs_hold (?inc db\<lparr>db_blobs := blobs\<rparr>) fs' (fmupd ?k (?a, content) m)"
      using blobs_hold_cong [of "?inc db\<lparr>db_blobs := blobs\<rparr>" "db\<lparr>db_blobs := blobs\<rparr>"] by simp
    moreover have "should_write_blob_association (map_option fst (fmlookup m ?k)) ?a"
      using False neq by (simp add: existing should_write_blob_association_def)
    note steps(1) [OF this existing old(2) p(1)]
    ultimately show ?thesis
      by (intro exI [of _ "?inc db\<lparr>db_blobs := blobs\<rparr>"] exI [of _ fs'])
        (simp only: p(2) apfst_conv blobs_update_artifacts increment_artifacts simp_thms)
  qed
qed

lemma put_keeping:
  assumes check: "check_artifact sha256 meta content = Inr (digest_compute sha256 content)"
    and task: "fetch_task_with_executor (am_task_id meta) db = Inr t"
    and rep: "artifact_rows sha256 (db_artifacts db) m" and hold: "blobs_hold db fs m"
    and new: "storable sha256 m meta content"
    and keep: "\<And>old c. fmlookup m (am_artifact_id meta) = Some (old, c) \<Longrightarrow>
      \<not> should_drop_blob_association old (stored_as sha256 meta content)"
  shows "\<exists>db' fs'. sql_put_artifact sha256 meta content (db, fs) = (Inr (stored_as sha256 meta content),
      upsert_artifact_row (artifact_to_row (stored_as sha256 meta content) content) db', fs') \<and>
    db_artifacts db' = db_artifacts db \<and>
    blobs_hold db' fs' (fmupd (am_artifact_id meta) (stored_as sha256 meta content, content) m)"
proof -
  let ?k = "am_artifact_id meta" and ?d = "digest_compute sha256 content" and ?a = "stored_as sha256 meta content"
  note steps = put_artifact_steps [OF check task fetch_artifact [OF rep] refl, where fs = fs]
  have a: "ar_digest ?a = ?d" "ar_inline ?a = should_inline (length content)"
    by (simp_all add: artifact_record_from_meta_def)
  have keep': "\<not> should_drop_blob_association old ?a" if "map_option fst (fmlookup m ?k) = Some old" for old
    using that keep by auto
  show ?thesis
  proof (cases "should_write_blob_association (map_option fst (fmlookup m ?k)) ?a")
    case True
    then have nonin: "\<not> ar_inline ?a" by (simp add: should_write_blob_association_def)
    have "blobs_hold db fs (fmdrop ?k m)"
      using True keep
      by (intro blobs_hold_forget [OF hold])
        (auto simp: should_write_blob_association_def should_drop_blob_association_def)
    from blobs_hold_add [OF this nonin a(1) files_agree [OF rep hold new]] obtain p fs' where
      "prepare_blob_write_with_executor sha256 ?d content db fs = (Inr p, fs')"
      "blobs_hold (increment_blob_ref_with_executor ?d (length content) db) fs' (fmupd ?k (?a, content) m)" by blast
    then show ?thesis
      using steps(2) [OF True keep'] by (blast intro: increment_artifacts)
  next
    case False
    have "blobs_hold db fs (fmupd ?k (?a, content) m)"
    proof (cases "ar_inline ?a")
      case True
      with keep show ?thesis
        by (intro blobs_hold_inline blobs_hold_forget hold) (auto simp: should_drop_blob_association_def)
    next
      case nonin: False
      with False obtain old c where old: "fmlookup m ?k = Some (old, c)" "\<not> ar_inline old" "ar_digest old = ?d"
        by (auto simp: should_write_blob_association_def a split: option.splits)
      moreover from this artifact_rows_ok [OF rep old(1)] new have "c = content"
        by (auto simp: storable_def)
      ultimately show ?thesis
        using blobs_hold_same [OF hold, of ?k old content ?a] nonin a(1) by simp
    qed
    with steps(4) [OF False keep'] show ?thesis by blast
  qed
qed

lemma put_artifact_law:
  assumes sha: "sha_ok sha256" and h: "sql_holds sha256 st m" and new: "storable sha256 m meta content"
    and ready: "sql_knows st (am_task_id meta)"
  shows "\<exists>st'. sql_put_artifact sha256 meta content st = (Inr (stored_as sha256 meta content), st') \<and>
    sql_holds sha256 st' (fmupd (am_artifact_id meta) (stored_as sha256 meta content, content) m)"
proof -
  obtain db fs where st: "st = (db, fs)" by fastforce
  let ?k = "am_artifact_id meta" and ?a = "stored_as sha256 meta content"
  have rep: "artifact_rows sha256 (db_artifacts db) m" and hold: "blobs_hold db fs m"
    using h by (simp_all add: sql_holds_def st)
  obtain t where task: "fetch_task_with_executor (am_task_id meta) db = Inr t"
    using ready by (auto simp: sql_knows_def st split: sum.splits)
  note check = storable_ok [OF sha new, THEN conjunct2]
  obtain db' fs' where put: "sql_put_artifact sha256 meta content (db, fs) =
      (Inr ?a, upsert_artifact_row (artifact_to_row ?a content) db', fs')"
    and rows: "db_artifacts db' = db_artifacts db" and blobs: "blobs_hold db' fs' (fmupd ?k (?a, content) m)"
    using put_dropping [OF check task rep hold new] put_keeping [OF check task rep hold new] by blast
  have "artifact_rows sha256 (db_artifacts db') m"
    using rep rows by simp
  from artifact_rows_upsert [OF this storable_ok [OF sha new, THEN conjunct1]] put blobs
  show ?thesis
    by (simp add: st sql_holds_def artifact_record_from_meta_def
        blobs_hold_cong [of "upsert_artifact_row _ db'" db'])
qed

lemma blob_ops_tasks [simp]:
  "db_tasks (fst (finalize_blob_cleanup ds st)) = db_tasks (fst st)"
  "db_tasks (snd (decrement_blob_ref_with_executor d db)) = db_tasks db"
  "db_tasks (increment_blob_ref_with_executor d n db) = db_tasks db"
  "db_tasks (upsert_artifact_row row db) = db_tasks db"
  by (induction ds st rule: finalize_blob_cleanup.induct)
    (auto simp: decrement_blob_ref_with_executor_def increment_blob_ref_with_executor_def upsert_artifact_row_def Let_def
      split: option.split)

lemma decremented_tasks: "decrement_blob_ref_with_executor d db = (gone, db') \<Longrightarrow> db_tasks db' = db_tasks db"
  using blob_ops_tasks(2) [of d db] by simp

lemma sql_knows_cong: "db_tasks (fst st') = db_tasks (fst st) \<Longrightarrow> sql_knows st' = sql_knows st"
  by (simp add: fun_eq_iff sql_knows_def fetch_task_with_executor_def fetch_task_optional_with_executor_def)

lemma put_artifact_tasks: "db_tasks (fst (snd (sql_put_artifact sha256 meta content st))) = db_tasks (fst st)"
proof -
  have "db_tasks (fst (snd (put_artifact_tx sha256 meta content st))) = db_tasks (fst st)"
    unfolding put_artifact_tx_def Let_def
    by (cases st) (auto dest: decremented_tasks split: attempt_split option.split prod.split)
  then show ?thesis
    by (auto simp: sql_put_artifact_def split: prod.split sum.split)
qed

lemma delete_artifact_tasks: "db_tasks (fst (snd (sql_delete_artifact aid st))) = db_tasks (fst st)"
proof -
  have "db_tasks (fst (snd (delete_artifact_tx aid st))) = db_tasks (fst st)"
    by (cases st) (auto simp: delete_artifact_tx_def Let_def dest: decremented_tasks split: attempt_split prod.split)
  then show ?thesis
    by (auto simp: sql_delete_artifact_def split: prod.split sum.split)
qed

text \<open>The SQLite backend meets the contract, with no limit on the number of artifacts.\<close>

interpretation sqlite_artifacts: artifact_store sql_put_artifact sql_get_artifact sql_delete_artifact sql_holds
  sql_knows "\<lambda>_. True"
proof
  fix meta :: artifact_meta and sha256 :: "bytes \<Rightarrow> bytes" and content :: bytes and st :: "sql_db \<times> blob_dir" and aid
  show "\<exists>e. sql_put_artifact sha256 meta content st = (Inl e, st)"
    if "am_digest meta \<noteq> digest_compute sha256 content"
    using that
    by (cases st) (auto simp: sql_put_artifact_def put_artifact_tx_def check_artifact_def validate_artifact_size_def)
  show "sql_knows (snd (sql_put_artifact sha256 meta content st)) = sql_knows st"
    by (rule sql_knows_cong [OF put_artifact_tasks])
  show "sql_knows (snd (sql_delete_artifact aid st)) = sql_knows st"
    by (rule sql_knows_cong [OF delete_artifact_tasks])
qed (simp_all only: get_artifact_law put_artifact_law delete_artifact_law)

section \<open>Cleanup that is overtaken\<close>

text \<open>
  The cleanup runs after the commit. If another artifact with the same content is stored in between,
  its row counts the blob again, and the cleanup still removes the file.
\<close>

lemma overtaken_cleanup:
  assumes sha: "sha_ok sha256" and h: "sql_holds sha256 (db, fs) m"
    and a: "fmlookup m aid = Some (a, content)" "\<not> ar_inline a" "blob_refs m (ar_digest a) = 1"
    and new: "storable sha256 m meta content" "fmlookup m (am_artifact_id meta) = None"
    and task: "sql_knows (db, fs) (am_task_id meta)"
  shows "fst (delete_artifact_tx aid (db, fs)) = Inr [ar_digest a]"
    and "fst (sql_put_artifact sha256 meta content (snd (delete_artifact_tx aid (db, fs)))) =
      Inr (stored_as sha256 meta content)"
    and "sql_get_artifact sha256 (am_artifact_id meta) (finalize_blob_cleanup [ar_digest a]
      (snd (sql_put_artifact sha256 meta content (snd (delete_artifact_tx aid (db, fs)))))) = Inl (Database os_not_found)"
proof -
  let ?k = "am_artifact_id meta" and ?rec = "stored_as sha256 meta content" and ?d = "ar_digest a"
  let ?db0 = "db\<lparr>db_artifacts := filter (\<lambda>r. af_artifact_id r \<noteq> aid) (db_artifacts db)\<rparr>"
  have rep: "artifact_rows sha256 (db_artifacts db) m" and hold: "blobs_hold db fs m"
    using h by (simp_all add: sql_holds_def)
  have d: "?d = digest_compute sha256 content" and inl: "ar_inline ?rec = ar_inline a"
    using artifact_rows_ok [OF rep a(1)] by (simp_all add: artifact_record_from_meta_def)
  have "distinct (map bl_digest (db_blobs ?db0))" "blob_count (db_blobs ?db0) ?d = Some 1"
    using hold a(3) by (simp_all add: blobs_hold_def tally_def)
  from count_decrement [OF this] obtain blobs where
    dec: "decrement_blob_ref_with_executor ?d ?db0 = (True, ?db0\<lparr>db_blobs := blobs\<rparr>)" "blob_count blobs ?d = Some 0"
    by auto
  let ?db1 = "?db0\<lparr>db_blobs := blobs\<rparr>"
  have del: "delete_artifact_tx aid (db, fs) = (Inr [?d], ?db1, fs)"
    using a dec(1) by (simp add: delete_artifact_tx_def fetch_artifact [OF rep])
  then show "fst (delete_artifact_tx aid (db, fs)) = Inr [ar_digest a]" by simp
  have rep1: "artifact_rows sha256 (db_artifacts ?db1) (fmdrop aid m)"
    using represents_delete [OF rep] by simp
  have fetched: "fetch_artifact_optional ?k ?db1 = Inr None"
    using fetch_artifact [OF rep1, of ?k] new(2) by simp
  obtain t where t: "fetch_task_with_executor (am_task_id meta) ?db1 = Inr t"
    using task by (auto simp: sql_knows_def fetch_task_with_executor_def fetch_task_optional_with_executor_def
        split: sum.splits)
  have stored: "fmlookup fs ?d = Some content"
    using hold a by (auto simp: blobs_hold_def)
  have "list_ex (\<lambda>b. bl_digest b = ?d) (db_blobs ?db1)"
    using dec(2) by (simp add: blob_count_tracked)
  then have prep: "prepare_blob_write_with_executor sha256 ?d content ?db1 fs =
      (Inr \<lparr>pb_path = ?d, pb_remove_on_rollback = False\<rparr>, fs)"
    using stored by (simp add: prepare_blob_write_with_executor_def read_verified_blob_def read_blob_file_def d Let_def)
  let ?db2 = "upsert_artifact_row (artifact_to_row ?rec content) (increment_blob_ref_with_executor ?d (length content) ?db1)"
  have put: "sql_put_artifact sha256 meta content (?db1, fs) = (Inr ?rec, ?db2, fs)"
    using put_artifact_steps(2) [OF storable_ok [OF sha new(1), THEN conjunct2] t fetched refl _ _ prep [unfolded d]]
      a(2) inl by (simp add: should_write_blob_association_def d)
  then show "fst (sql_put_artifact sha256 meta content (snd (delete_artifact_tx aid (db, fs)))) = Inr ?rec"
    by (simp add: del)
  have "artifact_rows sha256 (db_artifacts ?db2) (fmupd ?k (?rec, content) (fmdrop aid m))"
    using artifact_rows_upsert [OF _ storable_ok [OF sha new(1), THEN conjunct1],
        of "increment_blob_ref_with_executor ?d (length content) ?db1" "fmdrop aid m"] rep1
    by (simp add: artifact_record_from_meta_def)
  then have "fetch_artifact_optional ?k (?db2\<lparr>db_blobs := bs\<rparr>) = Inr (Some ?rec)" for bs
    using fetch_artifact [of sha256 "?db2\<lparr>db_blobs := bs\<rparr>"] by simp
  then show "sql_get_artifact sha256 ?k (finalize_blob_cleanup [?d]
      (snd (sql_put_artifact sha256 meta content (snd (delete_artifact_tx aid (db, fs)))))) = Inl (Database os_not_found)"
    using a(2) inl d
    by (simp add: del put sql_get_artifact_def remove_blob_file_if_present_def read_verified_blob_def read_blob_file_def
        artifact_record_from_meta_def)
qed

end
