(* ===== verification/Sql_Queries.thy ===== *)
theory Sql_Queries
  imports Sql_Contract
begin

text \<open>
  The queries of the SQLite store return what the in-memory queries return on the matching state:
  single rows, counts, histories and replays, and the ordered and limited joins the daemon claims
  work from.
\<close>

section \<open>Single rows and histories\<close>

lemma query_rows:
  assumes "matches owner db s"
  shows "sql_get_task tid db = mem_get_task tid s"
    and "sql_get_task_envelope tid db = mem_get_task_envelope tid s"
    and "sql_get_transport_context tid db = mem_get_transport_context tid s"
    and "sql_get_terminal_result tid db = mem_get_terminal_result tid s"
    and "sql_active_lease tid db = mem_active_lease tid s"
  by (simp_all add: fetches [OF assms] mem_get_task_def sql_get_task_envelope_def mem_get_task_envelope_def
      sql_get_transport_context_def mem_get_transport_context_def sql_get_terminal_result_def
      mem_get_terminal_result_def sql_active_lease_def mem_active_lease_def)

lemma query_events:
  assumes m: "matches owner db s"
  shows "sql_events_for_task tid db = mem_events_for_task tid s"
proof (cases "fmlookup (ms_tasks s) tid")
  case None
  then have "fmlookup (ms_events s) tid = None"
    using mem_inv_events [OF matches_inv [OF m]] by simp
  with None show ?thesis
    by (simp add: sql_events_for_task_def mem_events_for_task_def select_events_rows [OF m]
        mem_history_def get_task [OF m] Let_def)
next
  case (Some t)
  then obtain evs where "fmlookup (ms_events s) tid = Some evs"
    using mem_inv_events [OF matches_inv [OF m], of tid] by (metis not_None_eq)
  with Some history_replays(2) [OF m Some] decode_history [OF m, of tid] show ?thesis
    by (simp add: sql_events_for_task_def mem_events_for_task_def select_events_rows [OF m]
        mem_history_def Let_def)
qed

lemma query_replay:
  assumes m: "matches owner db s"
  shows "sql_replay_task tid db = mem_replay_task tid s"
  using mem_inv_events [OF matches_inv [OF m], of tid]
  by (cases "fmlookup (ms_tasks s) tid")
    (auto simp: sql_replay_task_def mem_replay_task_def query_events [OF m] get_task [OF m]
      mem_events_for_task_def)

section \<open>Ordered selections over joins\<close>

lemma sort_key_encoded:
  fixes g :: "'b \<Rightarrow> 'o::linorder"
  assumes "distinct xs" and "distinct ys" and sets: "set xs = enc ` set ys"
    and g: "\<And>y. y \<in> set ys \<Longrightarrow> g (enc y) = h y" and inj: "inj_on h (set ys)"
  shows "sort_key g xs = map enc (sort_key h ys)"
proof (rule map_sorted_distinct_set_unique [where f = g])
  have map_g: "map g (map enc (sort_key h ys)) = map h (sort_key h ys)"
    using g by simp
  show "inj_on g (set (sort_key g xs) \<union> set (map enc (sort_key h ys)))"
    using sets g inj by (auto simp: inj_on_def)
  show "sorted (map g (sort_key g xs))" by simp
  show "distinct (map g (sort_key g xs))"
    using assms(1) sets g inj by (auto simp: distinct_map inj_on_def)
  show "sorted (map g (map enc (sort_key h ys)))"
    unfolding map_g by simp
  show "distinct (map g (map enc (sort_key h ys)))"
    unfolding map_g using assms(2) inj by (simp add: distinct_map)
  show "set (sort_key g xs) = set (map enc (sort_key h ys))"
    using sets by simp
qed

lemma distinct_join:
  "distinct ts \<Longrightarrow> distinct es \<Longrightarrow> distinct (concat (map (\<lambda>t. map (Pair t) (filter (R t) es)) ts))"
  by (induction ts) (auto simp: distinct_map inj_on_def)

lemma distinct_mapD: "distinct (map f xs) \<Longrightarrow> distinct xs"
  by (simp add: distinct_map)

definition pending_row :: "pending_task_envelope \<Rightarrow> task_row \<times> task_envelope_record" where
  "pending_row p = (task_to_row (pe_task p), pe_envelope p)"

text \<open>The join of tasks and envelopes, restricted by a condition on the task.\<close>

lemma join_pending:
  assumes m: "matches owner db s"
    and P: "\<And>t. fmlookup (ms_tasks s) (tr_id t) = Some t \<Longrightarrow> P (task_to_row t) \<longleftrightarrow> Q t"
  shows "sort_key join_key (filter (\<lambda>row. P (fst row)) (join_envelopes db)) =
    map pending_row (sort_key arrival_key (List.map_filter (with_envelope s) (filter Q (fmvalues (ms_tasks s)))))"
proof (rule sort_key_encoded)
  have ts: "tasks_match (db_tasks db) (ms_tasks s)" and es: "envelopes_match (db_task_envelopes db) (ms_envelopes s)"
    using m by (simp_all add: matches_def)
  have by_id: "fmlookup (ms_tasks s) (tr_id t) = Some t" if "t \<in> set (fmvalues (ms_tasks s))" for t
    using that by (rule values_by_id [OF matches_inv [OF m]])
  show "distinct (filter (\<lambda>row. P (fst row)) (join_envelopes db))"
    unfolding join_envelopes_def
    using ts es by (intro distinct_filter distinct_join distinct_mapD [of tk_task_id] distinct_mapD [of er_task_id])
      (simp_all add: represents_def)
  have vals: "distinct (fmvalues (ms_tasks s))"
    using distinct_ids [OF matches_inv [OF m]] by (rule distinct_mapD)
  then show "distinct (List.map_filter (with_envelope s) (filter Q (fmvalues (ms_tasks s))))"
    by (intro distinct_map_filter_inj [where g = pe_task]) (auto simp: with_envelope_def)
  show "join_key (pending_row p) = arrival_key p" for p
    by (simp add: join_key_def pending_row_def arrival_key_def task_to_row_def)
  show "inj_on arrival_key (set (List.map_filter (with_envelope s) (filter Q (fmvalues (ms_tasks s)))))"
  proof (rule inj_onI)
    fix p q assume "p \<in> set (List.map_filter (with_envelope s) (filter Q (fmvalues (ms_tasks s))))"
      "q \<in> set (List.map_filter (with_envelope s) (filter Q (fmvalues (ms_tasks s))))"
      and keys: "arrival_key p = arrival_key q"
    then obtain t u where t: "t \<in> set (fmvalues (ms_tasks s))" "with_envelope s t = Some p"
      and u: "u \<in> set (fmvalues (ms_tasks s))" "with_envelope s u = Some q"
      by (auto simp: set_map_filter)
    with keys have "tr_id t = tr_id u" by (auto simp: with_envelope_def arrival_key_def)
    then have "t = u"
      using by_id [OF t(1)] by_id [OF u(1)] by (metis option.inject)
    with t(2) u(2) show "p = q" by simp
  qed
  show "set (filter (\<lambda>row. P (fst row)) (join_envelopes db)) =
      pending_row ` set (List.map_filter (with_envelope s) (filter Q (fmvalues (ms_tasks s))))"
  proof (intro equalityI subsetI)
    fix row assume "row \<in> set (filter (\<lambda>row. P (fst row)) (join_envelopes db))"
    then obtain r e where row: "row = (r, e)" and r: "r \<in> set (db_tasks db)" "P r"
      and e: "e \<in> set (db_task_envelopes db)" "er_task_id e = tk_task_id r"
      by (auto simp: join_envelopes_def)
    from represents_row [OF ts r(1)] obtain t where
      t: "fmlookup (ms_tasks s) (tk_task_id r) = Some t" "r = task_to_row t" .
    have tid: "tk_task_id r = tr_id t"
      using matches_valid_task [OF m t(1)] by simp
    have "fmlookup (ms_envelopes s) (er_task_id e) = Some e"
      by (rule represents_row [OF es e(1)]) simp
    then have "fmlookup (ms_envelopes s) (tr_id t) = Some e"
      by (simp only: e(2) tid)
    moreover have "t \<in> set (fmvalues (ms_tasks s))" "Q t"
      using t(1) r(2) P [of t] by (simp_all only: t(2) [symmetric] tid fmvaluesI)
    ultimately have "\<lparr>pe_task = t, pe_envelope = e\<rparr> \<in>
        set (List.map_filter (with_envelope s) (filter Q (fmvalues (ms_tasks s))))"
      by (auto simp: set_map_filter with_envelope_def)
    then show "row \<in> pending_row ` set (List.map_filter (with_envelope s) (filter Q (fmvalues (ms_tasks s))))"
      by (rule rev_image_eqI) (simp add: row t(2) pending_row_def)
  next
    fix row assume "row \<in> pending_row ` set (List.map_filter (with_envelope s) (filter Q (fmvalues (ms_tasks s))))"
    then obtain t e where row: "row = (task_to_row t, e)" and t: "t \<in> set (fmvalues (ms_tasks s))" "Q t"
      and e: "fmlookup (ms_envelopes s) (tr_id t) = Some e"
      by (auto simp: pending_row_def set_map_filter with_envelope_def)
    have "task_to_row t \<in> set (db_tasks db)" "e \<in> set (db_task_envelopes db)" "er_task_id e = tr_id t"
      using represents_in_rows [OF ts by_id [OF t(1)]] represents_in_rows [OF es e]
        represents_ok [OF es e] by simp_all
    moreover have "P (task_to_row t)" "tk_task_id (task_to_row t) = tr_id t"
      using P [OF by_id [OF t(1)]] t(2) by (simp_all add: task_to_row_def)
    ultimately show "row \<in> set (filter (\<lambda>row. P (fst row)) (join_envelopes db))"
      by (force simp: row join_envelopes_def)
  qed
qed

lemma decode_pending:
  assumes m: "matches owner db s"
    and ps: "set ps \<subseteq> {p. \<exists>t \<in> set (fmvalues (ms_tasks s)). with_envelope s t = Some p}"
  shows "mapR row_to_pending_task_envelope (map pending_row ps) = Inr ps"
proof (rule mapR_round)
  fix p assume "p \<in> set ps"
  with ps obtain t e where t: "t \<in> set (fmvalues (ms_tasks s))" and p: "p = \<lparr>pe_task = t, pe_envelope = e\<rparr>"
    and e: "fmlookup (ms_envelopes s) (tr_id t) = Some e"
    by (auto simp: with_envelope_def)
  have "er_task_id e = tr_id t"
    using represents_ok [OF _ e, of er_task_id "\<lambda>_ e. e"] m by (auto simp: matches_def)
  then show "row_to_pending_task_envelope (pending_row p) = Inr p"
    using matches_valid_task [OF m values_by_id [OF matches_inv [OF m] t]]
    by (simp add: p pending_row_def row_to_pending_task_envelope_def)
qed

lemma status_row: "tk_status (task_to_row t) = status_to_str (tr_status t)"
  by (simp add: task_to_row_def)

lemma query_pending:
  assumes m: "matches owner db s" and limit: "limit < 2 ^ 63"
  shows "sql_pending_task_envelopes limit db = mem_pending_task_envelopes limit s"
proof -
  have "tk_status (task_to_row t) = ''pending'' \<longleftrightarrow> tr_status t = Pending" for t
    by (cases "tr_status t") (simp_all add: status_row)
  then show ?thesis
    using limit unfolding sql_pending_task_envelopes_def mem_pending_task_envelopes_def
    by (simp add: join_pending [OF m, where P = "\<lambda>r. tk_status r = ''pending''" and Q = "\<lambda>t. tr_status t = Pending"]
        sql_limit_def take_map)
      (intro impI decode_pending [OF m], auto simp: set_map_filter dest!: in_set_takeD)
qed

lemma query_claimable:
  assumes m: "matches owner db s" and limit: "limit < 2 ^ 63"
  shows "sql_claimable_pending_task_envelopes peer limit db = mem_claimable_pending_task_envelopes peer limit s"
proof -
  have exec: "sql_executor_matches db peer (task_to_row t) \<longleftrightarrow> executor_matches s peer t" for t
    using represents_find [of tc_task_id "\<lambda>_ c. c" valid_context "db_transport_context db" "ms_transport_contexts s" "tr_id t"] m
    by (cases "fmlookup (ms_transport_contexts s) (tr_id t)")
      (auto simp: matches_def sql_executor_matches_def executor_matches_def task_to_row_def split: option.splits)
  have "tk_status (task_to_row t) = ''pending'' \<longleftrightarrow> tr_status t = Pending" for t
    by (cases "tr_status t") (simp_all add: status_row)
  with exec show ?thesis
    using limit unfolding sql_claimable_pending_task_envelopes_def mem_claimable_pending_task_envelopes_def
    by (simp add: join_pending [OF m, where P = "\<lambda>r. tk_status r = ''pending'' \<and> sql_executor_matches db peer r"
          and Q = "\<lambda>t. tr_status t = Pending \<and> executor_matches s peer t"] sql_limit_def take_map)
      (intro impI decode_pending [OF m], auto simp: set_map_filter dest!: in_set_takeD)
qed

end
