(* ===== verification/Result_Outbox.thy ===== *)
theory Result_Outbox
  imports Sql_Frame
begin

text \<open>
  Delivery of terminal results from the SQLite outbox (\<open>results.rs\<close>): claiming the next due row
  under a lease, acknowledging it, and recording a failed attempt; and the relay receipt that
  completes a transport context. One row goes through the state machine \<open>delivery_step\<close>; every
  operation moves every row along it. Attempts are bounded, a claim is exclusive while its lease
  lives, and a settled row never changes again.
\<close>

section \<open>Operations\<close>

text \<open>
  The shared \<open>CASE\<close> of the two updates that end an attempt: the tenth failure dead-letters the row.
\<close>

definition attempt_failed :: "bool \<Rightarrow> int \<Rightarrow> string \<Rightarrow> int \<Rightarrow> outbox_row \<Rightarrow> outbox_row" where
  "attempt_failed dead_letter retry_at_ms error now_ms r =
     r\<lparr>ox_state := (if dead_letter \<or> ox_attempt_count r \<ge> max_result_delivery_attempts - 1
                   then ''dead_lettered'' else ''pending''),
       ox_attempt_count := (if ox_attempt_count r \<ge> max_result_delivery_attempts - 1
                   then max_result_delivery_attempts else ox_attempt_count r + 1),
       ox_next_attempt_at_ms := retry_at_ms, ox_lease_owner := None,
       ox_lease_expires_at_ms := None, ox_last_error := Some error, ox_updated_at_ms := now_ms\<rparr>"

definition delivery_lease_expired :: "int \<Rightarrow> outbox_row \<Rightarrow> bool" where
  "delivery_lease_expired now_ms r \<longleftrightarrow>
     ox_state r = ''leased'' \<and>
     (case ox_lease_expires_at_ms r of None \<Rightarrow> False | Some e \<Rightarrow> e \<le> now_ms)"

definition expire_delivery_leases :: "int \<Rightarrow> outbox_row list \<Rightarrow> outbox_row list" where
  "expire_delivery_leases now_ms rows =
     map (\<lambda>r. if delivery_lease_expired now_ms r
             then attempt_failed False now_ms ''result delivery lease expired'' now_ms r else r) rows"

definition due_deliveries :: "int \<Rightarrow> outbox_row list \<Rightarrow> outbox_row list" where
  "due_deliveries now_ms rows =
     sort_key outbox_key (filter (\<lambda>r. ox_state r = ''pending'' \<and> ox_next_attempt_at_ms r \<le> now_ms) rows)"

definition lease_delivery :: "string \<Rightarrow> int \<Rightarrow> int \<Rightarrow> outbox_row \<Rightarrow> outbox_row" where
  "lease_delivery worker_id lease_expires now_ms r =
     r\<lparr>ox_state := ''leased'', ox_lease_owner := Some worker_id,
       ox_lease_expires_at_ms := Some lease_expires, ox_updated_at_ms := now_ms\<rparr>"

definition claim_next_result_delivery ::
  "string \<Rightarrow> int \<Rightarrow> int \<Rightarrow> sql_db \<Rightarrow> (result_outbox_record \<times> terminal_result) option sql_result" where
  "claim_next_result_delivery worker_id now_ms lease_duration_ms db =
     transaction db (
       let db1 = db\<lparr>db_result_outbox := expire_delivery_leases now_ms (db_result_outbox db)\<rparr> in
       case due_deliveries now_ms (db_result_outbox db1) of
         [] \<Rightarrow> commit None db1
       | row # _ \<Rightarrow>
           bindR (row_to_outbox row) (\<lambda>outbox.
           let lease_expires = sat_add_i64 now_ms (max lease_duration_ms 1);
               pick = (\<lambda>r. ox_delivery_id r = ob_delivery_id outbox \<and> ox_state r = ''pending'');
               changed = length (filter pick (db_result_outbox db1));
               db2 = db1\<lparr>db_result_outbox :=
                 map (\<lambda>r. if pick r then lease_delivery worker_id lease_expires now_ms r else r)
                   (db_result_outbox db1)\<rparr>;
               leased = outbox\<lparr>ob_state := DLeased, ob_lease_owner := Some worker_id,
                 ob_lease_expires_at_ms := Some lease_expires, ob_updated_at_ms := now_ms\<rparr> in
           if changed \<noteq> 1 then Inr (Inr None, db)
           else
             bindR (fetch_terminal_result_optional (ob_task_id leased) db2) (\<lambda>row.
             bindR (ok_or row (TerminalResultNotFound (ob_task_id leased))) (\<lambda>result.
             commit (Some (leased, result)) db2))))"

text \<open>The guard of both settling updates: the row is leased by this claim and the lease lives.\<close>

definition delivery_claimed :: "string \<Rightarrow> string \<Rightarrow> int \<Rightarrow> int \<Rightarrow> outbox_row \<Rightarrow> bool" where
  "delivery_claimed did worker_id lease_expires_at_ms now_ms r \<longleftrightarrow>
     ox_delivery_id r = did \<and> ox_state r = ''leased'' \<and> ox_lease_owner r = Some worker_id \<and>
     ox_lease_expires_at_ms r = Some lease_expires_at_ms \<and> lease_expires_at_ms > now_ms"

text \<open>A single \<open>UPDATE\<close> whose effect stays whatever the number of rows it reports.\<close>

definition settle_delivery ::
  "string \<Rightarrow> (outbox_row \<Rightarrow> bool) \<Rightarrow> (outbox_row \<Rightarrow> outbox_row) \<Rightarrow> sql_db \<Rightarrow> unit sql_result" where
  "settle_delivery did guard f db =
     (if length (filter guard (db_result_outbox db)) = 1 then Inr ()
      else Inl (ResultDeliveryLeaseMismatch did),
      db\<lparr>db_result_outbox := map (\<lambda>r. if guard r then f r else r) (db_result_outbox db)\<rparr>)"

definition deliver_row :: "int \<Rightarrow> outbox_row \<Rightarrow> outbox_row" where
  "deliver_row now_ms r =
     r\<lparr>ox_state := ''delivered'', ox_lease_owner := None, ox_lease_expires_at_ms := None,
       ox_updated_at_ms := now_ms\<rparr>"

definition ack_result_delivery :: "string \<Rightarrow> string \<Rightarrow> int \<Rightarrow> int \<Rightarrow> sql_db \<Rightarrow> unit sql_result" where
  "ack_result_delivery did worker_id lease_expires_at_ms now_ms db =
     settle_delivery did (delivery_claimed did worker_id lease_expires_at_ms now_ms) (deliver_row now_ms) db"

definition fail_result_delivery ::
  "string \<Rightarrow> string \<times> int \<Rightarrow> int \<Rightarrow> int \<Rightarrow> string \<Rightarrow> bool \<Rightarrow> sql_db \<Rightarrow> unit sql_result" where
  "fail_result_delivery did claim now_ms retry_at_ms error dead_letter db =
     (let retry_at_ms = min retry_at_ms (sat_add_i64 now_ms max_result_delivery_retry_delay_ms) in
      settle_delivery did (delivery_claimed did (fst claim) (snd claim) now_ms)
        (attempt_failed dead_letter retry_at_ms error now_ms) db)"

definition record_relay_receipt ::
  "task_id \<Rightarrow> peer_id \<Rightarrow> peer_id \<Rightarrow> string \<Rightarrow> int \<Rightarrow> sql_db \<Rightarrow> transport_context sql_result" where
  "record_relay_receipt tid source destination relay_frame_id accepted_at_ms db =
     (let frame_id = trim relay_frame_id in
      if frame_id = [] then (Inl (TransportContextConflict tid), db)
      else transaction db (
        bindR (fetch_transport_context_optional tid db) (\<lambda>row.
        bindR (ok_or row (TransportContextNotFound tid)) (\<lambda>context.
        bindR (ensure (tc_expected_executor_peer_id context = Some destination \<and>
            tc_destination_peer_id context = destination) (TransportContextConflict tid)) (\<lambda>_.
        let sender = tc_authenticated_sender_peer_id context;
            updated = context\<lparr>tc_authenticated_sender_peer_id := Some source,
              tc_relay_frame_id := Some frame_id, tc_received_at_ms := accepted_at_ms\<rparr>;
            write = bindR (ensure (length (filter (\<lambda>r. tc_task_id r = tid) (db_transport_context db)) = 1)
                (TransportContextConflict tid)) (\<lambda>_.
              commit updated (db\<lparr>db_transport_context :=
                map (\<lambda>r. if tc_task_id r = tid
                        then r\<lparr>tc_authenticated_sender_peer_id := Some source,
                               tc_relay_frame_id := Some frame_id, tc_received_at_ms := accepted_at_ms\<rparr>
                        else r) (db_transport_context db)\<rparr>)) in
        case tc_relay_frame_id context of
          None \<Rightarrow> write
        | Some existing \<Rightarrow>
            if existing = frame_id \<and> sender = Some source \<and> tc_received_at_ms context = accepted_at_ms
            then commit context db
            else if sender \<noteq> Some source then Inl (TransportContextConflict tid)
            else write)))))"

section \<open>The life of one delivery\<close>

inductive delivery_step :: "bool \<Rightarrow> outbox_row \<Rightarrow> outbox_row \<Rightarrow> bool" where
  claim: "ox_state r = ''pending'' \<Longrightarrow> delivery_step True r (lease_delivery w e now_ms r)"
| fail: "ox_state r = ''leased'' \<Longrightarrow> delivery_step False r (attempt_failed dead retry_at why now_ms r)"
| ack: "ox_state r = ''leased'' \<Longrightarrow> delivery_step False r (deliver_row now_ms r)"

text \<open>A sequence of such steps, with the number of claims among them.\<close>

inductive delivery_run :: "nat \<Rightarrow> outbox_row \<Rightarrow> outbox_row \<Rightarrow> bool" where
  stay: "delivery_run 0 r r"
| move: "delivery_step c r r' \<Longrightarrow> delivery_run n r' r'' \<Longrightarrow> delivery_run ((if c then 1 else 0) + n) r r''"

lemmas delivery_fields = lease_delivery_def attempt_failed_def deliver_row_def

definition settled :: "outbox_row \<Rightarrow> bool" where
  "settled r \<longleftrightarrow> ox_state r \<in> {''delivered'', ''dead_lettered''}"

text \<open>How often a row may still be claimed.\<close>

definition claims_left :: "outbox_row \<Rightarrow> nat" where
  "claims_left r =
     (if ox_state r = ''pending'' then nat (max_result_delivery_attempts - ox_attempt_count r)
      else if ox_state r = ''leased'' then nat (max_result_delivery_attempts - 1 - ox_attempt_count r)
      else 0)"

lemma delivery_step_ok: "delivery_step c r r' \<Longrightarrow> delivery_ok r \<Longrightarrow> delivery_ok r'"
  by (induction rule: delivery_step.induct)
    (auto simp: delivery_ok_def delivery_fields max_result_delivery_attempts_def)

lemma delivery_step_claims_left:
  "delivery_step c r r' \<Longrightarrow> delivery_ok r \<Longrightarrow> claims_left r' + (if c then 1 else 0) \<le> claims_left r"
  by (induction rule: delivery_step.induct)
    (auto simp: delivery_ok_def claims_left_def delivery_fields max_result_delivery_attempts_def)

lemma delivery_step_settled: "delivery_step c r r' \<Longrightarrow> \<not> settled r"
  by (induction rule: delivery_step.induct) (auto simp: settled_def)

lemma delivery_run_ok: "delivery_run n r r' \<Longrightarrow> delivery_ok r \<Longrightarrow> delivery_ok r'"
  by (induction rule: delivery_run.induct) (auto dest: delivery_step_ok)

lemma delivery_run_claims_left: "delivery_run n r r' \<Longrightarrow> delivery_ok r \<Longrightarrow> claims_left r' + n \<le> claims_left r"
proof (induction rule: delivery_run.induct)
  case (move c r r' n r'')
  with delivery_step_ok [OF move(1)] delivery_step_claims_left [OF move(1)] show ?case by fastforce
qed simp

lemma delivery_run_settled: "delivery_run n r r' \<Longrightarrow> settled r \<Longrightarrow> r' = r \<and> n = 0"
  by (induction rule: delivery_run.induct) (auto dest: delivery_step_settled)

lemma delivery_run_one: "delivery_step c r r' \<Longrightarrow> delivery_run (if c then 1 else 0) r r'"
  using delivery_run.move [OF _ stay] by fastforce

lemma delivery_run_trans: "delivery_run m r r' \<Longrightarrow> delivery_run n r' r'' \<Longrightarrow> delivery_run (m + n) r r''"
proof (induction rule: delivery_run.induct)
  case (move c r r' m u)
  from delivery_run.move [OF move(1) move(3) [OF move(4)]] show ?case
    by (simp add: add.assoc)
qed simp

lemma claims_left_bound: "delivery_ok r \<Longrightarrow> claims_left r \<le> 10"
  by (auto simp: delivery_ok_def claims_left_def max_result_delivery_attempts_def)

section \<open>The contract of a delivery queue\<close>

text \<open>
  What the dispatcher relies on: every operation moves every row along its life, and a reply that
  hands out a delivery is a claim of its row.
\<close>

locale delivery_queue =
  fixes exec :: "'op \<Rightarrow> 's \<Rightarrow> 'r \<times> 's"
    and look :: "'s \<Rightarrow> string \<Rightarrow> outbox_row option"
    and hands_out :: "string \<Rightarrow> 'r \<Rightarrow> bool"
    and queue_inv :: "'s \<Rightarrow> bool"
    and allowed :: "'op \<Rightarrow> bool"
  assumes exec_inv: "queue_inv s \<Longrightarrow> allowed oper \<Longrightarrow> queue_inv (snd (exec oper s))"
    and look_ok: "queue_inv s \<Longrightarrow> look s d = Some r \<Longrightarrow> delivery_ok r"
    and exec_moves: "queue_inv s \<Longrightarrow> allowed oper \<Longrightarrow> look s d = Some r \<Longrightarrow>
      \<exists>r'. look (snd (exec oper s)) d = Some r' \<and>
        delivery_run (if hands_out d (fst (exec oper s)) then 1 else 0) r r'"
    and exec_absent: "queue_inv s \<Longrightarrow> allowed oper \<Longrightarrow> look s d = None \<Longrightarrow>
      \<not> hands_out d (fst (exec oper s))"
begin

lemma run_moves:
  "queue_inv s \<Longrightarrow> list_all allowed opers \<Longrightarrow> look s d = Some r \<Longrightarrow>
     \<exists>r'. look (run_ops exec opers s) d = Some r' \<and>
       delivery_run (length (filter (hands_out d) (replies exec opers s))) r r'"
proof (induction opers arbitrary: s r)
  case Nil
  then show ?case by (auto intro: stay)
next
  case (Cons oper opers)
  from exec_moves [of s oper d r] Cons.prems obtain u where
    u: "look (snd (exec oper s)) d = Some u"
      "delivery_run (if hands_out d (fst (exec oper s)) then 1 else 0) r u" by auto
  moreover from Cons.IH [OF _ _ u(1)] Cons.prems exec_inv obtain v where
    "look (run_ops exec opers (snd (exec oper s))) d = Some v"
    "delivery_run (length (filter (hands_out d) (replies exec opers (snd (exec oper s))))) u v" by auto
  ultimately show ?case
    using delivery_run_trans by fastforce
qed

lemma row_claims: "queue_inv s \<Longrightarrow> list_all allowed opers \<Longrightarrow> look s d = Some r \<Longrightarrow>
    length (filter (hands_out d) (replies exec opers s)) \<le> claims_left r"
  using run_moves [of s opers d r] delivery_run_claims_left [of _ r] look_ok [of s d r] by fastforce

lemma handed_out_at_most: "queue_inv s \<Longrightarrow> list_all allowed opers \<Longrightarrow>
    length (filter (hands_out d) (replies exec opers s)) \<le> 10"
proof (induction opers arbitrary: s)
  case (Cons oper opers)
  show ?case
  proof (cases "look s d")
    case None
    with Cons exec_inv [of s oper] exec_absent [of s oper d] show ?thesis by simp
  next
    case (Some r)
    with row_claims [OF Cons.prems Some] claims_left_bound [OF look_ok [OF Cons.prems(1) Some]]
    show ?thesis by linarith
  qed
qed simp

lemma settled_stays: "queue_inv s \<Longrightarrow> list_all allowed opers \<Longrightarrow> look s d = Some r \<Longrightarrow> settled r \<Longrightarrow>
    look (run_ops exec opers s) d = Some r \<and> filter (hands_out d) (replies exec opers s) = []"
  using run_moves [of s opers d r] delivery_run_settled [of _ r] by fastforce

end

section \<open>The operations keep the outbox\<close>

lemma find_map_keyed:
  "(\<And>r. key (f r) = key r) \<Longrightarrow> find (\<lambda>r. key r = k) (map f rows) = map_option f (find (\<lambda>r. key r = k) rows)"
  by (induction rows) auto

lemma find_SomeD: "find P xs = Some x \<Longrightarrow> x \<in> set xs \<and> P x"
  by (auto simp: find_Some_iff)

lemma matches_with_outbox:
  "matches owner db s \<Longrightarrow> outbox_matches rows (ms_result_outbox s) \<Longrightarrow>
     matches owner (db\<lparr>db_result_outbox := rows\<rparr>) s"
  by (simp add: matches_def)

lemma matches_outbox: "matches owner db s \<Longrightarrow> outbox_matches (db_result_outbox db) (ms_result_outbox s)"
  by (simp add: matches_def)

lemma matches_step_rows:
  assumes m: "matches owner db s"
    and f: "\<And>r. f r = r \<or> (\<exists>c. delivery_step c r (f r))"
  shows "matches owner (db\<lparr>db_result_outbox := map f (db_result_outbox db)\<rparr>) s"
proof (rule matches_with_outbox [OF m outbox_matches_map [OF matches_outbox [OF m]]])
  show "delivery_ok (f r)" if "delivery_ok r" for r
    using f [of r] that by (auto dest: delivery_step_ok)
  show "ox_delivery_id (f r) = ox_delivery_id r" for r
    using f [of r] by (auto elim!: delivery_step.cases simp: delivery_fields)
  show "addressed_to (f r) ob" if "addressed_to r ob" for r ob
    using f [of r] that by (auto elim!: delivery_step.cases simp: delivery_fields addressed_to_def)
qed

definition expire_row :: "int \<Rightarrow> outbox_row \<Rightarrow> outbox_row" where
  "expire_row now_ms r =
     (if delivery_lease_expired now_ms r
      then attempt_failed False now_ms ''result delivery lease expired'' now_ms r else r)"

lemma expire_rows: "expire_delivery_leases now_ms rows = map (expire_row now_ms) rows"
  by (simp add: expire_delivery_leases_def expire_row_def [abs_def])

lemma expire_row_step: "expire_row now_ms r = r \<or> delivery_step False r (expire_row now_ms r)"
  by (auto simp: expire_row_def delivery_lease_expired_def intro: delivery_step.fail)

lemma expire_row_id [simp]: "ox_delivery_id (expire_row now_ms r) = ox_delivery_id r"
  by (simp add: expire_row_def attempt_failed_def)

definition claim_row :: "string \<Rightarrow> string \<Rightarrow> int \<Rightarrow> int \<Rightarrow> outbox_row \<Rightarrow> outbox_row" where
  "claim_row did worker_id e now_ms r =
     (if ox_delivery_id r = did \<and> ox_state r = ''pending'' then lease_delivery worker_id e now_ms r else r)"

lemma claim_row_step: "claim_row did w e now_ms r = r \<or> delivery_step True r (claim_row did w e now_ms r)"
  by (auto simp: claim_row_def intro: delivery_step.claim)

lemma claim_row_id [simp]: "ox_delivery_id (claim_row did w e now_ms r) = ox_delivery_id r"
  by (simp add: claim_row_def lease_delivery_def)

lemma pending_row_decodes:
  assumes "addressed_to r ob" and "ox_state r = ''pending''"
  obtains out where "row_to_outbox r = Inr out" and "ob_delivery_id out = ox_delivery_id r"
    and "ob_task_id out = ob_task_id ob" and "ob_target_peer_id out = ob_target_peer_id ob"
    and "ob_state out = DPending"
  using assms that
  by (auto simp: row_to_outbox_def addressed_to_def valid_outbox_def parse_delivery_state_def)

lemma pick_unique:
  "distinct (map ox_delivery_id rows) \<Longrightarrow> r \<in> set rows \<Longrightarrow> Q r \<Longrightarrow>
     length (filter (\<lambda>x. ox_delivery_id x = ox_delivery_id r \<and> Q x) rows) = 1"
proof (induction rows)
  case (Cons a rows)
  show ?case
  proof (cases "a = r")
    case True
    have "filter (\<lambda>x. ox_delivery_id x = ox_delivery_id r \<and> Q x) rows = []"
      using Cons.prems(1) True by (auto simp: filter_empty_conv) (metis imageI)
    with True Cons.prems(3) show ?thesis by simp
  next
    case False
    with Cons.prems have "ox_delivery_id a \<noteq> ox_delivery_id r" by auto
    with False Cons show ?thesis by simp
  qed
qed simp

lemma outbox_has_result:
  assumes m: "matches owner db s" and ob: "fmlookup (ms_result_outbox s) d = Some ob"
  obtains res where "fmlookup (ms_terminal_results s) (ob_task_id ob) = Some res"
  using matches_inv [OF m] ob unfolding mem_inv_def results_ok_def by blast

text \<open>What a claim does: it expires dead leases, then hands out the first due row, if any.\<close>

lemma claim_effect:
  assumes m: "matches owner db s"
  shows "(due_deliveries now_ms (map (expire_row now_ms) (db_result_outbox db)) = [] \<and>
      claim_next_result_delivery worker now_ms dur db =
        (Inr None, db\<lparr>db_result_outbox := map (expire_row now_ms) (db_result_outbox db)\<rparr>)) \<or>
    (\<exists>row rest out res e. due_deliveries now_ms (map (expire_row now_ms) (db_result_outbox db)) = row # rest \<and>
      row \<in> set (map (expire_row now_ms) (db_result_outbox db)) \<and> ox_state row = ''pending'' \<and>
      e = sat_add_i64 now_ms (max dur 1) \<and>
      ob_delivery_id out = ox_delivery_id row \<and> ob_task_id out = ox_task_id row \<and>
      ob_state out = DLeased \<and> ob_lease_owner out = Some worker \<and> ob_lease_expires_at_ms out = Some e \<and>
      mem_get_terminal_result (ox_task_id row) s = Inr res \<and>
      claim_next_result_delivery worker now_ms dur db =
        (Inr (Some (out, res)), db\<lparr>db_result_outbox :=
           map (claim_row (ox_delivery_id row) worker e now_ms)
             (map (expire_row now_ms) (db_result_outbox db))\<rparr>))"
proof (cases "due_deliveries now_ms (map (expire_row now_ms) (db_result_outbox db))")
  case Nil
  then show ?thesis
    by (simp add: claim_next_result_delivery_def expire_rows Let_def transaction_def commit_def)
next
  case (Cons row rest)
  let ?rows = "map (expire_row now_ms) (db_result_outbox db)"
  let ?e = "sat_add_i64 now_ms (max dur 1)"
  let ?db2 = "db\<lparr>db_result_outbox := map (claim_row (ox_delivery_id row) worker ?e now_ms) ?rows\<rparr>"
  have m1: "matches owner (db\<lparr>db_result_outbox := ?rows\<rparr>) s"
    using expire_row_step by (intro matches_step_rows [OF m]) blast
  have m2: "matches owner ?db2 s"
    using matches_step_rows [OF m1, of "claim_row (ox_delivery_id row) worker ?e now_ms"] claim_row_step
    by fastforce
  have "row \<in> set (due_deliveries now_ms ?rows)"
    using Cons by simp
  then have row: "row \<in> set ?rows" "ox_state row = ''pending''"
    by (auto simp: due_deliveries_def)
  have "outbox_matches ?rows (ms_result_outbox s)"
    using matches_outbox [OF m1] by simp
  from outbox_matches_row [OF this row(1)] obtain ob where
    ob: "fmlookup (ms_result_outbox s) (ox_delivery_id row) = Some ob" "addressed_to row ob" .
  from pending_row_decodes [OF ob(2) row(2)] obtain out where
    out: "row_to_outbox row = Inr out" "ob_delivery_id out = ox_delivery_id row" "ob_task_id out = ob_task_id ob" .
  from outbox_has_result [OF m ob(1)] obtain res where
    res: "fmlookup (ms_terminal_results s) (ob_task_id ob) = Some res" .
  have tid: "ox_task_id row = ob_task_id ob"
    using ob(2) by (simp add: addressed_to_def)
  have one: "length (filter (\<lambda>r. ox_delivery_id r = ox_delivery_id row \<and> ox_state r = ''pending'') ?rows) = 1"
    using matches_outbox [OF m1] row by (intro pick_unique) (simp_all add: outbox_matches_def)
  have claimed: "map (\<lambda>r. if ox_delivery_id r = ox_delivery_id row \<and> ox_state r = ''pending''
      then lease_delivery worker ?e now_ms r else r) ?rows =
      map (claim_row (ox_delivery_id row) worker ?e now_ms) ?rows"
    by (simp add: claim_row_def)
  have "claim_next_result_delivery worker now_ms dur db =
      (Inr (Some (out\<lparr>ob_state := DLeased, ob_lease_owner := Some worker, ob_lease_expires_at_ms := Some ?e,
         ob_updated_at_ms := now_ms\<rparr>, res)), ?db2)"
    using fetch_result [OF m2, of "ob_task_id ob"] res one
    by (simp add: claim_next_result_delivery_def expire_rows Let_def transaction_def commit_def Cons out
        claimed del: map_map)
  then show ?thesis
    using Cons row out res by (intro disjI2 exI conjI) (auto simp: mem_get_terminal_result_def tid)
qed

section \<open>The store as a delivery queue\<close>

text \<open>The operations of the node's store: task operations interleaved with the delivery of results.\<close>

datatype node_op =
    TaskOp store_op
  | ClaimDelivery string int int
  | AckDelivery string string int int
  | FailDelivery string "string \<times> int" int int string bool
  | RelayReceipt task_id peer_id peer_id string int

datatype node_reply =
    TaskReply "store_error + store_reply"
  | ClaimReply "store_error + (result_outbox_record \<times> terminal_result) option"
  | SettleReply "store_error + unit"
  | ReceiptReply "store_error + transport_context"

fun node_exec :: "node_op \<Rightarrow> sql_db \<Rightarrow> node_reply \<times> sql_db" where
  "node_exec (TaskOp oper) db = apfst TaskReply (sql_step oper db)"
| "node_exec (ClaimDelivery w now_ms dur) db = apfst ClaimReply (claim_next_result_delivery w now_ms dur db)"
| "node_exec (AckDelivery d w e now_ms) db = apfst SettleReply (ack_result_delivery d w e now_ms db)"
| "node_exec (FailDelivery d claim now_ms retry_at why dead) db =
     apfst SettleReply (fail_result_delivery d claim now_ms retry_at why dead db)"
| "node_exec (RelayReceipt tid source dest frame at) db =
     apfst ReceiptReply (record_relay_receipt tid source dest frame at db)"

fun node_admissible :: "(lease_id \<Rightarrow> task_id) \<Rightarrow> node_op \<Rightarrow> bool" where
  "node_admissible owner (TaskOp oper) = sql_admissible owner oper"
| "node_admissible owner (RelayReceipt tid source dest frame at) = valid_id source"
| "node_admissible owner _ = True"

fun hands_out :: "string \<Rightarrow> node_reply \<Rightarrow> bool" where
  "hands_out d (ClaimReply (Inr (Some (ob, _)))) = (ob_delivery_id ob = d)"
| "hands_out d _ = False"

definition delivery_of :: "sql_db \<Rightarrow> string \<Rightarrow> outbox_row option" where
  "delivery_of db d = find (\<lambda>r. ox_delivery_id r = d) (db_result_outbox db)"

lemma delivery_of_map:
  "(\<And>r. ox_delivery_id (f r) = ox_delivery_id r) \<Longrightarrow>
     delivery_of (db\<lparr>db_result_outbox := map f (db_result_outbox db)\<rparr>) d = map_option f (delivery_of db d)"
  by (simp add: delivery_of_def find_map_keyed)

lemma delivery_of_prefix:
  assumes "prefix (db_result_outbox db) (db_result_outbox db')" and "delivery_of db d = Some r"
  shows "delivery_of db' d = Some r"
  using assms by (auto simp: delivery_of_def prefix_def find_append)

definition settle_row :: "(outbox_row \<Rightarrow> bool) \<Rightarrow> (outbox_row \<Rightarrow> outbox_row) \<Rightarrow> outbox_row \<Rightarrow> outbox_row" where
  "settle_row guard f r = (if guard r then f r else r)"

lemma settle_delivery_snd:
  "snd (settle_delivery d guard f db) =
     db\<lparr>db_result_outbox := map (settle_row guard f) (db_result_outbox db)\<rparr>"
  by (simp add: settle_delivery_def settle_row_def [abs_def])

lemma settle_row_step:
  "settle_row (delivery_claimed d w e now_ms) (deliver_row t) r = r \<or>
     delivery_step False r (settle_row (delivery_claimed d w e now_ms) (deliver_row t) r)"
  "settle_row (delivery_claimed d w e now_ms) (attempt_failed dead at why t) r = r \<or>
     delivery_step False r (settle_row (delivery_claimed d w e now_ms) (attempt_failed dead at why t) r)"
  by (auto simp: settle_row_def delivery_claimed_def intro: delivery_step.intros)

lemma settle_row_id [simp]:
  "ox_delivery_id (settle_row guard (deliver_row t) r) = ox_delivery_id r"
  "ox_delivery_id (settle_row guard (attempt_failed dead at why t) r) = ox_delivery_id r"
  by (simp_all add: settle_row_def deliver_row_def attempt_failed_def)

lemma run_of_row:
  "u = r \<or> delivery_step False r u \<Longrightarrow> delivery_run 0 r u"
  using delivery_run_one [of False r u] stay [of r] by auto

lemma receipt_effect:
  assumes m: "matches owner db s" and v: "valid_id source"
  shows "sql_inv owner (snd (record_relay_receipt tid source dest frame at db))"
    and "db_result_outbox (snd (record_relay_receipt tid source dest frame at db)) = db_result_outbox db"
proof -
  let ?f = "\<lambda>c. c\<lparr>tc_authenticated_sender_peer_id := Some source, tc_relay_frame_id := Some (trim frame),
    tc_received_at_ms := at\<rparr>"
  let ?db = "db\<lparr>db_transport_context := map (\<lambda>c. if tc_task_id c = tid then ?f c else c) (db_transport_context db)\<rparr>"
  define P where "P = (\<lambda>db'. db' = db \<or> fmlookup (ms_transport_contexts s) tid \<noteq> None \<and> db' = ?db)"
  have "P (snd (record_relay_receipt tid source dest frame at db))"
    unfolding record_relay_receipt_def Let_def fetches [OF m]
    by (auto intro!: keeps_transaction [where P = P] keeps_bind keeps_cases) (auto simp: P_def)
  moreover have "sql_inv owner ?db" if "fmlookup (ms_transport_contexts s) tid = Some c" for c
  proof -
    have rep: "contexts_match (db_transport_context db) (ms_transport_contexts s)"
      using m by (simp add: matches_def)
    from represents_ok [OF rep that] have c: "valid_context c" "tc_task_id c = tid" by auto
    have "contexts_match (db_transport_context ?db) (fmupd tid (?f c) (ms_transport_contexts s))"
      using represents_update [OF rep that, of ?f "?f c"] c v by (simp add: valid_context_def valid_opt_def)
    moreover have "mem_good s (put_context tid (?f c) s)"
      using matches_inv [OF m] that c
      by (auto simp: mem_good_def mem_inv_def put_context_def transport_ok_def mem_observe_def mem_history_def)
    ultimately have "matches owner ?db (put_context tid (?f c) s)"
      using m matches_good_sourced [OF m] mem_good_inv
      by (auto simp: matches_def put_context_def events_match_def mem_history_def)
    then show ?thesis by (auto simp: sql_inv_def)
  qed
  ultimately show "sql_inv owner (snd (record_relay_receipt tid source dest frame at db))"
    and "db_result_outbox (snd (record_relay_receipt tid source dest frame at db)) = db_result_outbox db"
    using m by (auto simp: sql_inv_def P_def)
qed

lemma sql_invE: "sql_inv owner db \<Longrightarrow> (\<And>s. matches owner db s \<Longrightarrow> P) \<Longrightarrow> P"
  by (auto simp: sql_inv_def)

lemma settle_ops_snd:
  "snd (ack_result_delivery d w e now_ms db) = db\<lparr>db_result_outbox :=
     map (settle_row (delivery_claimed d w e now_ms) (deliver_row now_ms)) (db_result_outbox db)\<rparr>"
  "snd (fail_result_delivery d claim now_ms at why dead db) = db\<lparr>db_result_outbox :=
     map (settle_row (delivery_claimed d (fst claim) (snd claim) now_ms)
       (attempt_failed dead (min at (sat_add_i64 now_ms max_result_delivery_retry_delay_ms)) why now_ms))
       (db_result_outbox db)\<rparr>"
  by (simp_all add: ack_result_delivery_def fail_result_delivery_def settle_delivery_snd)

lemma claim_keeps: "matches owner db s \<Longrightarrow> matches owner (snd (claim_next_result_delivery w now_ms dur db)) s"
proof -
  assume m: "matches owner db s"
  have m1: "matches owner (db\<lparr>db_result_outbox := map (expire_row now_ms) (db_result_outbox db)\<rparr>) s"
    using expire_row_step by (intro matches_step_rows [OF m]) blast
  have "matches owner (db\<lparr>db_result_outbox := map (claim_row d w e now_ms)
      (map (expire_row now_ms) (db_result_outbox db))\<rparr>) s" for d e
    using matches_step_rows [OF m1, of "claim_row d w e now_ms"] claim_row_step by fastforce
  with claim_effect [OF m, of now_ms w dur] m1 show ?thesis by auto
qed

lemma node_exec_inv:
  assumes inv: "sql_inv owner db" and ok: "node_admissible owner oper"
  shows "sql_inv owner (snd (node_exec oper db))"
proof -
  from inv obtain s where m: "matches owner db s" by (rule sql_invE)
  have settle: "matches owner (db\<lparr>db_result_outbox := map (settle_row guard f) (db_result_outbox db)\<rparr>) s"
    if "\<And>r. settle_row guard f r = r \<or> delivery_step False r (settle_row guard f r)" for guard f
    using that by (intro matches_step_rows [OF m]) blast
  show ?thesis
  proof (cases oper)
    case (TaskOp op')
    with inv ok show ?thesis by (simp add: sql.step_inv)
  next
    case ClaimDelivery
    with claim_keeps [OF m] show ?thesis by (auto simp: sql_inv_def)
  next
    case AckDelivery
    with settle [OF settle_row_step(1)] show ?thesis by (simp add: sql_inv_def settle_ops_snd) blast
  next
    case FailDelivery
    with settle [OF settle_row_step(2)] show ?thesis by (simp add: sql_inv_def settle_ops_snd) blast
  next
    case RelayReceipt
    with receipt_effect(1) [OF m] ok show ?thesis by simp
  qed
qed

lemma claim_moves:
  assumes m: "matches owner db s" and r: "delivery_of db d = Some r"
  shows "\<exists>r'. delivery_of (snd (claim_next_result_delivery w now_ms dur db)) d = Some r' \<and>
    delivery_run (if hands_out d (ClaimReply (fst (claim_next_result_delivery w now_ms dur db))) then 1 else 0) r r'"
  using claim_effect [OF m, of now_ms w dur]
proof (elim disjE exE conjE)
  assume "claim_next_result_delivery w now_ms dur db =
    (Inr None, db\<lparr>db_result_outbox := map (expire_row now_ms) (db_result_outbox db)\<rparr>)"
  then show ?thesis
    using r run_of_row [OF expire_row_step] by (simp add: delivery_of_map)
next
  fix row rest out res e
  assume row: "row \<in> set (map (expire_row now_ms) (db_result_outbox db))" "ox_state row = ''pending''"
    and out: "ob_delivery_id out = ox_delivery_id row"
    and claim: "claim_next_result_delivery w now_ms dur db = (Inr (Some (out, res)), db\<lparr>db_result_outbox :=
       map (claim_row (ox_delivery_id row) w e now_ms) (map (expire_row now_ms) (db_result_outbox db))\<rparr>)"
  have look: "delivery_of (snd (claim_next_result_delivery w now_ms dur db)) d =
      Some (claim_row (ox_delivery_id row) w e now_ms (expire_row now_ms r))"
    using delivery_of_map [of "\<lambda>r. claim_row (ox_delivery_id row) w e now_ms (expire_row now_ms r)" db d] r
    by (simp add: claim comp_def)
  have expired: "delivery_run 0 r (expire_row now_ms r)"
    using expire_row_step by (rule run_of_row)
  show ?thesis
  proof (cases "ox_delivery_id row = d")
    case True
    have "find (\<lambda>r. ox_delivery_id r = d) (map (expire_row now_ms) (db_result_outbox db)) = Some row"
      using find_map_distinct [of ox_delivery_id _ row] row(1) matches_outbox [OF m] True
      by (auto simp: outbox_matches_def comp_def)
    then have "expire_row now_ms r = row"
      using r by (simp add: find_map_keyed delivery_of_def)
    then have "delivery_step True (expire_row now_ms r) (lease_delivery w e now_ms (expire_row now_ms r))"
      using row(2) by (auto intro: delivery_step.claim)
    from delivery_run_trans [OF expired delivery_run_one [OF this]] show ?thesis
      using look claim out True row(2) \<open>expire_row now_ms r = row\<close> by (simp add: claim_row_def)
  next
    case False
    moreover have "ox_delivery_id r = d"
      using r by (auto simp: delivery_of_def find_Some_iff)
    ultimately show ?thesis
      using look claim out expired by (simp add: claim_row_def)
  qed
qed

lemma claim_hands_out_known:
  assumes m: "matches owner db s" and "hands_out d (ClaimReply (fst (claim_next_result_delivery w now_ms dur db)))"
  shows "delivery_of db d \<noteq> None"
  using claim_effect [OF m, of now_ms w dur] assms(2)
proof (elim disjE exE conjE)
  fix row out res db'
  assume row: "row \<in> set (map (expire_row now_ms) (db_result_outbox db))"
    and out: "ob_delivery_id out = ox_delivery_id row"
    and claim: "claim_next_result_delivery w now_ms dur db = (Inr (Some (out, res)), db')"
  with assms(2) obtain x where "x \<in> set (db_result_outbox db)" "ox_delivery_id x = d" by auto
  then show ?thesis by (auto simp: delivery_of_def find_None_iff)
qed auto

interpretation outbox: delivery_queue node_exec delivery_of hands_out "sql_inv owner" "node_admissible owner"
  for owner
proof
  fix db oper d r
  assume inv: "sql_inv owner db"
  show "sql_inv owner (snd (node_exec oper db))" if "node_admissible owner oper"
    using inv that by (rule node_exec_inv)
  from inv obtain s where m: "matches owner db s" by (rule sql_invE)
  show "delivery_ok r" if "delivery_of db d = Some r"
    using that matches_outbox [OF m] by (auto simp: delivery_of_def elim!: outbox_matches_row dest!: find_SomeD)
  show "\<not> hands_out d (fst (node_exec oper db))" if "delivery_of db d = None"
    using that claim_hands_out_known [OF m, of d] by (cases oper) auto
  show "\<exists>r'. delivery_of (snd (node_exec oper db)) d = Some r' \<and>
      delivery_run (if hands_out d (fst (node_exec oper db)) then 1 else 0) r r'"
    if ok: "node_admissible owner oper" and r: "delivery_of db d = Some r"
  proof (cases oper)
    case (TaskOp op')
    have "prefix (db_result_outbox db) (db_result_outbox (snd (sql_step op' db)))"
      using frame_step [of db op'] by (simp add: db_frame_def frame_of_def)
    from delivery_of_prefix [OF this r] TaskOp show ?thesis
      by (auto intro: stay)
  next
    case ClaimDelivery
    with claim_moves [OF m r] show ?thesis by simp
  next
    case AckDelivery
    with r show ?thesis
      by (simp add: settle_ops_snd delivery_of_map run_of_row [OF settle_row_step(1)])
  next
    case FailDelivery
    with r show ?thesis
      by (simp add: settle_ops_snd delivery_of_map run_of_row [OF settle_row_step(2)])
  next
    case RelayReceipt
    with ok r receipt_effect(2) [OF m] show ?thesis
      by (auto simp: delivery_of_def intro: stay)
  qed
qed

end
