(* ===== verification/Mem_Effects.thy ===== *)
theory Mem_Effects
  imports Mem_Invariant
begin

text \<open>
  Exact effects of the in-memory operations on the task they name and on the others: who may finish
  a task and what a refusal says, what a failure report turns the task into, and which tasks the two
  sweeps touch.
\<close>

section \<open>Leases fence the finishing operations\<close>

definition mem_owns :: "mem_state \<Rightarrow> task_id \<Rightarrow> lease_id \<Rightarrow> agent_id \<Rightarrow> bool" where
  "mem_owns s tid lid wid =
     (case fmlookup (ms_leases s) tid of
        Some l \<Rightarrow> lr_lease_id l = lid \<and> lr_worker_id l = Some wid
      | None \<Rightarrow> False)"

definition mem_refusal :: "mem_state \<Rightarrow> task_id \<Rightarrow> lease_id \<Rightarrow> agent_id \<Rightarrow> store_error" where
  "mem_refusal s tid lid wid =
     (if fmlookup (ms_tasks s) tid = None then TaskNotFound tid
      else case fmlookup (ms_leases s) tid of
        None \<Rightarrow> LeaseNotFound tid
      | Some l \<Rightarrow> if lr_lease_id l \<noteq> lid then LeaseMismatch tid lid else LeaseOwnerMismatch tid wid)"

text \<open>What a failure report of the lease holder makes of a running task.\<close>

definition failure_outcome :: "retry_policy \<Rightarrow> string \<Rightarrow> task_record \<Rightarrow> task_record" where
  "failure_outcome policy reason t =
     (if max_retries policy = 0 then t\<lparr>tr_status := Failed\<rparr>
      else if should_retry_after_failure policy (tr_retry_count t)
      then t\<lparr>tr_retry_count := sat_add (tr_retry_count t) 1, tr_status := Pending\<rparr>
      else t\<lparr>tr_retry_count := sat_add (tr_retry_count t) 1, tr_dead_lettered := True,
             tr_dead_letter_reason := Some reason, tr_status := Failed\<rparr>)"

lemma mem_owns_running:
  assumes "mem_inv s" and "mem_owns s tid lid wid"
  obtains t l where "fmlookup (ms_tasks s) tid = Some t" and "tr_status t = Running"
    and "\<not> tr_dead_lettered t" and "tr_dead_letter_reason t = None"
    and "fmlookup (ms_leases s) tid = Some l" and "lr_lease_id l = lid" and "lr_worker_id l = Some wid"
proof -
  from assms(2) obtain l where l: "fmlookup (ms_leases s) tid = Some l" "lr_lease_id l = lid" "lr_worker_id l = Some wid"
    by (auto simp: mem_owns_def split: option.splits)
  with mem_inv_lease [OF assms(1)] obtain t where t: "fmlookup (ms_tasks s) tid = Some t" "tr_status t = Running"
    by blast
  with mem_inv_task [OF assms(1) t(1)] have "\<not> tr_dead_lettered t" "tr_dead_letter_reason t = None"
    by (auto simp: wf_record_def)
  with that l t show thesis by blast
qed

lemma mem_fenced:
  assumes inv: "mem_inv s" and no: "\<not> mem_owns s tid lid wid"
  shows "mem_complete_task tid lid wid s = (Inl (mem_refusal s tid lid wid), s)"
    and "mem_fail_task tid lid wid reason policy s = (Inl (mem_refusal s tid lid wid), s)"
    and "mem_retry_task tid lid wid s = (Inl (mem_refusal s tid lid wid), s)"
    and "mem_dead_letter_task tid lid wid reason s = (Inl (mem_refusal s tid lid wid), s)"
proof -
  have worker: "lr_worker_id l \<noteq> None" if "fmlookup (ms_leases s) tid = Some l" for l
    using mem_inv_lease [OF inv that] by simp
  note defs = mem_refusal_def mem_owns_def ensure_matching_lease_id_def ensure_matching_worker_id_def ensure_def ok_or_def
  show "mem_complete_task tid lid wid s = (Inl (mem_refusal s tid lid wid), s)"
    using no worker
    by (auto simp: mem_complete_task_def mem_finish_task_def finish_task_in_state_def defs split: option.splits)
  show "mem_fail_task tid lid wid reason policy s = (Inl (mem_refusal s tid lid wid), s)"
    "mem_retry_task tid lid wid s = (Inl (mem_refusal s tid lid wid), s)"
    "mem_dead_letter_task tid lid wid reason s = (Inl (mem_refusal s tid lid wid), s)"
    using no worker
    by (auto simp: mem_fail_task_def mem_retry_task_def mem_dead_letter_task_def defs split: option.splits)
qed

text \<open>The common effect of an operation that ends the lease of the task.\<close>

definition released :: "task_id \<Rightarrow> task_record \<Rightarrow> task_record mem_result \<Rightarrow> bool" where
  "released tid u r \<longleftrightarrow>
     fst r = Inr u \<and> fmlookup (ms_tasks (snd r)) tid = Some u \<and> fmlookup (ms_leases (snd r)) tid = None"

lemma mem_owned:
  assumes inv: "mem_inv s" and own: "mem_owns s tid lid wid" and t: "fmlookup (ms_tasks s) tid = Some t"
  shows "released tid (t\<lparr>tr_status := Completed\<rparr>) (mem_complete_task tid lid wid s)"
    and "released tid (failure_outcome policy reason t) (mem_fail_task tid lid wid reason policy s)"
    and "released tid (t\<lparr>tr_retry_count := sat_add (tr_retry_count t) 1, tr_status := Pending\<rparr>)
      (mem_retry_task tid lid wid s)"
    and "released tid (t\<lparr>tr_retry_count := sat_add (tr_retry_count t) 1, tr_dead_lettered := True,
      tr_dead_letter_reason := Some reason, tr_status := Failed\<rparr>) (mem_dead_letter_task tid lid wid reason s)"
proof -
  from mem_owns_running [OF inv own] t obtain l where
    st: "tr_status t = Running" "\<not> tr_dead_lettered t" "tr_dead_letter_reason t = None"
    and l: "fmlookup (ms_leases s) tid = Some l" "lr_lease_id l = lid" "lr_worker_id l = Some wid"
    by (metis option.inject)
  have same: "t\<lparr>tr_status := x, tr_dead_lettered := False, tr_dead_letter_reason := None\<rparr> = t\<lparr>tr_status := x\<rparr>" for x
    using st by (cases t) simp
  note defs = released_def ensure_matching_lease_id_def ensure_matching_worker_id_def mem_updates require_status_def t l st same
  show "released tid (t\<lparr>tr_status := Completed\<rparr>) (mem_complete_task tid lid wid s)"
    by (simp add: mem_complete_task_def mem_finish_task_def finish_task_in_state_def defs)
  show "released tid (failure_outcome policy reason t) (mem_fail_task tid lid wid reason policy s)"
    by (simp add: mem_fail_task_def finish_task_in_state_def retry_task_in_state_def dead_letter_task_in_state_def
        failure_outcome_def defs)
  show "released tid (t\<lparr>tr_retry_count := sat_add (tr_retry_count t) 1, tr_status := Pending\<rparr>)
      (mem_retry_task tid lid wid s)"
    by (simp add: mem_retry_task_def retry_task_in_state_def defs)
  show "released tid (t\<lparr>tr_retry_count := sat_add (tr_retry_count t) 1, tr_dead_lettered := True,
      tr_dead_letter_reason := Some reason, tr_status := Failed\<rparr>) (mem_dead_letter_task tid lid wid reason s)"
    by (simp add: mem_dead_letter_task_def dead_letter_task_in_state_def defs)
qed

section \<open>Granting and cancelling\<close>

definition past_deadline :: "task_record \<Rightarrow> int \<Rightarrow> bool" where
  "past_deadline t now_ms = (case tr_deadline_ms t of None \<Rightarrow> False | Some d \<Rightarrow> d \<le> now_ms)"

lemma mem_lease_granted:
  assumes "lr_task_id lease = tid" "lr_worker_id lease \<noteq> None" "check_executor s tid peer = Inr ()"
    and "fmlookup (ms_tasks s) tid = Some t" "tr_status t = Pending" "fmlookup (ms_leases s) tid = None"
    and "\<not> past_deadline t (lr_leased_at_ms lease)"
  shows "fst (mem_lease_task_with_peer_guard tid lease peer s) = Inr (t\<lparr>tr_status := Running\<rparr>)"
    and "fmlookup (ms_tasks (snd (mem_lease_task_with_peer_guard tid lease peer s))) tid = Some (t\<lparr>tr_status := Running\<rparr>)"
    and "fmlookup (ms_leases (snd (mem_lease_task_with_peer_guard tid lease peer s))) tid = Some lease"
  using assms
  by (auto simp: mem_lease_task_with_peer_guard_def mem_lease_start_def guard_defs mem_updates past_deadline_def
      split: option.splits)

lemma mem_lease_needs:
  assumes "fst (mem_lease_task_with_peer_guard tid lease peer s) = Inr u"
  shows "\<exists>t. fmlookup (ms_tasks s) tid = Some t \<and> tr_status t = Pending \<and> u = t\<lparr>tr_status := Running\<rparr> \<and>
    \<not> past_deadline t (lr_leased_at_ms lease) \<and> fmlookup (ms_leases s) tid = None \<and>
    check_executor s tid peer = Inr ()"
proof -
  let ?r = "mem_lease_task_with_peer_guard tid lease peer s"
  from assms have "?r = (Inr u, snd ?r)" by (cases ?r) simp
  then show ?thesis
    unfolding mem_lease_task_with_peer_guard_def
    by (auto simp: attempt_eq_ok mem_lease_start_def validate_transition_Inr lifecycle_iff Let_def past_deadline_def
        map_err_eq_Inr split: if_splits option.splits)
qed

lemma mem_lease_late:
  assumes "lr_task_id lease = tid" "lr_worker_id lease \<noteq> None" "check_executor s tid peer = Inr ()"
    and "fmlookup (ms_tasks s) tid = Some t" "\<not> is_terminal (tr_status t)" "fmlookup (ms_leases s) tid = None"
    and "tr_deadline_ms t = Some d" "d \<le> lr_leased_at_ms lease"
  shows "fst (mem_lease_task_with_peer_guard tid lease peer s) = Inl (TaskDeadlineExpired tid d (lr_leased_at_ms lease))"
    and "fmlookup (ms_tasks (snd (mem_lease_task_with_peer_guard tid lease peer s))) tid = Some (t\<lparr>tr_status := Failed\<rparr>)"
  using assms by (simp_all add: mem_lease_task_with_peer_guard_def guard_defs mem_updates)

lemma mem_cancel_cases:
  assumes inv: "mem_inv s" and t: "fmlookup (ms_tasks s) tid = Some t"
  shows "is_terminal (tr_status t) \<Longrightarrow> mem_cancel_task tid now_ms s = (Inr t, s)"
    and "tr_status t = Pending \<Longrightarrow> released tid (t\<lparr>tr_status := Failed\<rparr>) (mem_cancel_task tid now_ms s)"
    and "tr_status t = Running \<Longrightarrow> fmlookup (ms_leases s) tid = Some l \<Longrightarrow> now_ms < lr_expires_at_ms l \<Longrightarrow>
      lr_expires_at_ms l < i64_max \<Longrightarrow> released tid (t\<lparr>tr_status := Failed\<rparr>) (mem_cancel_task tid now_ms s)"
    and "tr_status t = Running \<Longrightarrow> fmlookup (ms_leases s) tid = None \<Longrightarrow>
      mem_cancel_task tid now_ms s = (Inl (LeaseNotFound tid), s)"
proof -
  have cancel: "validate_cancel_transition st = Inr \<lparr>tt_from = st, tt_to = Failed, tt_event_type = TaskCanceled\<rparr>"
    if "st = Pending \<or> st = Running" for st
    using that by (auto simp: validate_cancel_transition_Inr)
  note defs = mem_cancel_task_def released_def guard_defs mem_updates cancel sat_add_i64_def i64_max_def i64_min_def
  show "is_terminal (tr_status t) \<Longrightarrow> mem_cancel_task tid now_ms s = (Inr t, s)"
    "tr_status t = Pending \<Longrightarrow> released tid (t\<lparr>tr_status := Failed\<rparr>) (mem_cancel_task tid now_ms s)"
    "tr_status t = Running \<Longrightarrow> fmlookup (ms_leases s) tid = Some l \<Longrightarrow> now_ms < lr_expires_at_ms l \<Longrightarrow>
      lr_expires_at_ms l < i64_max \<Longrightarrow> released tid (t\<lparr>tr_status := Failed\<rparr>) (mem_cancel_task tid now_ms s)"
    "tr_status t = Running \<Longrightarrow> fmlookup (ms_leases s) tid = None \<Longrightarrow>
      mem_cancel_task tid now_ms s = (Inl (LeaseNotFound tid), s)"
    using t by (simp_all add: defs less_max_iff_disj)
qed

section \<open>The sweeps\<close>

lemma mem_fail_expired_loop_effect:
  assumes "distinct (map snd expired)"
    and "\<And>p. p \<in> set expired \<Longrightarrow> \<exists>t. fmlookup (ms_tasks s) (snd p) = Some t \<and> \<not> is_terminal (tr_status t)"
  shows "\<exists>s'. mem_fail_expired_loop expired failed s =
      (Inr (failed @ map (\<lambda>p. (the (fmlookup (ms_tasks s) (snd p)))\<lparr>tr_status := Failed\<rparr>) expired), s') \<and>
    (\<forall>k. fmlookup (ms_tasks s') k = (if k \<in> snd ` set expired
       then map_option (\<lambda>t. t\<lparr>tr_status := Failed\<rparr>) (fmlookup (ms_tasks s) k) else fmlookup (ms_tasks s) k)) \<and>
    (\<forall>k. fmlookup (ms_leases s') k = (if k \<in> snd ` set expired then None else fmlookup (ms_leases s) k))"
  using assms
proof (induction expired arbitrary: failed s)
  case (Cons p expired)
  obtain d tid where p: "p = (d, tid)" by fastforce
  from Cons.prems(2) [of p] p obtain t where t: "fmlookup (ms_tasks s) tid = Some t" "\<not> is_terminal (tr_status t)"
    by auto
  let ?s = "put_task tid (t\<lparr>tr_status := Failed\<rparr>)
    (append_in_memory_event tid TaskTimedOut (Some (tr_status t)) Failed (remove_lease tid s))"
  have tasks: "ms_tasks ?s = fmupd tid (t\<lparr>tr_status := Failed\<rparr>) (ms_tasks s)" and leases: "ms_leases ?s = fmdrop tid (ms_leases s)"
    by (simp_all add: mem_updates)
  have new: "tid \<notin> snd ` set expired"
    using Cons.prems(1) p by (auto simp: image_iff)
  have others: "fmlookup (ms_tasks ?s) (snd q) = fmlookup (ms_tasks s) (snd q)" if "q \<in> set expired" for q
    using new that by (force simp: tasks)
  have dist: "distinct (map snd expired)" using Cons.prems(1) by simp
  have open_tasks: "\<exists>t. fmlookup (ms_tasks ?s) (snd q) = Some t \<and> \<not> is_terminal (tr_status t)" if "q \<in> set expired" for q
    using Cons.prems(2) [of q] others [OF that] that by simp
  from Cons.IH [OF dist open_tasks, of "failed @ [t\<lparr>tr_status := Failed\<rparr>]"] obtain s' where
    s': "mem_fail_expired_loop expired (failed @ [t\<lparr>tr_status := Failed\<rparr>]) ?s =
        (Inr ((failed @ [t\<lparr>tr_status := Failed\<rparr>]) @
          map (\<lambda>p. (the (fmlookup (ms_tasks ?s) (snd p)))\<lparr>tr_status := Failed\<rparr>) expired), s')"
    and rest: "\<And>k. fmlookup (ms_tasks s') k = (if k \<in> snd ` set expired
       then map_option (\<lambda>t. t\<lparr>tr_status := Failed\<rparr>) (fmlookup (ms_tasks ?s) k) else fmlookup (ms_tasks ?s) k)"
      "\<And>k. fmlookup (ms_leases s') k = (if k \<in> snd ` set expired then None else fmlookup (ms_leases ?s) k)"
    by blast
  have step: "mem_fail_expired_loop (p # expired) failed s =
      mem_fail_expired_loop expired (failed @ [t\<lparr>tr_status := Failed\<rparr>]) ?s"
    using t by (simp add: p Let_def)
  have listed: "map (\<lambda>p. (the (fmlookup (ms_tasks ?s) (snd p)))\<lparr>tr_status := Failed\<rparr>) expired =
      map (\<lambda>p. (the (fmlookup (ms_tasks s) (snd p)))\<lparr>tr_status := Failed\<rparr>) expired"
    using others by simp
  show ?case
    unfolding step s' listed using rest t p new
    by (intro exI [of _ s']) (auto simp: tasks leases)
qed simp

definition open_tasks :: "mem_state \<Rightarrow> task_record list" where
  "open_tasks s = filter (\<lambda>t. tr_status t = Pending \<or> tr_status t = Running) (fmvalues (ms_tasks s))"

lemma expired_deadline_iff:
  "expired_deadline now_ms t = Some p \<longleftrightarrow> tr_deadline_ms t = Some (fst p) \<and> fst p \<le> now_ms \<and> tr_id t = snd p"
  by (cases p) (auto simp: expired_deadline_def split: option.splits)

lemma set_open_tasks: "t \<in> set (open_tasks s) \<longleftrightarrow> (\<exists>k. fmlookup (ms_tasks s) k = Some t) \<and> \<not> is_terminal (tr_status t)"
  by (cases "tr_status t") (auto simp: open_tasks_def set_fmvalues)

lemma mem_expired_found:
  assumes "mem_inv s"
  shows "p \<in> set (List.map_filter (expired_deadline now_ms) (open_tasks s)) \<longleftrightarrow>
    (\<exists>t. fmlookup (ms_tasks s) (snd p) = Some t \<and> \<not> is_terminal (tr_status t) \<and>
      tr_deadline_ms t = Some (fst p) \<and> fst p \<le> now_ms)"
proof -
  have "p \<in> set (List.map_filter (expired_deadline now_ms) (open_tasks s)) \<longleftrightarrow>
      (\<exists>t. t \<in> set (open_tasks s) \<and> expired_deadline now_ms t = Some p)"
    by (auto simp: set_map_filter)
  moreover have "(\<exists>k. fmlookup (ms_tasks s) k = Some t) \<and> tr_id t = snd p \<longleftrightarrow> fmlookup (ms_tasks s) (snd p) = Some t" for t
    using mem_inv_task [OF assms, of _ t] by auto
  ultimately show ?thesis
    unfolding set_open_tasks expired_deadline_iff by fast
qed

lemma mem_expired_distinct:
  assumes "mem_inv s"
  shows "distinct (map snd (List.map_filter (expired_deadline now_ms) (open_tasks s)))"
proof -
  have "map snd (List.map_filter (expired_deadline now_ms) (open_tasks s)) =
      map tr_id (filter (\<lambda>t. expired_deadline now_ms t \<noteq> None) (open_tasks s))"
    by (rule map_filter_key) (simp add: expired_deadline_iff)
  moreover have "distinct (map tr_id (fmvalues (ms_tasks s)))"
    using map_fmvalues [of "ms_tasks s" tr_id] mem_inv_task [OF assms] by simp
  ultimately show ?thesis
    by (simp add: open_tasks_def distinct_map_filter)
qed

lemma mem_expired_keys:
  assumes inv: "mem_inv s"
  shows "distinct (map snd (mem_expired_deadlines now_ms limit s))"
    and "p \<in> set (mem_expired_deadlines now_ms limit s) \<Longrightarrow>
      \<exists>t. fmlookup (ms_tasks s) (snd p) = Some t \<and> \<not> is_terminal (tr_status t)"
    and "tid \<in> snd ` set (mem_expired_deadlines now_ms None s) \<longleftrightarrow>
      (\<exists>t. fmlookup (ms_tasks s) tid = Some t \<and> \<not> is_terminal (tr_status t) \<and> past_deadline t now_ms)"
proof -
  let ?all = "List.map_filter (expired_deadline now_ms) (open_tasks s)"
  have all: "mem_expired_deadlines now_ms limit s = truncate_to limit (sort ?all)" for limit
    by (simp add: mem_expired_deadlines_def open_tasks_def)
  have "distinct (map snd (sort ?all))"
    using mem_expired_distinct [OF inv, of now_ms] by (simp add: distinct_map)
  then show "distinct (map snd (mem_expired_deadlines now_ms limit s))"
    by (cases limit) (simp_all add: all truncate_to_def distinct_take flip: take_map)
  show "\<exists>t. fmlookup (ms_tasks s) (snd p) = Some t \<and> \<not> is_terminal (tr_status t)"
    if "p \<in> set (mem_expired_deadlines now_ms limit s)"
  proof -
    have "p \<in> set ?all"
      using that by (cases limit) (auto simp: all truncate_to_def dest: in_set_takeD)
    with mem_expired_found [OF inv] show ?thesis by blast
  qed
  have "tid \<in> snd ` set (mem_expired_deadlines now_ms None s) \<longleftrightarrow> (\<exists>d. (d, tid) \<in> set ?all)"
    by (force simp: all truncate_to_def)
  then show "tid \<in> snd ` set (mem_expired_deadlines now_ms None s) \<longleftrightarrow>
      (\<exists>t. fmlookup (ms_tasks s) tid = Some t \<and> \<not> is_terminal (tr_status t) \<and> past_deadline t now_ms)"
    by (auto simp: mem_expired_found [OF inv] past_deadline_def split: option.splits)
qed

lemma mem_recover_fold_effect:
  "fmlookup (ms_tasks (fold mem_recover_one leases s)) k =
     (if k \<in> lr_task_id ` set leases
      then map_option (\<lambda>t. t\<lparr>tr_status := recovery_target (tr_status t)\<rparr>) (fmlookup (ms_tasks s) k)
      else fmlookup (ms_tasks s) k) \<and>
   fmlookup (ms_leases (fold mem_recover_one leases s)) k =
     (if k \<in> lr_task_id ` set leases then None else fmlookup (ms_leases s) k)"
proof (induction leases arbitrary: s)
  case (Cons l leases)
  have one: "fmlookup (ms_tasks (mem_recover_one l s)) k =
      (if k = lr_task_id l then map_option (\<lambda>t. t\<lparr>tr_status := recovery_target (tr_status t)\<rparr>) (fmlookup (ms_tasks s) k)
       else fmlookup (ms_tasks s) k)"
    "fmlookup (ms_leases (mem_recover_one l s)) k = (if k = lr_task_id l then None else fmlookup (ms_leases s) k)"
  proof -
    have "fst (recovery_action st) = recovery_target st" for st
      by (cases st) (simp_all add: recovery_target_def)
    then show "fmlookup (ms_tasks (mem_recover_one l s)) k =
      (if k = lr_task_id l then map_option (\<lambda>t. t\<lparr>tr_status := recovery_target (tr_status t)\<rparr>) (fmlookup (ms_tasks s) k)
       else fmlookup (ms_tasks s) k)"
      "fmlookup (ms_leases (mem_recover_one l s)) k = (if k = lr_task_id l then None else fmlookup (ms_leases s) k)"
      by (auto simp: mem_recover_one_def mem_updates split: option.split)
  qed
  have twice: "recovery_target (recovery_target st) = recovery_target st" for st
    by (cases st) (simp_all add: recovery_target_def)
  show ?case
    using Cons.IH [of "mem_recover_one l s"] one by (auto simp: option.map_comp comp_def twice)
qed simp

lemma mem_stale_tasks:
  assumes inv: "mem_inv s"
  shows "tid \<in> lr_task_id ` set (mem_stale_leases now_ms None s) \<longleftrightarrow>
    (\<exists>l. fmlookup (ms_leases s) tid = Some l \<and> lr_expires_at_ms l \<le> now_ms)"
proof -
  have "l \<in> set (mem_stale_leases now_ms None s) \<longleftrightarrow>
      (\<exists>k. fmlookup (ms_leases s) k = Some l) \<and> lr_expires_at_ms l \<le> now_ms" for l
    by (auto simp: mem_stale_leases_def truncate_to_def set_fmvalues)
  moreover have "(\<exists>k. fmlookup (ms_leases s) k = Some l) \<and> tid = lr_task_id l \<longleftrightarrow> fmlookup (ms_leases s) tid = Some l" for l
    using mem_inv_lease [OF inv, of _ l] by auto
  ultimately show ?thesis
    unfolding image_iff Bex_def by fast
qed

lemma mem_no_corruption:
  assumes "\<And>tid. sourced tid (mem_observe s tid)"
  shows "collect_corrupt_in_memory_tasks s = []"
proof -
  have "replay_task_from_snapshot_and_events t evs = Inr t \<and> fmlookup (ms_events s) tid = Some evs"
    if "fmlookup (ms_tasks s) tid = Some t" "evs = mem_history s tid" for tid t evs
  proof -
    have "sourced tid (Some t, evs)"
      using assms [of tid] that by (simp add: mem_observe_def)
    moreover from this have "evs \<noteq> []" by (auto simp: sourced_def replays_to_def)
    ultimately show ?thesis
      using that(2) by (auto simp: sourced_replay mem_history_def split: option.splits)
  qed
  then show ?thesis
    by (fastforce simp: collect_corrupt_in_memory_tasks_def filter_empty_conv split: option.split)
qed

lemma mem_recover_effect:
  assumes inv: "mem_inv s" and src: "\<And>tid. sourced tid (mem_observe s tid)"
  shows "\<exists>rep s'. mem_recover_stale_leases now_ms None s = (Inr rep, s') \<and> rr_corrupted_tasks rep = [] \<and>
    (\<forall>tid. if \<exists>l. fmlookup (ms_leases s) tid = Some l \<and> lr_expires_at_ms l \<le> now_ms
      then fmlookup (ms_leases s') tid = None \<and>
        (\<exists>t. fmlookup (ms_tasks s) tid = Some t \<and> fmlookup (ms_tasks s') tid = Some (t\<lparr>tr_status := Pending\<rparr>))
      else fmlookup (ms_leases s') tid = fmlookup (ms_leases s) tid \<and>
        fmlookup (ms_tasks s') tid = fmlookup (ms_tasks s) tid)"
proof -
  let ?leases = "mem_stale_leases now_ms None s"
  obtain rec n s' where loop: "mem_recover_loop ?leases [] 0 s = ((rec, n), s')"
    by (metis surj_pair)
  then have s': "s' = fold mem_recover_one ?leases s"
    using mem_recover_loop_state [of ?leases "[]" 0 s] by simp
  have r: "mem_recover_stale_leases now_ms None s = (Inr \<lparr>rr_recovered_tasks = rec, rr_cleaned_terminal_leases = n,
      rr_corrupted_tasks = collect_corrupt_in_memory_tasks s'\<rparr>, s')"
    by (simp add: mem_recover_stale_leases_def loop)
  have "sourced tid (mem_observe s' tid)" for tid
    using mem_good_recover [OF inv, of now_ms None] src evolves_sourced by (simp add: r mem_good_def) blast
  then have clean: "collect_corrupt_in_memory_tasks s' = []"
    by (rule mem_no_corruption)
  have "fmlookup (ms_tasks s') tid = Some (t\<lparr>tr_status := Pending\<rparr>) \<and> fmlookup (ms_leases s') tid = None"
    if "fmlookup (ms_leases s) tid = Some l" "lr_expires_at_ms l \<le> now_ms" "fmlookup (ms_tasks s) tid = Some t" for tid l t
    using mem_recover_fold_effect [of ?leases s tid] mem_stale_tasks [OF inv, of tid now_ms] mem_inv_lease [OF inv that(1)] that
    by (auto simp: s' recovery_target_def)
  moreover have "fmlookup (ms_tasks s) tid \<noteq> None" if "fmlookup (ms_leases s) tid = Some l" for tid l
    using mem_inv_lease [OF inv that] by auto
  moreover have "fmlookup (ms_leases s') tid = fmlookup (ms_leases s) tid \<and>
      fmlookup (ms_tasks s') tid = fmlookup (ms_tasks s) tid"
    if "\<nexists>l. fmlookup (ms_leases s) tid = Some l \<and> lr_expires_at_ms l \<le> now_ms" for tid
    using mem_recover_fold_effect [of ?leases s tid] mem_stale_tasks [OF inv, of tid now_ms] that by (simp add: s')
  ultimately show ?thesis
    unfolding r clean by (intro exI conjI) (auto, blast+)
qed

end
