(* ===== verification/Sql_Effects.thy ===== *)
theory Sql_Effects
  imports Sql_Queries Result_Outbox Mem_Effects
begin

text \<open>
  What the operations of the SQLite store do, seen through its own queries: every sequence of node
  operations is event-sourced, an error rolls the transaction back, and each lease operation has an
  exact description of when it succeeds and what it leaves behind. The descriptions are proved on
  the in-memory store, where they are short, and carried over by the simulation.
\<close>

section \<open>Sequences of node operations\<close>

lemma sql_observe_cong:
  "db_tasks db' = db_tasks db \<Longrightarrow> db_events db' = db_events db \<Longrightarrow> sql_observe db' tid = sql_observe db tid"
  by (simp add: sql_observe_def fetch_task_optional_with_executor_def select_events_def)

lemma receipt_observe:
  "sql_observe (snd (record_relay_receipt tid' source dest frame at db)) tid = sql_observe db tid"
proof -
  let ?P = "\<lambda>db'. db_tasks db' = db_tasks db \<and> db_events db' = db_events db"
  have "?P (snd (record_relay_receipt tid' source dest frame at db))"
    unfolding record_relay_receipt_def Let_def
    by (simp, intro conjI impI keeps_transaction [where P = ?P] keeps_bind keeps_cases) auto
  then show ?thesis by (intro sql_observe_cong) simp_all
qed

lemma settle_observe:
  "sql_observe (snd (ack_result_delivery d w e now_ms db)) tid = sql_observe db tid"
  "sql_observe (snd (fail_result_delivery d claim now_ms at why dead db)) tid = sql_observe db tid"
  by (rule sql_observe_cong; simp add: settle_ops_snd)+

lemma claim_observe:
  assumes "sql_inv owner db"
  shows "sql_observe (snd (claim_next_result_delivery w now_ms dur db)) tid = sql_observe db tid"
proof -
  from assms obtain s where m: "matches owner db s" by (rule sql_invE)
  show ?thesis
    using sql_observe_matches [OF claim_keeps [OF m]] sql_observe_matches [OF m] by simp
qed

interpretation node: event_sourced_store node_exec "node_admissible owner" sql_observe "sql_inv owner" sql_init
  for owner
proof
  show "sql_inv owner sql_init" by (rule sql.start_inv)
  show "sql_observe sql_init tid = (None, [])" for tid by (rule sql.start_empty)
  show "sql_inv owner (snd (node_exec oper db))" if "sql_inv owner db" "node_admissible owner oper" for db oper
    using that by (rule node_exec_inv)
  show "evolves tid (sql_observe db tid) (sql_observe (snd (node_exec oper db)) tid)"
    if "sql_inv owner db" "node_admissible owner oper" for db oper tid
  proof (cases oper)
    case (TaskOp x)
    with that sql.step_evolves [of owner db x tid] show ?thesis by simp
  qed (use that(1) in \<open>simp_all add: claim_observe receipt_observe settle_observe\<close>)
qed

text \<open>The queries a client reads the observation with.\<close>

lemma observe_get:
  assumes "sql_inv owner db"
  shows "sql_get_task tid db = Inr t \<longleftrightarrow> fst (sql_observe db tid) = Some t"
proof -
  from assms obtain s where m: "matches owner db s" by (rule sql_invE)
  show ?thesis
    by (simp add: query_rows [OF m] mem_get_task_def sql_observe_matches [OF m] mem_observe_def)
qed

lemma observe_events:
  assumes "sql_inv owner db"
  shows "sql_events_for_task tid db = Inr h \<longleftrightarrow> fst (sql_observe db tid) \<noteq> None \<and> snd (sql_observe db tid) = h"
proof -
  from assms obtain s where m: "matches owner db s" by (rule sql_invE)
  show ?thesis
    using mem_inv_events [OF matches_inv [OF m], of tid]
    by (auto simp: query_events [OF m] mem_events_for_task_def sql_observe_matches [OF m] mem_observe_def
        mem_history_def split: option.splits)
qed

section \<open>Errors roll back\<close>

text \<open>
  An error leaves the database as it was, with two exceptions in the code: a lease attempt past the
  deadline commits the failure of the task before it reports it, and the operations that read the
  task back after the commit would report a row that does not decode.
\<close>

definition rolled_back :: "sql_db \<Rightarrow> (store_error + 'a) \<times> sql_db \<Rightarrow> bool" where
  "rolled_back db r \<longleftrightarrow>
     (\<forall>e. fst r = Inl e \<longrightarrow> snd r = db \<or> (\<exists>tid d n. e = TaskDeadlineExpired tid d n) \<or>
        (\<exists>tid t. fetch_task_with_executor tid db = Inr t \<and> sql_get_task tid (snd r) = Inl e))"

definition commits :: "sql_db \<Rightarrow> 'a tx_body \<Rightarrow> bool" where
  "commits db body = (case body of Inl _ \<Rightarrow> True | Inr r \<Rightarrow> rolled_back db r)"

lemma commits_simps [simp]: "commits db (Inl e)" "commits db (commit a db')" "commits db (Inr r) = rolled_back db r"
  by (simp_all add: commits_def commit_def rolled_back_def)

lemma rolled_back_simps [simp]:
  "rolled_back db (r, db)" "rolled_back db (Inr a, db')" "rolled_back db (Inl (TaskDeadlineExpired tid d n), db')"
  by (auto simp: rolled_back_def)

lemma rolled_back_read:
  "fetch_task_with_executor tid db = Inr t \<Longrightarrow> rolled_back db (sql_get_task tid db', db')"
  by (auto simp: rolled_back_def)

lemma commits_bind: "(\<And>a. g = Inr a \<Longrightarrow> commits db (k a)) \<Longrightarrow> commits db (bindR g k)"
  by (cases g) simp_all

lemma commits_cases:
  "(x = None \<Longrightarrow> commits db a) \<Longrightarrow> (\<And>y. x = Some y \<Longrightarrow> commits db (b y)) \<Longrightarrow>
     commits db (case x of None \<Rightarrow> a | Some y \<Rightarrow> b y)"
  "commits db a' \<Longrightarrow> commits db b' \<Longrightarrow> commits db (if c then a' else b')"
  "(\<And>u v. p = (u, v) \<Longrightarrow> commits db (f u v)) \<Longrightarrow> commits db (case p of (u, v) \<Rightarrow> f u v)"
  by (simp_all split: option.split prod.split)

lemma rolled_back_transaction: "commits db body \<Longrightarrow> rolled_back db (transaction db body)"
  by (auto simp: commits_def transaction_def split: sum.splits)

lemma rolled_back_attempt: "(\<And>a. g = Inr a \<Longrightarrow> rolled_back db (k a)) \<Longrightarrow> rolled_back db (attempt g db k)"
  by (cases g) simp_all

lemma rolled_back_reply: "rolled_back db r \<Longrightarrow> rolled_back db (reply f r)"
  by (auto simp: rolled_back_def fst_reply split: sum.splits)

lemmas commits_intros = rolled_back_attempt rolled_back_transaction commits_bind commits_cases

lemma rolled_back_ops:
  "rolled_back db (sql_accept_task t db)"
  "rolled_back db (sql_accept_task_with_envelope t env db)"
  "rolled_back db (sql_accept_task_with_envelope_and_context t env ctx db)"
  "rolled_back db (sql_put_transport_context ctx db)"
  "rolled_back db (sql_lease_task_with_peer_guard tid lease peer db)"
  "rolled_back db (sql_renew_lease tid lid wid now_ms expires db)"
  "rolled_back db (sql_complete_task tid lid wid db)"
  "rolled_back db (sql_fail_task tid lid wid reason policy db)"
  "rolled_back db (sql_retry_task tid lid wid db)"
  "rolled_back db (sql_dead_letter_task tid lid wid reason db)"
  "rolled_back db (sql_cancel_task tid now_ms db)"
  "rolled_back db (sql_transition_task tid to db)"
  "rolled_back db (sql_accept_legacy_event tid ty db)"
  "rolled_back db (sql_fail_expired_deadlines now_ms limit db)"
  "rolled_back db (sql_cancel_task_with_result tid mlid mwid now_ms r db)"
  "rolled_back db (sql_complete_task_with_result tid lid wid r db)"
  "rolled_back db (sql_fail_task_with_result tid lid wid reason policy r db)"
  unfolding sql_accept_task_def sql_accept_task_with_envelope_def sql_accept_task_with_envelope_and_context_def
    sql_put_transport_context_def sql_lease_task_with_peer_guard_def sql_lease_start_def sql_renew_lease_def
    sql_complete_task_def sql_finish_task_def sql_fail_task_def sql_retry_task_def sql_dead_letter_task_def
    sql_cancel_task_def sql_transition_task_def sql_accept_legacy_event_def sql_fail_expired_deadlines_def
    sql_cancel_task_with_result_def sql_complete_task_with_result_def
    sql_fail_task_with_result_def Let_def
  by (intro commits_intros; simp add: rolled_back_read)+

lemma rolled_back_recover: "rolled_back db (sql_recover_stale_leases now_ms limit db)"
  unfolding sql_recover_stale_leases_def
  by (intro rolled_back_transaction commits_bind) (auto intro!: commits_bind split: prod.split)

lemma rolled_back_step: "rolled_back db (sql_step oper db)"
  by (cases oper) (simp_all add: rolled_back_ops rolled_back_recover rolled_back_reply)

lemma error_unchanged:
  assumes inv: "sql_inv owner db" and oper: "sql_admissible owner oper" and err: "fst (sql_step oper db) = Inl e"
  shows "snd (sql_step oper db) = db \<or> (\<exists>tid d n. e = TaskDeadlineExpired tid d n)"
proof (rule ccontr)
  assume "\<not> ?thesis"
  with rolled_back_step [of db oper] err obtain tid t where
    t: "fetch_task_with_executor tid db = Inr t" "sql_get_task tid (snd (sql_step oper db)) = Inl e"
    by (auto simp: rolled_back_def)
  from inv obtain s where m: "matches owner db s" by (rule sql_invE)
  with t(1) have "fst (sql_observe db tid) = Some t"
    by (simp add: sql_observe_matches [OF m] mem_observe_def fetches [OF m])
  with sql.step_evolves [OF inv oper, of tid] obtain u where "fst (sql_observe (snd (sql_step oper db)) tid) = Some u"
    by (cases "sql_observe db tid") (auto simp: evolves_def)
  with t(2) show False
    using observe_get [OF sql.step_inv [OF inv oper], of tid u] by simp
qed

section \<open>Finishing operations\<close>

definition leased_to :: "sql_db \<Rightarrow> task_id \<Rightarrow> lease_id \<Rightarrow> agent_id \<Rightarrow> bool" where
  "leased_to db tid lid wid =
     (case sql_active_lease tid db of
        Inr (Some l) \<Rightarrow> lr_lease_id l = lid \<and> lr_worker_id l = Some wid
      | _ \<Rightarrow> False)"

text \<open>The answer to a caller that does not hold the lease, in the order of the checks.\<close>

definition lease_refusal :: "sql_db \<Rightarrow> task_id \<Rightarrow> lease_id \<Rightarrow> agent_id \<Rightarrow> store_error" where
  "lease_refusal db tid lid wid =
     (case sql_get_task tid db of
        Inl _ \<Rightarrow> TaskNotFound tid
      | Inr _ \<Rightarrow>
          (case sql_active_lease tid db of
             Inr (Some l) \<Rightarrow> if lr_lease_id l \<noteq> lid then LeaseMismatch tid lid else LeaseOwnerMismatch tid wid
           | _ \<Rightarrow> LeaseNotFound tid))"

lemma leased_to_matches: "matches owner db s \<Longrightarrow> leased_to db tid lid wid = mem_owns s tid lid wid"
  by (simp add: leased_to_def mem_owns_def query_rows mem_active_lease_def)

lemma lease_refusal_matches: "matches owner db s \<Longrightarrow> lease_refusal db tid lid wid = mem_refusal s tid lid wid"
  by (simp add: lease_refusal_def mem_refusal_def query_rows mem_active_lease_def mem_get_task_def ok_or_def
      split: option.split)

text \<open>The effect of an operation that ends the lease of the task it names.\<close>

definition finishes :: "task_id \<Rightarrow> task_record \<Rightarrow> task_record sql_result \<Rightarrow> bool" where
  "finishes tid u r \<longleftrightarrow>
     fst r = Inr u \<and> sql_get_task tid (snd r) = Inr u \<and> sql_active_lease tid (snd r) = Inr None"

lemma finishes_sim: "sim owner r r' \<Longrightarrow> released tid u r' \<Longrightarrow> finishes tid u r"
  using query_rows [of owner "snd r" "snd r'" tid]
  by (simp add: sim_def released_def finishes_def mem_get_task_def mem_active_lease_def)

lemma lease_holder_finishes:
  assumes inv: "sql_inv owner db" and own: "leased_to db tid lid wid" and t: "sql_get_task tid db = Inr t"
  shows "tr_status t = Running"
    and "finishes tid (t\<lparr>tr_status := Completed\<rparr>) (sql_complete_task tid lid wid db)"
    and "finishes tid (failure_outcome policy reason t) (sql_fail_task tid lid wid reason policy db)"
    and "finishes tid (t\<lparr>tr_retry_count := sat_add (tr_retry_count t) 1, tr_status := Pending\<rparr>)
      (sql_retry_task tid lid wid db)"
    and "finishes tid (t\<lparr>tr_retry_count := sat_add (tr_retry_count t) 1, tr_dead_lettered := True,
      tr_dead_letter_reason := Some reason, tr_status := Failed\<rparr>) (sql_dead_letter_task tid lid wid reason db)"
proof -
  from inv obtain s where m: "matches owner db s" by (rule sql_invE)
  have own': "mem_owns s tid lid wid" and t': "fmlookup (ms_tasks s) tid = Some t"
    using own t by (simp_all add: leased_to_matches [OF m] query_rows [OF m] mem_get_task_def)
  note fin = mem_owned [OF matches_inv [OF m] own' t']
  show "tr_status t = Running"
    using mem_owns_running [OF matches_inv [OF m] own'] t' by (metis option.inject)
  show "finishes tid (t\<lparr>tr_status := Completed\<rparr>) (sql_complete_task tid lid wid db)"
    by (rule finishes_sim [OF sim_complete [OF m] fin(1)])
  show "finishes tid (failure_outcome policy reason t) (sql_fail_task tid lid wid reason policy db)"
    by (rule finishes_sim [OF sim_fail [OF m] fin(2)])
  show "finishes tid (t\<lparr>tr_retry_count := sat_add (tr_retry_count t) 1, tr_status := Pending\<rparr>)
      (sql_retry_task tid lid wid db)"
    by (rule finishes_sim [OF sim_retry [OF m] fin(3)])
  show "finishes tid (t\<lparr>tr_retry_count := sat_add (tr_retry_count t) 1, tr_dead_lettered := True,
      tr_dead_letter_reason := Some reason, tr_status := Failed\<rparr>) (sql_dead_letter_task tid lid wid reason db)"
    by (rule finishes_sim [OF sim_dead_letter [OF m] fin(4)])
qed

lemma others_refused:
  assumes inv: "sql_inv owner db" and no: "\<not> leased_to db tid lid wid"
  shows "sql_complete_task tid lid wid db = (Inl (lease_refusal db tid lid wid), db)"
    and "sql_fail_task tid lid wid reason policy db = (Inl (lease_refusal db tid lid wid), db)"
    and "sql_retry_task tid lid wid db = (Inl (lease_refusal db tid lid wid), db)"
    and "sql_dead_letter_task tid lid wid reason db = (Inl (lease_refusal db tid lid wid), db)"
proof -
  from inv obtain s where m: "matches owner db s" by (rule sql_invE)
  have no': "\<not> mem_owns s tid lid wid"
    using no by (simp add: leased_to_matches [OF m])
  note err = mem_fenced [OF matches_inv [OF m] no', folded lease_refusal_matches [OF m]]
  have kind: "lease_refusal db tid lid wid \<noteq> TaskDeadlineExpired a b c" for a b c
    by (auto simp: lease_refusal_def split: sum.split option.split)
  have close: "r = (Inl (lease_refusal db tid lid wid), db)"
    if "sim owner r (Inl (lease_refusal db tid lid wid), s)" "reply RTask r = sql_step oper db" "sql_admissible owner oper"
    for r oper
  proof -
    have "fst (sql_step oper db) = Inl (lease_refusal db tid lid wid)"
      using that(1) by (simp add: sim_def fst_reply flip: that(2))
    from error_unchanged [OF inv that(3) this] kind have "snd (sql_step oper db) = db" by blast
    with that show ?thesis by (cases r) (auto simp: sim_def simp flip: that(2))
  qed
  note closes = close [OF _ sql_step.simps(7) [symmetric]] close [OF _ sql_step.simps(8) [symmetric]]
    close [OF _ sql_step.simps(9) [symmetric]] close [OF _ sql_step.simps(10) [symmetric]]
  show "sql_complete_task tid lid wid db = (Inl (lease_refusal db tid lid wid), db)"
    using sim_complete [OF m, of tid lid wid] by (intro closes(1)) (simp_all add: err sql_admissible_def)
  show "sql_fail_task tid lid wid reason policy db = (Inl (lease_refusal db tid lid wid), db)"
    using sim_fail [OF m, of tid lid wid reason policy] by (intro closes(2)) (simp_all add: err sql_admissible_def)
  show "sql_retry_task tid lid wid db = (Inl (lease_refusal db tid lid wid), db)"
    using sim_retry [OF m, of tid lid wid] by (intro closes(3)) (simp_all add: err sql_admissible_def)
  show "sql_dead_letter_task tid lid wid reason db = (Inl (lease_refusal db tid lid wid), db)"
    using sim_dead_letter [OF m, of tid lid wid reason] by (intro closes(4)) (simp_all add: err sql_admissible_def)
qed

section \<open>Leasing and cancelling\<close>

text \<open>When a lease is granted: the executor named for the task, if any, must be the caller's peer.\<close>

definition executor_allows :: "sql_db \<Rightarrow> task_id \<Rightarrow> peer_id \<Rightarrow> bool" where
  "executor_allows db tid peer =
     (case sql_get_transport_context tid db of
        Inr c \<Rightarrow> (case tc_expected_executor_peer_id c of None \<Rightarrow> True | Some expected \<Rightarrow> expected = peer)
      | Inl _ \<Rightarrow> True)"

abbreviation peer_allowed :: "sql_db \<Rightarrow> task_id \<Rightarrow> peer_id option \<Rightarrow> bool" where
  "peer_allowed db tid peer \<equiv> (case peer of None \<Rightarrow> True | Some p \<Rightarrow> executor_allows db tid p)"

definition leasable :: "sql_db \<Rightarrow> task_id \<Rightarrow> int \<Rightarrow> peer_id option \<Rightarrow> bool" where
  "leasable db tid at_ms peer =
     ((case sql_get_task tid db of Inr t \<Rightarrow> tr_status t = Pending \<and> \<not> past_deadline t at_ms | Inl _ \<Rightarrow> False) \<and>
      sql_active_lease tid db = Inr None \<and> peer_allowed db tid peer)"

lemma leasable_matches:
  assumes "matches owner db s"
  shows "leasable db tid at_ms peer \<longleftrightarrow>
    (\<exists>t. fmlookup (ms_tasks s) tid = Some t \<and> tr_status t = Pending \<and> \<not> past_deadline t at_ms) \<and>
    fmlookup (ms_leases s) tid = None \<and> check_executor s tid peer = Inr ()"
  by (auto simp: leasable_def executor_allows_def query_rows [OF assms] mem_get_task_def mem_active_lease_def
      mem_get_transport_context_def check_executor_def ok_or_def split: option.splits)

lemma lease_granted:
  assumes inv: "sql_inv owner db" and adm: "sql_admissible owner (LeaseTask tid lease peer)"
  shows "(\<exists>u. fst (sql_lease_task_with_peer_guard tid lease peer db) = Inr u) \<longleftrightarrow>
      leasable db tid (lr_leased_at_ms lease) peer"
    and "fst (sql_lease_task_with_peer_guard tid lease peer db) = Inr u \<Longrightarrow>
      (\<exists>t. sql_get_task tid db = Inr t \<and> u = t\<lparr>tr_status := Running\<rparr>) \<and>
      sql_get_task tid (snd (sql_lease_task_with_peer_guard tid lease peer db)) = Inr u \<and>
      sql_active_lease tid (snd (sql_lease_task_with_peer_guard tid lease peer db)) = Inr (Some lease)"
proof -
  from inv obtain s where m: "matches owner db s" by (rule sql_invE)
  have l: "valid_lease lease" "lr_task_id lease = tid" "lr_worker_id lease \<noteq> None" "owner (lr_lease_id lease) = tid"
    using adm by (simp_all add: sql_admissible_def)
  have sim: "fst (sql_lease_task_with_peer_guard tid lease peer db) = fst (mem_lease_task_with_peer_guard tid lease peer s)"
    "matches owner (snd (sql_lease_task_with_peer_guard tid lease peer db)) (snd (mem_lease_task_with_peer_guard tid lease peer s))"
    using sim_lease_task [OF m l, of peer] by (simp_all add: sim_def)
  show "(\<exists>u. fst (sql_lease_task_with_peer_guard tid lease peer db) = Inr u) \<longleftrightarrow>
      leasable db tid (lr_leased_at_ms lease) peer"
    using mem_lease_granted(1) [OF l(2,3)] mem_lease_needs [of tid lease peer s]
    unfolding sim leasable_matches [OF m] by blast
  assume u: "fst (sql_lease_task_with_peer_guard tid lease peer db) = Inr u"
  with mem_lease_needs [of tid lease peer s u] obtain t where
    t: "fmlookup (ms_tasks s) tid = Some t" "tr_status t = Pending" "u = t\<lparr>tr_status := Running\<rparr>"
      "\<not> past_deadline t (lr_leased_at_ms lease)" "fmlookup (ms_leases s) tid = None" "check_executor s tid peer = Inr ()"
    unfolding sim by blast
  from mem_lease_granted [OF l(2,3) t(6,1,2,5,4)] t(3)
  show "(\<exists>t. sql_get_task tid db = Inr t \<and> u = t\<lparr>tr_status := Running\<rparr>) \<and>
      sql_get_task tid (snd (sql_lease_task_with_peer_guard tid lease peer db)) = Inr u \<and>
      sql_active_lease tid (snd (sql_lease_task_with_peer_guard tid lease peer db)) = Inr (Some lease)"
    by (intro conjI exI [of _ t]) (simp_all add: query_rows [OF sim(2)] query_rows [OF m] mem_get_task_def mem_active_lease_def t(1))
qed

lemma lease_refused:
  assumes inv: "sql_inv owner db" and adm: "sql_admissible owner (LeaseTask tid lease peer)"
    and held: "sql_active_lease tid db = Inr (Some l)"
  shows "\<exists>e. sql_lease_task_with_peer_guard tid lease peer db = (Inl e, db)"
proof -
  let ?r = "sql_lease_task_with_peer_guard tid lease peer db"
  have "\<not> leasable db tid (lr_leased_at_ms lease) peer"
    using held by (simp add: leasable_def)
  then obtain e where e: "fst ?r = Inl e"
    using lease_granted(1) [OF inv adm] by (metis sum.exhaust_sel)
  have "snd ?r = db"
    using held e unfolding sql_lease_task_with_peer_guard_def sql_active_lease_def
    by (auto simp: transaction_def bindR_def split: sum.splits)
  with e show ?thesis by (cases ?r) auto
qed

lemma peer_allowed_matches: "matches owner db s \<Longrightarrow> peer_allowed db tid peer \<longleftrightarrow> check_executor s tid peer = Inr ()"
  by (auto simp: executor_allows_def query_rows mem_get_transport_context_def check_executor_def ok_or_def
      split: option.splits)

lemma late_lease_effect:
  assumes inv: "sql_inv owner db" and adm: "sql_admissible owner (LeaseTask tid lease peer)"
    and t: "sql_get_task tid db = Inr t" and late: "tr_deadline_ms t = Some d" "d \<le> lr_leased_at_ms lease"
  defines "r \<equiv> sql_lease_task_with_peer_guard tid lease peer db"
  shows "peer_allowed db tid peer \<Longrightarrow> sql_active_lease tid db = Inr None \<Longrightarrow> \<not> is_terminal (tr_status t) \<Longrightarrow>
      fst r = Inl (TaskDeadlineExpired tid d (lr_leased_at_ms lease)) \<and> sql_get_task tid (snd r) = Inr (t\<lparr>tr_status := Failed\<rparr>)"
    and "\<not> (peer_allowed db tid peer \<and> sql_active_lease tid db = Inr None \<and> \<not> is_terminal (tr_status t)) \<Longrightarrow>
      \<exists>e. r = (Inl e, db)"
proof -
  from inv obtain s where m: "matches owner db s" by (rule sql_invE)
  have l: "valid_lease lease" "lr_task_id lease = tid" "lr_worker_id lease \<noteq> None" "owner (lr_lease_id lease) = tid"
    using adm by (simp_all add: sql_admissible_def)
  have s: "fmlookup (ms_tasks s) tid = Some t"
    using t by (simp add: query_rows [OF m] mem_get_task_def)
  have lease: "sql_active_lease tid db = Inr (fmlookup (ms_leases s) tid)"
    by (simp add: query_rows [OF m] mem_active_lease_def)
  have sim: "fst r = fst (mem_lease_task_with_peer_guard tid lease peer s)"
    "matches owner (snd r) (snd (mem_lease_task_with_peer_guard tid lease peer s))"
    using sim_lease_task [OF m l, of peer] by (simp_all add: sim_def r_def)
  show "fst r = Inl (TaskDeadlineExpired tid d (lr_leased_at_ms lease)) \<and> sql_get_task tid (snd r) = Inr (t\<lparr>tr_status := Failed\<rparr>)"
    if "peer_allowed db tid peer" "sql_active_lease tid db = Inr None" "\<not> is_terminal (tr_status t)"
    using mem_lease_late [OF l(2,3) _ s that(3) _ late, of peer] that(1,2)
    unfolding peer_allowed_matches [OF m] lease by (simp add: sim(1) query_rows [OF sim(2)] mem_get_task_def)
  assume no: "\<not> (peer_allowed db tid peer \<and> sql_active_lease tid db = Inr None \<and> \<not> is_terminal (tr_status t))"
  then have "\<not> leasable db tid (lr_leased_at_ms lease) peer"
    using t late by (auto simp: leasable_def past_deadline_def)
  then obtain e where e: "fst r = Inl e"
    using lease_granted(1) [OF inv adm] unfolding r_def by (metis sum.exhaust_sel)
  moreover have "snd r = db"
    using no late s unfolding r_def peer_allowed_matches [OF m] lease
    by (cases "tr_status t") (auto simp: sql_lease_task_with_peer_guard_def fetches [OF m] sim_check_executor [OF m] find_task_def transaction_def bindR_def
        split: sum.splits)
  ultimately show "\<exists>e. r = (Inl e, db)" by (cases r) auto
qed

lemma cancel_effect:
  assumes inv: "sql_inv owner db" and t: "sql_get_task tid db = Inr t"
  shows "is_terminal (tr_status t) \<Longrightarrow> sql_cancel_task tid now_ms db = (Inr t, db)"
    and "tr_status t = Pending \<Longrightarrow> finishes tid (t\<lparr>tr_status := Failed\<rparr>) (sql_cancel_task tid now_ms db)"
    and "tr_status t = Running \<Longrightarrow> sql_active_lease tid db = Inr (Some l) \<Longrightarrow> now_ms < lr_expires_at_ms l \<Longrightarrow>
      lr_expires_at_ms l < i64_max \<Longrightarrow> finishes tid (t\<lparr>tr_status := Failed\<rparr>) (sql_cancel_task tid now_ms db)"
proof -
  from inv obtain s where m: "matches owner db s" by (rule sql_invE)
  have s: "fmlookup (ms_tasks s) tid = Some t"
    using t by (simp add: query_rows [OF m] mem_get_task_def)
  note cases = mem_cancel_cases [OF matches_inv [OF m] s]
  note sim = finishes_sim [OF sim_cancel [OF m]]
  show "is_terminal (tr_status t) \<Longrightarrow> sql_cancel_task tid now_ms db = (Inr t, db)"
    using s by (simp add: sql_cancel_task_def fetches [OF m] commit_def transaction_def)
  show "tr_status t = Pending \<Longrightarrow> finishes tid (t\<lparr>tr_status := Failed\<rparr>) (sql_cancel_task tid now_ms db)"
    by (intro sim cases(2))
  show "tr_status t = Running \<Longrightarrow> sql_active_lease tid db = Inr (Some l) \<Longrightarrow> now_ms < lr_expires_at_ms l \<Longrightarrow>
      lr_expires_at_ms l < i64_max \<Longrightarrow> finishes tid (t\<lparr>tr_status := Failed\<rparr>) (sql_cancel_task tid now_ms db)"
    by (intro sim cases(3)) (simp_all add: query_rows [OF m] mem_active_lease_def)
qed

lemma cancel_refused:
  assumes inv: "sql_inv owner db" and t: "sql_get_task tid db = Inr t" "tr_status t = Running"
  shows "sql_active_lease tid db = Inr None \<Longrightarrow> sql_cancel_task tid now_ms db = (Inl (LeaseNotFound tid), db)"
    and "sql_active_lease tid db = Inr (Some l) \<Longrightarrow> lr_expires_at_ms l \<le> now_ms \<or> i64_max \<le> lr_expires_at_ms l \<Longrightarrow>
      sql_cancel_task tid now_ms db = (Inl (InvalidLeaseExpiry (lr_lease_id l) (lr_expires_at_ms l)
        (sat_add_i64 (lr_expires_at_ms l) 1) now_ms), db)"
proof -
  from inv obtain s where m: "matches owner db s" by (rule sql_invE)
  have s: "fmlookup (ms_tasks s) tid = Some t" "sql_active_lease tid db = Inr (fmlookup (ms_leases s) tid)"
    using t by (simp_all add: query_rows [OF m] mem_get_task_def mem_active_lease_def)
  note defs = sql_cancel_task_def fetches [OF m] find_task_def transaction_def guard_defs
  show "sql_active_lease tid db = Inr None \<Longrightarrow> sql_cancel_task tid now_ms db = (Inl (LeaseNotFound tid), db)"
    using s t(2) by (simp add: defs)
  assume l: "sql_active_lease tid db = Inr (Some l)" and out: "lr_expires_at_ms l \<le> now_ms \<or> i64_max \<le> lr_expires_at_ms l"
  have "\<not> (lr_expires_at_ms l > now_ms \<and> sat_add_i64 (lr_expires_at_ms l) 1 > now_ms \<and> sat_add_i64 (lr_expires_at_ms l) 1 > lr_expires_at_ms l)"
    using out by (auto simp: sat_add_i64_def i64_max_def i64_min_def)
  moreover have "fmlookup (ms_leases s) tid = Some l" using l s(2) by simp
  ultimately show "sql_cancel_task tid now_ms db = (Inl (InvalidLeaseExpiry (lr_lease_id l) (lr_expires_at_ms l)
      (sat_add_i64 (lr_expires_at_ms l) 1) now_ms), db)"
    using s(1) t(2) by (auto simp: defs ensure_def)
qed

section \<open>The sweeps\<close>

lemma deadline_sweep:
  assumes inv: "sql_inv owner db"
  shows "\<exists>failed db'. sql_fail_expired_deadlines now_ms None db = (Inr failed, db') \<and>
    (\<forall>tid. sql_get_task tid db' =
      (case sql_get_task tid db of
         Inr t \<Rightarrow> Inr (if \<not> is_terminal (tr_status t) \<and> past_deadline t now_ms then t\<lparr>tr_status := Failed\<rparr> else t)
       | Inl e \<Rightarrow> Inl e))"
proof -
  from inv obtain s where m: "matches owner db s" by (rule sql_invE)
  note keys = mem_expired_keys [OF matches_inv [OF m]]
  obtain s' where r: "mem_fail_expired_deadlines now_ms None s =
      (Inr (map (\<lambda>p. (the (fmlookup (ms_tasks s) (snd p)))\<lparr>tr_status := Failed\<rparr>) (mem_expired_deadlines now_ms None s)), s')"
    and tasks: "\<And>k. fmlookup (ms_tasks s') k = (if k \<in> snd ` set (mem_expired_deadlines now_ms None s)
       then map_option (\<lambda>t. t\<lparr>tr_status := Failed\<rparr>) (fmlookup (ms_tasks s) k) else fmlookup (ms_tasks s) k)"
    using mem_fail_expired_loop_effect [where failed = "[]", OF keys(1) [of now_ms None] keys(2) [of _ now_ms None]]
    by (auto simp: mem_fail_expired_deadlines_def)
  have "sim owner (sql_fail_expired_deadlines now_ms None db) (mem_fail_expired_deadlines now_ms None s)"
    by (intro sim_fail_expired [OF m]) (simp add: limit_ok_def)
  then obtain db' where db': "sql_fail_expired_deadlines now_ms None db = (fst (mem_fail_expired_deadlines now_ms None s), db')"
    "matches owner db' s'"
    by (cases "sql_fail_expired_deadlines now_ms None db") (auto simp: sim_def r)
  have "fmlookup (ms_tasks s') tid = map_option (\<lambda>t. if \<not> is_terminal (tr_status t) \<and> past_deadline t now_ms
      then t\<lparr>tr_status := Failed\<rparr> else t) (fmlookup (ms_tasks s) tid)" for tid
    unfolding tasks keys(3) by (cases "fmlookup (ms_tasks s) tid") auto
  then show ?thesis
    unfolding db'(1) r by (auto simp: query_rows [OF m] query_rows [OF db'(2)] mem_get_task_def ok_or_def
        split: option.splits)
qed

definition stale :: "sql_db \<Rightarrow> task_id \<Rightarrow> int \<Rightarrow> bool" where
  "stale db tid now_ms = (case sql_active_lease tid db of Inr (Some l) \<Rightarrow> lr_expires_at_ms l \<le> now_ms | _ \<Rightarrow> False)"

lemma recovery_effect:
  assumes inv: "sql_inv owner db"
  shows "\<exists>rep db'. sql_recover_stale_leases now_ms None db = (Inr rep, db') \<and> rr_corrupted_tasks rep = [] \<and>
    (\<forall>tid. if stale db tid now_ms
      then sql_active_lease tid db' = Inr None \<and>
        (\<exists>t. sql_get_task tid db = Inr t \<and> sql_get_task tid db' = Inr (t\<lparr>tr_status := Pending\<rparr>))
      else sql_active_lease tid db' = sql_active_lease tid db \<and> sql_get_task tid db' = sql_get_task tid db)"
proof -
  from inv obtain s where m: "matches owner db s" by (rule sql_invE)
  from mem_recover_effect [OF matches_inv [OF m] matches_sourced [OF m], of now_ms] obtain rep s' where
    r: "mem_recover_stale_leases now_ms None s = (Inr rep, s')" "rr_corrupted_tasks rep = []"
    and eff: "\<And>tid. if \<exists>l. fmlookup (ms_leases s) tid = Some l \<and> lr_expires_at_ms l \<le> now_ms
      then fmlookup (ms_leases s') tid = None \<and>
        (\<exists>t. fmlookup (ms_tasks s) tid = Some t \<and> fmlookup (ms_tasks s') tid = Some (t\<lparr>tr_status := Pending\<rparr>))
      else fmlookup (ms_leases s') tid = fmlookup (ms_leases s) tid \<and>
        fmlookup (ms_tasks s') tid = fmlookup (ms_tasks s) tid" by blast
  have "sim owner (sql_recover_stale_leases now_ms None db) (mem_recover_stale_leases now_ms None s)"
    by (intro sim_recover [OF m]) (simp add: limit_ok_def)
  then obtain db' where db': "sql_recover_stale_leases now_ms None db = (Inr rep, db')" "matches owner db' s'"
    by (cases "sql_recover_stale_leases now_ms None db") (auto simp: sim_def r)
  have st: "stale db tid now_ms \<longleftrightarrow> (\<exists>l. fmlookup (ms_leases s) tid = Some l \<and> lr_expires_at_ms l \<le> now_ms)" for tid
    by (auto simp: stale_def query_rows [OF m] mem_active_lease_def split: option.splits)
  have "if stale db tid now_ms
      then sql_active_lease tid db' = Inr None \<and>
        (\<exists>t. sql_get_task tid db = Inr t \<and> sql_get_task tid db' = Inr (t\<lparr>tr_status := Pending\<rparr>))
      else sql_active_lease tid db' = sql_active_lease tid db \<and> sql_get_task tid db' = sql_get_task tid db" for tid
    using eff [of tid]
    by (auto simp: st query_rows [OF m] query_rows [OF db'(2)] mem_get_task_def mem_active_lease_def split: if_splits)
  with db'(1) r(2) show ?thesis by blast
qed

section \<open>Work to claim\<close>

lemma mem_claimable_set:
  assumes inv: "mem_inv s"
  shows "x \<in> set (List.map_filter (with_envelope s) (filter (executor_matches s peer)
      (filter (\<lambda>t. tr_status t = Pending) (fmvalues (ms_tasks s))))) \<longleftrightarrow>
    fmlookup (ms_tasks s) (tr_id (pe_task x)) = Some (pe_task x) \<and> tr_status (pe_task x) = Pending \<and>
    fmlookup (ms_envelopes s) (tr_id (pe_task x)) = Some (pe_envelope x) \<and> executor_matches s peer (pe_task x)"
proof -
  have "t \<in> set (fmvalues (ms_tasks s)) \<longleftrightarrow> fmlookup (ms_tasks s) (tr_id t) = Some t" for t
    using mem_inv_task [OF inv] by (auto simp: set_fmvalues)
  moreover have "with_envelope s t = Some x \<longleftrightarrow>
      t = pe_task x \<and> fmlookup (ms_envelopes s) (tr_id t) = Some (pe_envelope x)" for t
    by (cases x) (auto simp: with_envelope_def)
  ultimately show ?thesis
    by (auto simp: set_map_filter)
qed

lemma claimable_effect:
  assumes inv: "sql_inv owner db" and limit: "limit < 2 ^ 63"
    and xs: "sql_claimable_pending_task_envelopes peer limit db = Inr xs"
  shows "sorted (map arrival_key xs)" and "length xs \<le> limit"
    and "x \<in> set xs \<Longrightarrow> sql_get_task (tr_id (pe_task x)) db = Inr (pe_task x) \<and> tr_status (pe_task x) = Pending \<and>
      sql_get_task_envelope (tr_id (pe_task x)) db = Inr (pe_envelope x) \<and> executor_allows db (tr_id (pe_task x)) peer"
    and "length xs < limit \<Longrightarrow> sql_get_task tid db = Inr t \<Longrightarrow> tr_status t = Pending \<Longrightarrow>
      sql_get_task_envelope tid db = Inr env \<Longrightarrow> executor_allows db tid peer \<Longrightarrow>
      \<lparr>pe_task = t, pe_envelope = env\<rparr> \<in> set xs"
proof -
  from inv obtain s where m: "matches owner db s" by (rule sql_invE)
  let ?all = "List.map_filter (with_envelope s) (filter (executor_matches s peer)
    (filter (\<lambda>t. tr_status t = Pending) (fmvalues (ms_tasks s))))"
  have xs': "xs = take limit (sort_key arrival_key ?all)"
    using xs query_claimable [OF m limit, of peer]
    by (auto simp: mem_claimable_pending_task_envelopes_def split: if_splits)
  note all = mem_claimable_set [OF matches_inv [OF m], of _ peer]
  have allows: "executor_allows db (tr_id t) peer = executor_matches s peer t" for t
    by (simp add: executor_allows_def executor_matches_def query_rows [OF m] mem_get_transport_context_def ok_or_def
        split: option.split)
  show "sorted (map arrival_key xs)"
    unfolding xs' by (simp add: sorted_wrt_take flip: take_map)
  show "length xs \<le> limit" unfolding xs' by simp
  show "sql_get_task (tr_id (pe_task x)) db = Inr (pe_task x) \<and> tr_status (pe_task x) = Pending \<and>
      sql_get_task_envelope (tr_id (pe_task x)) db = Inr (pe_envelope x) \<and> executor_allows db (tr_id (pe_task x)) peer"
    if "x \<in> set xs"
  proof -
    have "x \<in> set ?all" using that unfolding xs' by (auto dest: in_set_takeD)
    then show ?thesis
      unfolding all by (simp add: allows query_rows [OF m] mem_get_task_def mem_get_task_envelope_def)
  qed
  assume "length xs < limit"
  then have "xs = sort_key arrival_key ?all" unfolding xs' by simp
  moreover assume t: "sql_get_task tid db = Inr t" "tr_status t = Pending" "sql_get_task_envelope tid db = Inr env"
    "executor_allows db tid peer"
  then have "fmlookup (ms_tasks s) tid = Some t" "fmlookup (ms_envelopes s) tid = Some env"
    by (simp_all add: query_rows [OF m] mem_get_task_def mem_get_task_envelope_def)
  with t mem_inv_task [OF matches_inv [OF m]] allows [of t] have "\<lparr>pe_task = t, pe_envelope = env\<rparr> \<in> set ?all"
    unfolding all by auto
  ultimately show "\<lparr>pe_task = t, pe_envelope = env\<rparr> \<in> set xs" by simp
qed

end
