(* ===== verification/Remote_Results.thy ===== *)
theory Remote_Results
  imports Artifact_Sqlite Sql_Effects
begin

text \<open>
  The ingest of results that a remote executor sends back (\<open>results.rs\<close>): the checks on the result
  and its artifacts, the detection of duplicates and of tasks that were settled meanwhile, and the
  transaction that applies the result. The state is the database with the blob directory; a commit
  that fails is not modelled.
\<close>

section \<open>The ingest\<close>

record origin_result_artifact =
  oa_ordinal :: u32
  oa_meta :: artifact_meta
  oa_content :: bytes

datatype remote_result_ingest_outcome =
    Applied task_record
  | Duplicate task_record
  | SettledTerminal task_record remote_result_terminal_reason "terminal_result option"

text \<open>
  The loop of \<open>validate_origin_result_artifacts\<close>. \<open>next_minimum\<close> is the \<open>u32\<close> \<open>next_minimum_ordinal\<close>,
  \<open>aggregate\<close> the \<open>u64\<close> \<open>aggregate_len\<close>.
\<close>

fun validate_origin_loop ::
  "(bytes \<Rightarrow> bytes) \<Rightarrow> task_id \<Rightarrow> u32 \<Rightarrow> nat \<Rightarrow> origin_result_artifact list \<Rightarrow> store_error + artifact_record list" where
  "validate_origin_loop sha256 tid next_minimum aggregate [] = Inr []"
| "validate_origin_loop sha256 tid next_minimum aggregate (a # artifacts) =
     (let ordinal = oa_ordinal a; meta = oa_meta a; len = length (oa_content a);
          actual = digest_compute sha256 (oa_content a); limit = max_cross_node_result_artifact_bytes in
      bindR (ensure (next_minimum \<le> ordinal) (OriginResultArtifactOrdinalMismatch next_minimum ordinal)) (\<lambda>_.
      bindR (ensure (ordinal \<noteq> - 1) (OriginResultArtifactOrdinalMismatch ordinal ordinal)) (\<lambda>_.
      bindR (ensure (am_task_id meta = tid) (OriginResultArtifactTaskMismatch tid (am_task_id meta))) (\<lambda>_.
      bindR (ensure (am_artifact_id meta = origin_result_artifact_id sha256 tid ordinal)
        (OriginResultArtifactIdMismatch tid ordinal)) (\<lambda>_.
      bindR (ensure (am_byte_len meta = len) (ArtifactLengthMismatch (am_byte_len meta) len)) (\<lambda>_.
      bindR (ensure (am_digest meta = actual) (DigestMismatch (am_digest meta) actual)) (\<lambda>_.
      bindR (ensure (aggregate + len < 2 ^ 64) (ArtifactTooLarge (2 ^ 64 - 1) limit)) (\<lambda>_.
      bindR (ensure (aggregate + len \<le> limit) (ArtifactTooLarge (aggregate + len) limit)) (\<lambda>_.
      bindR (validate_origin_loop sha256 tid (ordinal + 1) (aggregate + len) artifacts) (\<lambda>records.
      Inr (artifact_record_from_meta meta actual len # records)))))))))))"

definition validate_origin_result_artifacts ::
  "(bytes \<Rightarrow> bytes) \<Rightarrow> task_id \<Rightarrow> origin_result_artifact list \<Rightarrow> store_error + artifact_record list" where
  "validate_origin_result_artifacts sha256 tid artifacts = validate_origin_loop sha256 tid 0 0 artifacts"

fun terminal_event_reason :: "event_type \<Rightarrow> remote_result_terminal_reason option" where
  "terminal_event_reason TaskTimedOut = Some DeadlineExpired"
| "terminal_event_reason TaskCanceled = Some RemoteCanceled"
| "terminal_event_reason _ = None"

text \<open>\<open>Iterator::find_map\<close>.\<close>

fun find_map :: "('a \<Rightarrow> 'b option) \<Rightarrow> 'a list \<Rightarrow> 'b option" where
  "find_map f [] = None"
| "find_map f (x # xs) = (case f x of None \<Rightarrow> find_map f xs | Some y \<Rightarrow> Some y)"

definition remote_result_terminal_reason_with_executor ::
  "task_record \<Rightarrow> sql_db \<Rightarrow> store_error + remote_result_terminal_reason option" where
  "remote_result_terminal_reason_with_executor t db =
     (if tr_status t \<noteq> Failed then Inr None
      else
        bindR (mapR row_to_event (select_events (tr_id t) db)) (\<lambda>events.
        bindR (replay_task_from_snapshot_and_events t events) (\<lambda>_.
        Inr (find_map (\<lambda>event. terminal_event_reason (ev_event_type event)) (rev events)))))"

definition fetch_artifacts_for_task_with_executor :: "task_id \<Rightarrow> sql_db \<Rightarrow> store_error + artifact_record list" where
  "fetch_artifacts_for_task_with_executor tid db =
     mapR row_to_artifact (filter (\<lambda>r. af_task_id r = tid) (db_artifacts db))"

definition insert_origin_artifact :: "artifact_record \<Rightarrow> bytes \<Rightarrow> sql_db \<Rightarrow> store_error + sql_db" where
  "insert_origin_artifact record content db =
     bindR (ensure (\<not> list_ex (\<lambda>r. af_artifact_id r = ar_artifact_id record) (db_artifacts db))
       (constraint_failed ''artifacts.artifact_id'')) (\<lambda>_.
     Inr (db\<lparr>db_artifacts := db_artifacts db @ [artifact_to_row record content]\<rparr>))"

text \<open>The loops of the ingest: over the stored contents, the new identifiers, the blobs, and the rows.\<close>

fun check_persisted_loop ::
  "(bytes \<Rightarrow> bytes) \<Rightarrow> origin_result_artifact list \<Rightarrow> sql_db \<times> blob_dir \<Rightarrow> store_error + unit" where
  "check_persisted_loop sha256 [] st = Inr ()"
| "check_persisted_loop sha256 (a # artifacts) st =
     bindR (sql_get_artifact sha256 (am_artifact_id (oa_meta a)) st) (\<lambda>(_, persisted).
     bindR (ensure (persisted = oa_content a) (OriginResultArtifactConflict (am_artifact_id (oa_meta a)))) (\<lambda>_.
     check_persisted_loop sha256 artifacts st))"

fun check_unused_loop :: "artifact_record list \<Rightarrow> sql_db \<Rightarrow> store_error + unit" where
  "check_unused_loop [] db = Inr ()"
| "check_unused_loop (record # records) db =
     bindR (fetch_artifact_optional (ar_artifact_id record) db) (\<lambda>existing.
     bindR (ensure (existing = None) (OriginResultArtifactConflict (ar_artifact_id record))) (\<lambda>_.
     check_unused_loop records db))"

definition rollback_prepared :: "prepared_blob_write list \<Rightarrow> blob_dir \<Rightarrow> blob_dir" where
  "rollback_prepared prepared fs = fold (\<lambda>p. rollback_prepared_blob_write (Some p)) prepared fs"

fun prepare_blobs_loop ::
  "(bytes \<Rightarrow> bytes) \<Rightarrow> sql_db \<Rightarrow> (origin_result_artifact \<times> artifact_record) list \<Rightarrow> digest list \<Rightarrow>
   prepared_blob_write list \<Rightarrow> blob_dir \<Rightarrow> (store_error + prepared_blob_write list) \<times> blob_dir" where
  "prepare_blobs_loop sha256 db [] digests prepared fs = (Inr prepared, fs)"
| "prepare_blobs_loop sha256 db ((a, record) # pairs) digests prepared fs =
     (if \<not> ar_inline record \<and> ar_digest record \<notin> set digests then
        (case prepare_blob_write_with_executor sha256 (ar_digest record) (oa_content a) db fs of
           (Inr p, fs') \<Rightarrow>
             prepare_blobs_loop sha256 db pairs (ar_digest record # digests) (prepared @ [p]) fs'
         | (Inl e, fs') \<Rightarrow> (Inl e, rollback_prepared prepared fs'))
      else prepare_blobs_loop sha256 db pairs digests prepared fs)"

fun insert_artifacts_loop ::
  "(origin_result_artifact \<times> artifact_record) list \<Rightarrow> sql_db \<Rightarrow> store_error + sql_db" where
  "insert_artifacts_loop [] db = Inr db"
| "insert_artifacts_loop ((a, record) # pairs) db =
     bindR (insert_origin_artifact record (oa_content a)
       (if \<not> ar_inline record then increment_blob_ref_with_executor (ar_digest record) (ar_byte_len record) db
        else db)) (\<lambda>db.
     insert_artifacts_loop pairs db)"

text \<open>The block \<open>apply_result\<close>.\<close>

definition start_remote_task :: "task_record \<Rightarrow> task_id \<Rightarrow> sql_db \<Rightarrow> store_error + (task_record \<times> sql_db)" where
  "start_remote_task t tid db =
     (if tr_status t = Pending then
        bindR (insert_event tid (next_sequence_with_executor tid db) TaskStarted (Some Pending) Running
                 (update_task_status_with_executor tid Running db)) (\<lambda>db.
        Inr (t\<lparr>tr_status := Running\<rparr>, db))
      else Inr (t, db))"

definition apply_remote_in_tx ::
  "terminal_result \<Rightarrow> (origin_result_artifact \<times> artifact_record) list \<Rightarrow> task_record \<Rightarrow> sql_db \<Rightarrow> store_error + sql_db" where
  "apply_remote_in_tx result pairs t db =
     (let tid = tm_task_id result in
      bindR (start_remote_task t tid db) (\<lambda>(t, db).
      bindR (map_err from_core_error (validate_transition (tr_status t) (tm_terminal_status result))) (\<lambda>transition.
      bindR (set_status_with_event tid (tm_terminal_status result) (next_sequence_with_executor tid db)
               (tt_event_type transition) (tt_from transition) (tt_to transition) db) (\<lambda>db.
      bindR (insert_artifacts_loop pairs db) (\<lambda>db.
      insert_terminal_result_only result db)))))"

fun settlement_reason ::
  "remote_result_terminal_reason option \<Rightarrow> terminal_result option \<Rightarrow> remote_result_terminal_reason option" where
  "settlement_reason (Some DeadlineExpired) None = Some DeadlineExpired"
| "settlement_reason (Some RemoteCanceled) (Some _) = Some RemoteCanceled"
| "settlement_reason _ _ = None"

definition ingest_duplicate ::
  "(bytes \<Rightarrow> bytes) \<Rightarrow> terminal_result \<Rightarrow> origin_result_artifact list \<Rightarrow> artifact_record list \<Rightarrow> sql_db \<times> blob_dir \<Rightarrow>
   store_error + remote_result_ingest_outcome" where
  "ingest_duplicate sha256 result artifacts records st =
     (let tid = tm_task_id result in
      bindR (fetch_artifacts_for_task_with_executor tid (fst st)) (\<lambda>stored.
      bindR (ensure (length stored = length records \<and> list_all (\<lambda>row. row \<in> set records) stored)
        (TerminalResultConflict tid)) (\<lambda>_.
      bindR (check_persisted_loop sha256 artifacts st) (\<lambda>_.
      bindR (sql_get_task tid (fst st)) (\<lambda>t. Inr (Duplicate t))))))"

definition ingest_apply ::
  "(bytes \<Rightarrow> bytes) \<Rightarrow> terminal_result \<Rightarrow> (origin_result_artifact \<times> artifact_record) list \<Rightarrow> task_record \<Rightarrow>
   sql_db \<times> blob_dir \<Rightarrow> (store_error + remote_result_ingest_outcome) \<times> sql_db \<times> blob_dir" where
  "ingest_apply sha256 result pairs t st =
     (case st of (db, fs) \<Rightarrow>
      (case prepare_blobs_loop sha256 db pairs [] [] fs of
         (Inl e, fs') \<Rightarrow> (Inl e, db, fs')
       | (Inr prepared, fs') \<Rightarrow>
           (case apply_remote_in_tx result pairs t db of
              Inl e \<Rightarrow> (Inl e, db, rollback_prepared prepared fs')
            | Inr db' \<Rightarrow>
                (bindR (sql_get_task (tm_task_id result) db') (\<lambda>t. Inr (Applied t)), db', fs'))))"

definition ingest_remote_result_with_artifacts ::
  "(bytes \<Rightarrow> bytes) \<Rightarrow> terminal_result \<Rightarrow> origin_result_artifact list \<Rightarrow> peer_id \<Rightarrow> sql_db \<times> blob_dir \<Rightarrow>
   (store_error + remote_result_ingest_outcome) \<times> sql_db \<times> blob_dir" where
  "ingest_remote_result_with_artifacts sha256 result artifacts peer st =
     (let tid = tm_task_id result; db = fst st in
      attempt (validate_result result) st (\<lambda>_.
      attempt (ensure (tm_executor_peer_id result = peer)
        (RemoteResultExecutorMismatch tid peer (tm_executor_peer_id result))) st (\<lambda>_.
      attempt (validate_origin_result_artifacts sha256 tid artifacts) st (\<lambda>records.
      attempt (bindR (fetch_transport_context_optional tid db)
        (\<lambda>context. ok_or context (TransportContextNotFound tid))) st (\<lambda>context.
      attempt (ensure (tc_expected_executor_peer_id context = Some peer)
        (RemoteResultExecutorMismatch tid
          (case tc_expected_executor_peer_id context of
             None \<Rightarrow> tc_destination_peer_id context | Some expected \<Rightarrow> expected) peer)) st (\<lambda>_.
      attempt (fetch_task_with_executor tid db) st (\<lambda>t.
      attempt (remote_result_terminal_reason_with_executor t db) st (\<lambda>reason.
      attempt (fetch_terminal_result_optional tid db) st (\<lambda>existing.
      if reason = None \<and> existing = Some result
      then (ingest_duplicate sha256 result artifacts records st, st)
      else
        attempt (check_unused_loop records db) st (\<lambda>_.
        case settlement_reason reason existing of
          Some why \<Rightarrow>
            attempt (ensure (records = []) (RemoteResultTerminalArtifactsRejected tid why)) st (\<lambda>_.
            (Inr (SettledTerminal t why existing), st))
        | None \<Rightarrow>
            attempt (ensure (existing = None) (TerminalResultConflict tid)) st (\<lambda>_.
            ingest_apply sha256 result (zip artifacts records) t st)))))))))))"

definition apply_remote_result_with_artifacts ::
  "(bytes \<Rightarrow> bytes) \<Rightarrow> terminal_result \<Rightarrow> origin_result_artifact list \<Rightarrow> peer_id \<Rightarrow> sql_db \<times> blob_dir \<Rightarrow>
   (store_error + task_record) \<times> sql_db \<times> blob_dir" where
  "apply_remote_result_with_artifacts sha256 result artifacts peer st =
     (case ingest_remote_result_with_artifacts sha256 result artifacts peer st of
        (Inl e, st') \<Rightarrow> (Inl e, st')
      | (Inr (Applied t), st') \<Rightarrow> (Inr t, st')
      | (Inr (Duplicate t), st') \<Rightarrow> (Inr t, st')
      | (Inr (SettledTerminal _ why _), st') \<Rightarrow> (Inl (RemoteResultTerminallySettled (tm_task_id result) why), st'))"

text \<open>The source passes the empty path for the blob directory, which no artifact then reaches.\<close>

definition apply_remote_result ::
  "(bytes \<Rightarrow> bytes) \<Rightarrow> terminal_result \<Rightarrow> peer_id \<Rightarrow> sql_db \<times> blob_dir \<Rightarrow> (store_error + task_record) \<times> sql_db \<times> blob_dir" where
  "apply_remote_result sha256 result peer st = apply_remote_result_with_artifacts sha256 result [] peer st"

end
