(* ===== verification/Remote_Files.thy ===== *)
theory Remote_Files
  imports Remote_Results
begin

text \<open>
  The artifacts of a remote result: the blobs that are written before the transaction and removed when
  it rolls back, the rows it inserts, and what the validated artifacts satisfy.
\<close>

section \<open>Blobs\<close>

text \<open>
  The reference counts alone, and a collision-free list of artifacts: equal digests come from equal
  contents, also for the contents already in the blob directory.
\<close>

definition counts :: "sql_db \<Rightarrow> (digest \<Rightarrow> nat) \<Rightarrow> bool" where
  "counts db refs \<longleftrightarrow>
     distinct (map bl_digest (db_blobs db)) \<and>
     (\<forall>d. blob_count (db_blobs db) d = (if refs d = 0 then None else Some (int (refs d))))"

lemma tally_counts: "tally db fs refs \<longleftrightarrow> counts db refs \<and> (\<forall>d. fmlookup fs d = None \<longleftrightarrow> refs d = 0)"
  by (simp add: tally_def counts_def)

definition new_digests :: "(origin_result_artifact \<times> artifact_record) list \<Rightarrow> digest set" where
  "new_digests pairs = {ar_digest r | a r. (a, r) \<in> set pairs \<and> \<not> ar_inline r}"

lemma new_digests_simps [simp]:
  "new_digests [] = {}"
  "new_digests ((a, r) # pairs) = (if ar_inline r then new_digests pairs else insert (ar_digest r) (new_digests pairs))"
  by (auto simp: new_digests_def)

definition blob_contents ::
  "(bytes \<Rightarrow> bytes) \<Rightarrow> (digest \<Rightarrow> bytes) \<Rightarrow> blob_dir \<Rightarrow> (origin_result_artifact \<times> artifact_record) list \<Rightarrow> bool" where
  "blob_contents sha256 content fs pairs \<longleftrightarrow>
     (\<forall>a r. (a, r) \<in> set pairs \<longrightarrow> \<not> ar_inline r \<longrightarrow>
        oa_content a = content (ar_digest r) \<and> ar_digest r = digest_compute sha256 (oa_content a) \<and>
        (\<forall>c. fmlookup fs (ar_digest r) = Some c \<longrightarrow> c = oa_content a))"

lemma blob_contentsD:
  assumes "blob_contents sha256 content fs pairs" and "(a, r) \<in> set pairs" and "\<not> ar_inline r"
  shows "oa_content a = content (ar_digest r)" and "ar_digest r = digest_compute sha256 (oa_content a)"
    and "fmlookup fs (ar_digest r) = Some c \<Longrightarrow> c = oa_content a"
  using assms unfolding blob_contents_def by blast+

lemma blob_contents_tl: "blob_contents sha256 content fs (p # pairs) \<Longrightarrow> blob_contents sha256 content fs pairs"
  unfolding blob_contents_def by (meson list.set_intros(2))

definition prepared_write :: "sql_db \<Rightarrow> digest \<Rightarrow> prepared_blob_write" where
  "prepared_write db d = \<lparr>pb_path = d, pb_remove_on_rollback = (blob_count (db_blobs db) d = None)\<rparr>"

lemma prepare_blob:
  assumes t: "tally db fs0 refs" and d: "d = digest_compute sha256 c"
    and same: "fmlookup fs d = fmlookup fs0 d" "\<And>c'. fmlookup fs0 d = Some c' \<Longrightarrow> c' = c"
  shows "\<exists>fs'. prepare_blob_write_with_executor sha256 d c db fs = (Inr (prepared_write db d), fs') \<and>
    (\<forall>e. fmlookup fs' e = (if e = d then Some c else fmlookup fs e))"
proof (cases "refs d = 0")
  case True
  then have "fmlookup fs d = None" "blob_count (db_blobs db) d = None"
    using t same by (simp_all add: tally_def)
  then show ?thesis
    by (simp add: prepare_blob_write_with_executor_def write_new_blob_file_def blob_count_tracked Let_def
        prepared_write_def)
next
  case False
  then obtain c' where "fmlookup fs0 d = Some c'"
    using t by (fastforce simp: tally_def)
  with same have "fmlookup fs d = Some c" by simp
  moreover have "blob_count (db_blobs db) d \<noteq> None"
    using t False by (simp add: tally_def)
  ultimately show ?thesis
    by (simp add: prepare_blob_write_with_executor_def blob_count_tracked read_verified_blob_def
        read_blob_file_def Let_def prepared_write_def flip: d)
qed

lemma prepare_blobs:
  assumes t: "tally db fs0 refs" and c: "blob_contents sha256 content fs0 pairs"
    and fs: "\<And>d. fmlookup fs d = (if d \<in> set ds then Some (content d) else fmlookup fs0 d)"
  shows "\<exists>ds' fs'. prepare_blobs_loop sha256 db pairs ds (map (prepared_write db) (rev ds)) fs =
      (Inr (map (prepared_write db) (rev ds')), fs') \<and> set ds' = set ds \<union> new_digests pairs \<and>
    (\<forall>d. fmlookup fs' d = (if d \<in> set ds' then Some (content d) else fmlookup fs0 d))"
  using c fs
proof (induction pairs arbitrary: ds fs)
  case Nil
  then show ?case by (intro exI [of _ ds]) simp
next
  case (Cons p pairs)
  obtain a r where p: "p = (a, r)" by fastforce
  have rest: "blob_contents sha256 content fs0 pairs"
    using Cons.prems(1) by (rule blob_contents_tl)
  show ?case
  proof (cases "\<not> ar_inline r \<and> ar_digest r \<notin> set ds")
    case True
    let ?d = "ar_digest r"
    have "(a, r) \<in> set (p # pairs)" and "\<not> ar_inline r"
      using p True by simp_all
    note a = blob_contentsD [OF Cons.prems(1) this]
    have "fmlookup fs ?d = fmlookup fs0 ?d"
      using Cons.prems(2) True by simp
    from prepare_blob [OF t a(2) this a(3)] obtain fs' where fs':
      "prepare_blob_write_with_executor sha256 ?d (oa_content a) db fs = (Inr (prepared_write db ?d), fs')"
      "\<And>e. fmlookup fs' e = (if e = ?d then Some (oa_content a) else fmlookup fs e)" by blast
    have "fmlookup fs' d = (if d \<in> set (?d # ds) then Some (content d) else fmlookup fs0 d)" for d
      using fs'(2) Cons.prems(2) a(1) by simp
    from Cons.IH [OF rest this] show ?thesis
      using True fs'(1) p by simp
  next
    case False
    then have "prepare_blobs_loop sha256 db (p # pairs) ds prepared fs = prepare_blobs_loop sha256 db pairs ds prepared fs"
      "set ds \<union> new_digests (p # pairs) = set ds \<union> new_digests pairs" for prepared
      using False unfolding p by (simp only: prepare_blobs_loop.simps if_False, auto)
    with Cons.IH [OF rest Cons.prems(2)] show ?thesis by simp
  qed
qed

lemma rollback_lookup:
  "fmlookup (rollback_prepared (map (prepared_write db) ds) fs) d =
     (if d \<in> set ds \<and> blob_count (db_blobs db) d = None then None else fmlookup fs d)"
  by (induction ds arbitrary: fs)
    (auto simp: rollback_prepared_def rollback_prepared_blob_write_def prepared_write_def
      remove_blob_file_if_present_def)

text \<open>The blobs of a list of artifacts are written, and rolling back restores the directory.\<close>

lemma prepared_blobs:
  assumes t: "tally db fs refs" and c: "blob_contents sha256 content fs pairs"
  obtains prepared fs' where "prepare_blobs_loop sha256 db pairs [] [] fs = (Inr prepared, fs')"
    and "rollback_prepared prepared fs' = fs"
    and "\<forall>d. fmlookup fs' d = (if d \<in> new_digests pairs then Some (content d) else fmlookup fs d)"
proof -
  from prepare_blobs [OF t c, of fs "[]"] obtain ds fs' where p:
    "prepare_blobs_loop sha256 db pairs [] [] fs = (Inr (map (prepared_write db) (rev ds)), fs')"
    "set ds = new_digests pairs"
    "\<And>d. fmlookup fs' d = (if d \<in> set ds then Some (content d) else fmlookup fs d)"
    by auto
  have "fmlookup (rollback_prepared (map (prepared_write db) (rev ds)) fs') d = fmlookup fs d" for d
  proof (cases "d \<in> set ds")
    case True
    then obtain a r where a: "(a, r) \<in> set pairs" "\<not> ar_inline r" "ar_digest r = d"
      using p(2) by (auto simp: new_digests_def)
    then have "\<And>c'. fmlookup fs d = Some c' \<Longrightarrow> c' = content d"
      using blob_contentsD [OF c a(1,2)] by metis
    moreover have "blob_count (db_blobs db) d = None \<longleftrightarrow> fmlookup fs d = None"
      using t by (simp add: tally_def)
    ultimately show ?thesis
      using True p(3) by (cases "fmlookup fs d") (auto simp: rollback_lookup)
  qed (simp add: rollback_lookup p(3))
  then have "rollback_prepared (map (prepared_write db) (rev ds)) fs' = fs"
    by (rule fmap_ext)
  with p show thesis by (intro that) auto
qed

section \<open>Rows\<close>

definition store_pairs ::
  "(origin_result_artifact \<times> artifact_record) list \<Rightarrow> artifact_map \<Rightarrow> artifact_map" where
  "store_pairs pairs m = fold (\<lambda>(a, r). fmupd (ar_artifact_id r) (r, oa_content a)) pairs m"

lemma store_pairs_simps [simp]:
  "store_pairs [] m = m"
  "store_pairs ((a, r) # pairs) m = store_pairs pairs (fmupd (ar_artifact_id r) (r, oa_content a) m)"
  by (simp_all add: store_pairs_def)

lemma store_pairs_other: "k \<notin> (\<lambda>(a, r). ar_artifact_id r) ` set pairs \<Longrightarrow> fmlookup (store_pairs pairs m) k = fmlookup m k"
  by (induction pairs arbitrary: m) (auto split: prod.splits)

lemma store_pairs_lookup:
  "distinct (map (\<lambda>(a, r). ar_artifact_id r) pairs) \<Longrightarrow> (a, r) \<in> set pairs \<Longrightarrow>
     fmlookup (store_pairs pairs m) (ar_artifact_id r) = Some (r, oa_content a)"
proof (induction pairs arbitrary: m)
  case (Cons p pairs)
  then show ?case
    by (cases p) (auto simp: store_pairs_other)
qed simp

lemma counts_increment:
  assumes "counts db refs"
  shows "counts (increment_blob_ref_with_executor d n db) (refs(d := refs d + 1))"
  using assms count_increment [of db d n] by (auto simp: counts_def)

text \<open>Fresh artifacts are inserted: their rows are appended and their blobs counted.\<close>

lemma insert_artifacts:
  assumes "artifact_rows sha256 (db_artifacts db) m" and "counts db (blob_refs m)"
    and "\<And>a r. (a, r) \<in> set pairs \<Longrightarrow> artifact_ok sha256 (r, oa_content a)"
    and "distinct (map (\<lambda>(a, r). ar_artifact_id r) pairs)"
    and "\<And>a r. (a, r) \<in> set pairs \<Longrightarrow> fmlookup m (ar_artifact_id r) = None"
  shows "\<exists>blobs. insert_artifacts_loop pairs db =
      Inr (db\<lparr>db_blobs := blobs, db_artifacts := db_artifacts db @ map (\<lambda>(a, r). artifact_to_row r (oa_content a)) pairs\<rparr>) \<and>
    counts (db\<lparr>db_blobs := blobs\<rparr>) (blob_refs (store_pairs pairs m)) \<and>
    artifact_rows sha256 (db_artifacts db @ map (\<lambda>(a, r). artifact_to_row r (oa_content a)) pairs) (store_pairs pairs m)"
  using assms
proof (induction pairs arbitrary: db m)
  case Nil
  then show ?case by (intro exI [of _ "db_blobs db"]) simp
next
  case (Cons p pairs)
  obtain a r where p: "p = (a, r)" by fastforce
  have r: "artifact_ok sha256 (r, oa_content a)" "fmlookup m (ar_artifact_id r) = None"
    using Cons.prems(3,5) [of a r] p by simp_all
  define db1 where "db1 = (if \<not> ar_inline r then increment_blob_ref_with_executor (ar_digest r) (ar_byte_len r) db else db)"
  define db2 where "db2 = db1\<lparr>db_artifacts := db_artifacts db1 @ [artifact_to_row r (oa_content a)]\<rparr>"
  let ?m = "fmupd (ar_artifact_id r) (r, oa_content a) m"
  have same: "db_artifacts db1 = db_artifacts db" "db1 = db\<lparr>db_blobs := db_blobs db1\<rparr>"
    by (simp_all add: db1_def increment_blob_ref_with_executor_def)
  have step: "insert_artifacts_loop (p # pairs) db = insert_artifacts_loop pairs db2"
    using represents_absent [OF Cons.prems(1), of "ar_artifact_id r"] r(2) same(1)
    by (simp add: p insert_origin_artifact_def db2_def flip: db1_def)
  have rows: "artifact_rows sha256 (db_artifacts db2) ?m"
    using represents_insert [OF Cons.prems(1) r(2), of "(r, oa_content a)"] r(1) same(1) by (simp add: db2_def)
  have drop: "fmdrop (ar_artifact_id r) m = m"
    using r(2) by (intro fmap_ext) auto
  have "blob_refs ?m = (if ar_inline r then blob_refs m else (blob_refs m)(ar_digest r := blob_refs m (ar_digest r) + 1))"
    by (auto simp: fun_eq_iff blob_refs_upd drop)
  then have "counts db1 (blob_refs ?m)"
    using Cons.prems(2) counts_increment [OF Cons.prems(2), of "ar_digest r" "ar_byte_len r"]
    by (cases "ar_inline r") (simp_all add: db1_def)
  then have "counts db2 (blob_refs ?m)"
    by (simp add: db2_def counts_def)
  from Cons.IH [OF rows this] Cons.prems(3-5) obtain blobs where
    "insert_artifacts_loop pairs db2 =
      Inr (db2\<lparr>db_blobs := blobs, db_artifacts := db_artifacts db2 @ map (\<lambda>(a, r). artifact_to_row r (oa_content a)) pairs\<rparr>)"
    "counts (db2\<lparr>db_blobs := blobs\<rparr>) (blob_refs (store_pairs pairs ?m))"
    "artifact_rows sha256 (db_artifacts db2 @ map (\<lambda>(a, r). artifact_to_row r (oa_content a)) pairs) (store_pairs pairs ?m)"
    using p by fastforce
  moreover have "db2\<lparr>db_blobs := blobs, db_artifacts := x\<rparr> = db\<lparr>db_blobs := blobs, db_artifacts := x\<rparr>" for x
    unfolding db2_def by (subst same(2)) simp
  moreover have "counts (db2\<lparr>db_blobs := blobs\<rparr>) refs \<longleftrightarrow> counts (db\<lparr>db_blobs := blobs\<rparr>) refs" for refs
    by (simp add: counts_def)
  ultimately show ?case
    unfolding step by (intro exI [of _ blobs]) (simp add: p db2_def same(1))
qed

section \<open>The whole transaction\<close>

lemma store_pairs_refs:
  "\<lbrakk>distinct (map (\<lambda>(a, r). ar_artifact_id r) pairs);
    \<And>a r. (a, r) \<in> set pairs \<Longrightarrow> fmlookup m (ar_artifact_id r) = None\<rbrakk> \<Longrightarrow>
   blob_refs (store_pairs pairs m) d = 0 \<longleftrightarrow> blob_refs m d = 0 \<and> d \<notin> new_digests pairs"
proof (induction pairs arbitrary: m)
  case (Cons p pairs)
  obtain a r where p: "p = (a, r)" by fastforce
  have none: "fmlookup m (ar_artifact_id r) = None"
    using Cons.prems(2) [of a r] p by simp
  have drop: "fmdrop (ar_artifact_id r) m = m"
    using none by (intro fmap_ext) auto
  have "blob_refs (store_pairs pairs (fmupd (ar_artifact_id r) (r, oa_content a) m)) d = 0 \<longleftrightarrow>
      blob_refs (fmupd (ar_artifact_id r) (r, oa_content a) m) d = 0 \<and> d \<notin> new_digests pairs"
    using Cons.prems p by (intro Cons.IH) force+
  then show ?case
    by (auto simp: p blob_refs_upd drop)
qed simp

text \<open>What the store holds after the blobs are written and the rows inserted.\<close>

lemma insert_artifacts_holds:
  assumes h: "sql_holds sha256 (db, fs) m" and c: "blob_contents sha256 content fs pairs"
    and ok: "\<And>a r. (a, r) \<in> set pairs \<Longrightarrow> artifact_ok sha256 (r, oa_content a)"
    and new: "distinct (map (\<lambda>(a, r). ar_artifact_id r) pairs)"
      "\<And>a r. (a, r) \<in> set pairs \<Longrightarrow> fmlookup m (ar_artifact_id r) = None"
    and fs': "\<And>d. fmlookup fs' d = (if d \<in> new_digests pairs then Some (content d) else fmlookup fs d)"
    and db1: "db_artifacts db1 = db_artifacts db" "db_blobs db1 = db_blobs db"
  shows "\<exists>blobs. let db2 = db1\<lparr>db_blobs := blobs,
        db_artifacts := db_artifacts db @ map (\<lambda>(a, r). artifact_to_row r (oa_content a)) pairs\<rparr> in
    insert_artifacts_loop pairs db1 = Inr db2 \<and> sql_holds sha256 (db2, fs') (store_pairs pairs m)"
proof -
  have rows: "artifact_rows sha256 (db_artifacts db1) m" and tally: "tally db fs (blob_refs m)"
    and files: "\<And>k a c. fmlookup m k = Some (a, c) \<Longrightarrow> \<not> ar_inline a \<Longrightarrow> fmlookup fs (ar_digest a) = Some c"
    using h db1 by (auto simp: sql_holds_def blobs_hold_def)
  have "counts db1 (blob_refs m)"
    using tally db1 by (simp add: tally_counts counts_def)
  from insert_artifacts [OF rows this _ new(1)] ok new(2) obtain blobs where b:
    "insert_artifacts_loop pairs db1 =
      Inr (db1\<lparr>db_blobs := blobs, db_artifacts := db_artifacts db1 @ map (\<lambda>(a, r). artifact_to_row r (oa_content a)) pairs\<rparr>)"
    "counts (db1\<lparr>db_blobs := blobs\<rparr>) (blob_refs (store_pairs pairs m))"
    "artifact_rows sha256 (db_artifacts db1 @ map (\<lambda>(a, r). artifact_to_row r (oa_content a)) pairs) (store_pairs pairs m)"
    by blast
  have "blob_refs (store_pairs pairs m) d = 0 \<longleftrightarrow> blob_refs m d = 0 \<and> d \<notin> new_digests pairs" for d
    by (intro store_pairs_refs new)
  then have "fmlookup fs' d = None \<longleftrightarrow> blob_refs (store_pairs pairs m) d = 0" for d
    using tally fs' [of d] by (auto simp: tally_def)
  moreover have "fmlookup fs' (ar_digest r) = Some c"
    if "fmlookup (store_pairs pairs m) k = Some (r, c)" "\<not> ar_inline r" for k r c
  proof (cases "k \<in> (\<lambda>(a, r). ar_artifact_id r) ` set pairs")
    case True
    then obtain a r' where a: "(a, r') \<in> set pairs" "k = ar_artifact_id r'" by auto
    with that store_pairs_lookup [OF new(1) a(1)] have "r' = r" "c = oa_content a" by simp_all
    moreover from this a that have "ar_digest r \<in> new_digests pairs"
      unfolding new_digests_def by blast
    ultimately show ?thesis
      using fs' blob_contentsD(1) [OF c a(1)] that(2) by simp
  next
    case False
    with that have "fmlookup fs (ar_digest r) = Some c"
      using files store_pairs_other [OF False] by simp
    moreover have "content (ar_digest r) = c" if "ar_digest r \<in> new_digests pairs"
      using that blob_contentsD [OF c] \<open>fmlookup fs (ar_digest r) = Some c\<close> unfolding new_digests_def by fastforce
    ultimately show ?thesis using fs' by simp
  qed
  ultimately show ?thesis
    using b db1 by (intro exI [of _ blobs]) (simp add: Let_def sql_holds_def blobs_hold_def tally_counts counts_def)
qed

section \<open>Validated artifacts\<close>

abbreviation origin_record :: "(bytes \<Rightarrow> bytes) \<Rightarrow> origin_result_artifact \<Rightarrow> artifact_record" where
  "origin_record sha256 a \<equiv> stored_as sha256 (oa_meta a) (oa_content a)"

abbreviation origin_pairs ::
  "(bytes \<Rightarrow> bytes) \<Rightarrow> origin_result_artifact list \<Rightarrow> (origin_result_artifact \<times> artifact_record) list" where
  "origin_pairs sha256 artifacts \<equiv> map (\<lambda>a. (a, origin_record sha256 a)) artifacts"

lemma validated_loop:
  "validate_origin_loop sha256 tid n aggregate artifacts = Inr records \<Longrightarrow>
     records = map (origin_record sha256) artifacts \<and>
     (\<forall>a \<in> set artifacts. am_task_id (oa_meta a) = tid \<and>
        am_artifact_id (oa_meta a) = origin_result_artifact_id sha256 tid (oa_ordinal a) \<and>
        am_digest (oa_meta a) = digest_compute sha256 (oa_content a))"
proof (induction artifacts arbitrary: n aggregate records)
  case (Cons a artifacts)
  from Cons.prems obtain rest where
    "validate_origin_loop sha256 tid (oa_ordinal a + 1) (aggregate + length (oa_content a)) artifacts = Inr rest"
    "records = origin_record sha256 a # rest"
    "am_task_id (oa_meta a) = tid \<and> am_artifact_id (oa_meta a) = origin_result_artifact_id sha256 tid (oa_ordinal a) \<and>
        am_digest (oa_meta a) = digest_compute sha256 (oa_content a)"
    by (auto simp: Let_def bindR_eq_Inr ensure_def split: if_splits)
  with Cons.IH show ?case by auto
qed simp

lemma validated:
  assumes "validate_origin_result_artifacts sha256 tid artifacts = Inr records"
  shows "records = map (origin_record sha256) artifacts" and "zip artifacts records = origin_pairs sha256 artifacts"
    and "a \<in> set artifacts \<Longrightarrow> am_task_id (oa_meta a) = tid \<and>
      am_artifact_id (oa_meta a) = origin_result_artifact_id sha256 tid (oa_ordinal a) \<and>
      am_digest (oa_meta a) = digest_compute sha256 (oa_content a)"
proof -
  note v = validated_loop [OF assms [unfolded validate_origin_result_artifacts_def]]
  then show r: "records = map (origin_record sha256) artifacts" by simp
  show "zip artifacts records = origin_pairs sha256 artifacts"
    unfolding r by (induction artifacts) simp_all
  show "a \<in> set artifacts \<Longrightarrow> am_task_id (oa_meta a) = tid \<and>
      am_artifact_id (oa_meta a) = origin_result_artifact_id sha256 tid (oa_ordinal a) \<and>
      am_digest (oa_meta a) = digest_compute sha256 (oa_content a)"
    using v by blast
qed

text \<open>
  What the daemon supplies: media types are values of the newtype, and no content collides under
  SHA-256 with another one of the result or with stored content.
\<close>

definition collision_free :: "(bytes \<Rightarrow> bytes) \<Rightarrow> artifact_map \<Rightarrow> origin_result_artifact list \<Rightarrow> bool" where
  "collision_free sha256 m artifacts \<longleftrightarrow>
     (let contents = oa_content ` set artifacts \<union> {c. \<exists>k r. fmlookup m k = Some (r, c)} in
      \<forall>c \<in> contents. \<forall>c' \<in> contents. digest_compute sha256 c = digest_compute sha256 c' \<longrightarrow> c = c')"

definition fresh_origin_artifacts ::
  "artifact_map \<Rightarrow> task_id \<Rightarrow> origin_result_artifact list \<Rightarrow> bool" where
  "fresh_origin_artifacts m tid artifacts \<longleftrightarrow>
     distinct (map (\<lambda>a. am_artifact_id (oa_meta a)) artifacts) \<and>
     (\<forall>a \<in> set artifacts. fmlookup m (am_artifact_id (oa_meta a)) = None \<and>
        media_type_new (am_media_type (oa_meta a)) = am_media_type (oa_meta a)) \<and>
     (\<forall>k r c. fmlookup m k = Some (r, c) \<longrightarrow> ar_task_id r \<noteq> tid)"

lemma origin_contents:
  assumes h: "sql_holds sha256 (db, fs) m" and free: "collision_free sha256 m artifacts"
  shows "\<exists>content. blob_contents sha256 content fs (origin_pairs sha256 artifacts)"
proof -
  let ?content = "\<lambda>d. SOME c. c \<in> oa_content ` set artifacts \<and> digest_compute sha256 c = d"
  have rep: "artifact_rows sha256 (db_artifacts db) m" and hold: "blobs_hold db fs m"
    using h by (simp_all add: sql_holds_def)
  have "?content (digest_compute sha256 (oa_content a)) = oa_content a" if "a \<in> set artifacts" for a
  proof -
    have "?content (digest_compute sha256 (oa_content a)) \<in> oa_content ` set artifacts \<and>
        digest_compute sha256 (?content (digest_compute sha256 (oa_content a))) = digest_compute sha256 (oa_content a)"
      by (rule someI [of _ "oa_content a"]) (use that in simp)
    with that free show ?thesis
      unfolding collision_free_def Let_def by blast
  qed
  moreover have "c = oa_content a"
    if a: "a \<in> set artifacts" and c: "fmlookup fs (digest_compute sha256 (oa_content a)) = Some c" for a c
  proof -
    have "0 < blob_refs m (digest_compute sha256 (oa_content a))"
      using hold c unfolding blobs_hold_def tally_def by (metis gr0I option.distinct(1))
    then obtain k r c' where r: "fmlookup m k = Some (r, c')" "\<not> ar_inline r" "ar_digest r = digest_compute sha256 (oa_content a)"
      by (rule blob_refsE)
    with hold c have "c' = c" by (fastforce simp: blobs_hold_def)
    moreover have "digest_compute sha256 c' = digest_compute sha256 (oa_content a)"
      using r artifact_rows_ok [OF rep r(1)] by simp
    ultimately show ?thesis
      using r(1) a free unfolding collision_free_def Let_def by blast
  qed
  ultimately have "blob_contents sha256 ?content fs (origin_pairs sha256 artifacts)"
    by (auto simp: blob_contents_def artifact_record_from_meta_def)
  then show ?thesis by blast
qed

lemma origin_artifact_ok:
  assumes sha: "sha_ok sha256" and v: "validate_origin_result_artifacts sha256 tid artifacts = Inr records"
    and tid: "valid_id tid" and new: "fresh_origin_artifacts m tid artifacts" and a: "a \<in> set artifacts"
  shows "artifact_ok sha256 (origin_record sha256 a, oa_content a)"
  using validated(3) [OF v a] new a tid origin_result_artifact_id_valid sha
  by (auto simp: artifact_ok_def valid_artifact_def artifact_record_from_meta_def fresh_origin_artifacts_def
      digest_new_compute sha_ok_def)

end
