(* ===== verification/Remote_Effects.thy ===== *)
theory Remote_Effects
  imports Remote_Files
begin

text \<open>
  The effect of the ingest on the store: nothing changes unless the result is applied, and a result the
  task waits for is applied with its artifacts and recognised as a duplicate when it is delivered again.
\<close>

section \<open>The task\<close>

text \<open>A status change of a task without a lease: the statement, the state it leads to, and its frame.\<close>

abbreviation moved :: "task_id \<Rightarrow> task_record \<Rightarrow> event_type \<Rightarrow> task_status \<Rightarrow> mem_state \<Rightarrow> mem_state" where
  "moved tid t ty to s \<equiv> put_task tid (t\<lparr>tr_status := to\<rparr>) (append_in_memory_event tid ty (Some (tr_status t)) to s)"

lemma move_event:
  assumes m: "matches owner db s" and t: "fmlookup (ms_tasks s) tid = Some t"
    and none: "fmlookup (ms_leases s) tid = None" and tr: "validate_transition (tr_status t) to = Inr tr"
  shows "\<exists>db'. insert_event tid (next_sequence_with_executor tid db) (tt_event_type tr) (Some (tr_status t)) to
      (update_task_status_with_executor tid to db) = Inr db' \<and>
    matches owner db' (moved tid t (tt_event_type tr) to s) \<and> frame_of db' = frame_of db"
proof -
  from event_keep [OF m t task_step_transition [OF tr] refl refl, of "\<lambda>r. r\<lparr>tk_status := status_to_str to\<rparr>"] none
  obtain db' where db': "insert_event tid (next_sequence_with_executor tid db) (tt_event_type tr) (Some (tr_status t)) to
      (update_task_status_with_executor tid to db) = Inr db'" "matches owner db' (moved tid t (tt_event_type tr) to s)"
    by (auto simp: task_to_row_def update_task_status_with_executor_def)
  moreover have "frame_of db' = frame_of db"
    using db'(1) by (auto dest!: frame_dests simp: update_task_status_with_executor_def)
  ultimately show ?thesis by blast
qed

lemma moved_fields:
  "ms_leases (put_task tid t' (append_in_memory_event tid ty from to s)) = ms_leases s"
  "ms_terminal_results (put_task tid t' (append_in_memory_event tid ty from to s)) = ms_terminal_results s"
  "ms_transport_contexts (put_task tid t' (append_in_memory_event tid ty from to s)) = ms_transport_contexts s"
  "fmlookup (ms_tasks (put_task tid t' s)) tid = Some t'"
  by (simp_all add: mem_updates)

definition settled_by :: "task_event_record \<Rightarrow> remote_result_terminal_reason option" where
  "settled_by event = terminal_event_reason (ev_event_type event)"

text \<open>The remote result moves the task to its terminal status, through \<open>Running\<close> if it was pending.\<close>

lemma remote_transition:
  assumes m: "matches owner db s" and t: "fmlookup (ms_tasks s) tid = Some t" "\<not> is_terminal (tr_status t)"
    and none: "fmlookup (ms_leases s) tid = None" and st: "is_terminal st"
  obtains t1 db1 tr db2 s2 h where "start_remote_task t tid db = Inr (t1, db1)"
    and "validate_transition (tr_status t1) st = Inr tr"
    and "set_status_with_event tid st (next_sequence_with_executor tid db1) (tt_event_type tr) (tt_from tr) (tt_to tr) db1 = Inr db2"
    and "matches owner db2 s2" and "frame_of db2 = frame_of db"
    and "fmlookup (ms_tasks s2) tid = Some (t\<lparr>tr_status := st\<rparr>)" and "ms_terminal_results s2 = ms_terminal_results s"
    and "ms_transport_contexts s2 = ms_transport_contexts s"
    and "mem_history s2 tid = mem_history s tid @ h" and "list_all (\<lambda>e. settled_by e = None) h"
proof -
  have last: "\<exists>tr db2. validate_transition Running st = Inr tr \<and>
      set_status_with_event tid st (next_sequence_with_executor tid db1) (tt_event_type tr) (tt_from tr) (tt_to tr) db1 = Inr db2 \<and>
      matches owner db2 (moved tid t1 (tt_event_type tr) st s1) \<and> frame_of db2 = frame_of db1 \<and>
      terminal_event_reason (tt_event_type tr) = None"
    if m1: "matches owner db1 s1" "fmlookup (ms_tasks s1) tid = Some t1" "fmlookup (ms_leases s1) tid = None" "tr_status t1 = Running"
    for db1 s1 t1
  proof -
    obtain tr where tr: "validate_transition Running st = Inr tr" "terminal_event_reason (tt_event_type tr) = None"
      using st by (cases st) (auto simp: validate_transition_Inr lifecycle_iff)
    with move_event [OF m1(1-3), of st tr] validate_transition_fields [OF tr(1)] m1(4) show ?thesis
      by (auto simp: set_status_with_event_def)
  qed
  show thesis
  proof (cases "tr_status t = Pending")
    case True
    have start: "validate_transition (tr_status t) Running =
        Inr \<lparr>tt_from = Pending, tt_to = Running, tt_event_type = TaskStarted\<rparr>"
      by (simp add: True validate_transition_Inr lifecycle_iff)
    from move_event [OF m t(1) none start] obtain db1 where db1:
      "start_remote_task t tid db = Inr (t\<lparr>tr_status := Running\<rparr>, db1)"
      "matches owner db1 (moved tid t TaskStarted Running s)" "frame_of db1 = frame_of db"
      using True by (auto simp: start_remote_task_def)
    from last [OF db1(2), of "t\<lparr>tr_status := Running\<rparr>"] none obtain tr db2 where db2:
      "validate_transition Running st = Inr tr"
      "set_status_with_event tid st (next_sequence_with_executor tid db1) (tt_event_type tr) (tt_from tr) (tt_to tr) db1 = Inr db2"
      "matches owner db2 (moved tid (t\<lparr>tr_status := Running\<rparr>) (tt_event_type tr) st (moved tid t TaskStarted Running s))"
      "frame_of db2 = frame_of db1" "terminal_event_reason (tt_event_type tr) = None"
      by (auto simp: moved_fields)
    show thesis
      by (rule that [OF db1(1) _ db2(2,3)]) (use db1 db2 in \<open>simp_all add: moved_fields history_append settled_by_def\<close>, simp)
  next
    case False
    with t(2) have run: "tr_status t = Running" by (cases "tr_status t") auto
    from last [OF m t(1) none run] obtain tr db2 where db2:
      "validate_transition Running st = Inr tr"
      "set_status_with_event tid st (next_sequence_with_executor tid db) (tt_event_type tr) (tt_from tr) (tt_to tr) db = Inr db2"
      "matches owner db2 (moved tid t (tt_event_type tr) st s)" "frame_of db2 = frame_of db"
      "terminal_event_reason (tt_event_type tr) = None"
      by blast
    have "start_remote_task t tid db = Inr (t, db)"
      using run by (simp add: start_remote_task_def)
    then show thesis
      by (rule that [OF _ _ db2(2,3)]) (use run db2 in \<open>simp_all add: moved_fields history_append settled_by_def\<close>, simp)
  qed
qed

text \<open>A task that is still alive was neither canceled nor timed out.\<close>

lemma replay_settled:
  assumes "replay_event tid st dl ty to = Inr (st', dl')"
  shows "is_terminal st \<longrightarrow> st' = st" and "terminal_event_reason ty \<noteq> None \<longrightarrow> is_terminal st'"
  using assms
  by (cases ty; cases st; auto simp: replay_event_def Let_def bindR_eq_Inr validate_transition_Inr lifecycle_iff
      validate_cancel_transition_Inr recovery_target_def split: if_splits)+

lemma replay_loop_alive:
  "replay_loop tid n st dl evs = Inr (st', dl') \<Longrightarrow>
     (is_terminal st \<longrightarrow> st' = st) \<and> (\<not> is_terminal st' \<longrightarrow> list_all (\<lambda>e. settled_by e = None) evs)"
proof (induction evs arbitrary: n st dl)
  case (Cons e evs)
  then obtain st1 dl1 where e: "replay_event tid st dl (ev_event_type e) (ev_to_status e) = Inr (st1, dl1)"
    "replay_loop tid (n + 1) st1 dl1 evs = Inr (st', dl')"
    by (auto simp: bindR_eq_Inr split: if_splits)
  from replay_settled [OF e(1)] Cons.IH [OF e(2)] show ?case
    by (auto simp: settled_by_def)
qed simp

lemma alive_history:
  assumes "matches owner db s" and "fmlookup (ms_tasks s) tid = Some t" and "\<not> is_terminal (tr_status t)"
  shows "list_all (\<lambda>e. settled_by e = None) (mem_history s tid)"
  using matches_sourced [OF assms(1), of tid] assms(2,3)
  by (auto simp: sourced_def mem_observe_def replays_to_def settled_by_def accepted_event_def dest!: replay_loop_alive)

section \<open>Nothing changes unless the result is applied\<close>

lemma fetch_is_get: "fetch_task_with_executor tid db = sql_get_task tid db"
  by (simp add: fetch_task_with_executor_def fetch_task_optional_with_executor_def sql_get_task_def bindR_def ok_or_def
      split: option.split sum.split)

lemma row_to_task_status:
  assumes "row_to_task row = Inr t"
  shows "row_to_task (row\<lparr>tk_status := status_to_str st\<rparr>) = Inr (t\<lparr>tr_status := st\<rparr>)"
proof -
  from assms obtain i status key where "id_of task_id_new (tk_task_id row) = Inr i"
    "transposeR (map_option (id_of idempotency_key_new) (tk_idempotency_key row)) = Inr key"
    "t = \<lparr>tr_id = i, tr_status = status, tr_idempotency_key = key, tr_deadline_ms = tk_deadline_ms row,
       tr_retry_count = word_of_int (max 0 (tk_retry_count row)), tr_dead_lettered = (tk_dead_lettered row \<noteq> 0),
       tr_dead_letter_reason = tk_dead_letter_reason row\<rparr>"
    unfolding row_to_task_def bindR_eq_Inr by (elim exE conjE) (rule that, assumption, assumption, erule Inr_inject [THEN sym])
  then show ?thesis
    by (simp add: row_to_task_def)
qed

lemma get_task_status:
  assumes "sql_get_task tid db = Inr t"
  shows "sql_get_task tid (update_task_status_with_executor tid st db) = Inr (t\<lparr>tr_status := st\<rparr>)"
proof -
  obtain row where row: "find (\<lambda>r. tk_task_id r = tid) (db_tasks db) = Some row" "row_to_task row = Inr t"
    using assms by (auto simp: sql_get_task_def bindR_eq_Inr ok_or_def split: option.splits)
  have "find (\<lambda>r. tk_task_id r = tid) (map (\<lambda>r. if tk_task_id r = tid then r\<lparr>tk_status := x\<rparr> else r) rows) =
      map_option (\<lambda>r. r\<lparr>tk_status := x\<rparr>) (find (\<lambda>r. tk_task_id r = tid) rows)" for x and rows :: "task_row list"
    by (induction rows) auto
  with row show ?thesis
    by (simp add: sql_get_task_def update_task_status_with_executor_def update_tasks_where_def row_to_task_status)
qed

lemma get_task_inserts:
  "insert_event tid' n ty from to db = Inr db' \<Longrightarrow> sql_get_task tid db' = sql_get_task tid db"
  "insert_terminal_result_only r db = Inr db' \<Longrightarrow> sql_get_task tid db' = sql_get_task tid db"
  by (auto simp: insert_event_def insert_terminal_result_only_def bindR_eq_Inr ensure_def sql_get_task_def)

lemma get_task_artifacts: "insert_artifacts_loop pairs db = Inr db' \<Longrightarrow> sql_get_task tid db' = sql_get_task tid db"
proof (induction pairs arbitrary: db)
  case (Cons p pairs)
  then show ?case
    by (cases p) (auto simp: insert_origin_artifact_def bindR_eq_Inr ensure_def sql_get_task_def
        increment_blob_ref_with_executor_def split: if_splits)
qed simp

text \<open>Once applied the task can be read, in its terminal status; it was alive before.\<close>

lemma applied_task:
  assumes tx: "apply_remote_in_tx r pairs t db = Inr db'" and t: "sql_get_task (tm_task_id r) db = Inr t"
  shows "sql_get_task (tm_task_id r) db' = Inr (t\<lparr>tr_status := tm_terminal_status r\<rparr>) \<and>
    (is_terminal (tm_terminal_status r) \<longrightarrow> \<not> is_terminal (tr_status t))"
proof -
  let ?tid = "tm_task_id r" and ?st = "tm_terminal_status r"
  from tx obtain t1 db1 tr db2 db3 where steps: "start_remote_task t ?tid db = Inr (t1, db1)"
    "validate_transition (tr_status t1) ?st = Inr tr"
    "insert_event ?tid (next_sequence_with_executor ?tid db1) (tt_event_type tr) (Some (tt_from tr)) (tt_to tr)
       (update_task_status_with_executor ?tid ?st db1) = Inr db2"
    "insert_artifacts_loop pairs db2 = Inr db3" "insert_terminal_result_only r db3 = Inr db'"
    by (auto simp: apply_remote_in_tx_def Let_def bindR_eq_Inr set_status_with_event_def map_err_eq_Inr)
  have "sql_get_task ?tid db1 = Inr t1 \<and> t1\<lparr>tr_status := ?st\<rparr> = t\<lparr>tr_status := ?st\<rparr> \<and>
      (is_terminal (tr_status t) \<longrightarrow> tr_status t1 = tr_status t)"
    using steps(1) t get_task_status [OF t, of Running]
    by (auto simp: start_remote_task_def bindR_eq_Inr get_task_inserts split: if_splits)
  moreover from this have "sql_get_task ?tid db' = Inr (t1\<lparr>tr_status := ?st\<rparr>)"
    using steps(3-5) get_task_status [of ?tid db1 t1 ?st] by (simp add: get_task_inserts get_task_artifacts)
  moreover have "is_terminal ?st \<Longrightarrow> \<not> is_terminal (tr_status t1)"
    using steps(2) by (cases "tr_status t1") (auto simp: validate_transition_Inr lifecycle_iff)
  ultimately show ?thesis by auto
qed

lemma ingest_apply_cases:
  assumes h: "sql_holds sha256 (db, fs) m" and free: "collision_free sha256 m artifacts"
    and t: "sql_get_task (tm_task_id r) db = Inr t"
  shows "(\<exists>e. ingest_apply sha256 r (origin_pairs sha256 artifacts) t (db, fs) = (Inl e, db, fs)) \<or>
    (\<exists>db' fs'. apply_remote_in_tx r (origin_pairs sha256 artifacts) t db = Inr db' \<and>
      ingest_apply sha256 r (origin_pairs sha256 artifacts) t (db, fs) =
        (Inr (Applied (t\<lparr>tr_status := tm_terminal_status r\<rparr>)), db', fs'))"
proof -
  have tally: "tally db fs (blob_refs m)"
    using h by (simp add: sql_holds_def blobs_hold_def)
  obtain content where "blob_contents sha256 content fs (origin_pairs sha256 artifacts)"
    using origin_contents [OF h free] by blast
  from prepared_blobs [OF tally this] obtain prepared fs' where
    p: "prepare_blobs_loop sha256 db (origin_pairs sha256 artifacts) [] [] fs = (Inr prepared, fs')"
      "rollback_prepared prepared fs' = fs" .
  show ?thesis
  proof (cases "apply_remote_in_tx r (origin_pairs sha256 artifacts) t db")
    case (Inl e)
    with p show ?thesis by (simp add: ingest_apply_def)
  next
    case (Inr db')
    with p applied_task [OF Inr t] show ?thesis by (simp add: ingest_apply_def)
  qed
qed

definition unless_applied ::
  "(store_error + remote_result_ingest_outcome) \<times> sql_db \<times> blob_dir \<Rightarrow> (task_record \<Rightarrow> sql_db \<Rightarrow> bool) \<Rightarrow> sql_db \<times> blob_dir \<Rightarrow> bool"
where
  "unless_applied out P st = (case out of (Inr (Applied t), db', _) \<Rightarrow> P t db' | (_, st') \<Rightarrow> st' = st)"

lemma unless_applied_simps [simp]:
  "unless_applied (Inl e, st') P st \<longleftrightarrow> st' = st"
  "unless_applied (Inr (Duplicate t), st') P st \<longleftrightarrow> st' = st"
  "unless_applied (Inr (SettledTerminal t why res), st') P st \<longleftrightarrow> st' = st"
  "unless_applied (Inr (Applied t), db', fs') P st \<longleftrightarrow> P t db'"
  by (simp_all add: unless_applied_def)

lemma unless_applied_attempt:
  "(\<And>a. r = Inr a \<Longrightarrow> unless_applied (k a) P st) \<Longrightarrow> unless_applied (attempt r st k) P st"
  by (cases r) auto

lemma unless_applied_duplicate: "unless_applied (ingest_duplicate sha256 r artifacts records st, st) P st"
  by (cases "ingest_duplicate sha256 r artifacts records st")
    (auto simp: ingest_duplicate_def Let_def bindR_eq_Inr)

lemma ingest_unless_applied:
  assumes h: "sql_holds sha256 (db, fs) m" and free: "collision_free sha256 m artifacts"
  shows "unless_applied (ingest_remote_result_with_artifacts sha256 r artifacts peer (db, fs))
    (\<lambda>t' db'. tm_executor_peer_id r = peer \<and> (\<exists>ctx t. sql_get_transport_context (tm_task_id r) db = Inr ctx \<and>
       tc_expected_executor_peer_id ctx = Some peer \<and>
       sql_get_task (tm_task_id r) db = Inr t \<and> \<not> is_terminal (tr_status t) \<and>
       t' = t\<lparr>tr_status := tm_terminal_status r\<rparr> \<and> sql_get_task (tm_task_id r) db' = Inr t' \<and>
       sql_get_terminal_result (tm_task_id r) db = Inl (TerminalResultNotFound (tm_task_id r)))) (db, fs)"
proof -
  have leaf: "unless_applied (ingest_apply sha256 r (origin_pairs sha256 artifacts) t (db, fs)) P (db, fs)"
    if t: "sql_get_task (tm_task_id r) db = Inr t" "is_terminal (tm_terminal_status r)"
      and P: "\<And>db'. sql_get_task (tm_task_id r) db' = Inr (t\<lparr>tr_status := tm_terminal_status r\<rparr>) \<Longrightarrow>
        \<not> is_terminal (tr_status t) \<Longrightarrow> P (t\<lparr>tr_status := tm_terminal_status r\<rparr>) db'"
    for t P
    using ingest_apply_cases [OF h free t(1)] applied_task [OF _ t(1)] t(2) P by auto
  show ?thesis
    unfolding ingest_remote_result_with_artifacts_def Let_def fetch_is_get fst_conv
      sql_get_transport_context_def [symmetric]
    by (intro unless_applied_attempt)
      (auto simp: validated(2) unless_applied_duplicate validate_result_def ensure_def sql_get_terminal_result_def ok_or_def
        intro!: unless_applied_attempt leaf split: option.split if_splits)
qed

section \<open>A delivered result is applied, and recognised when it comes again\<close>

lemma matches_files:
  "matches owner (db\<lparr>db_blobs := blobs, db_artifacts := rows\<rparr>) s \<longleftrightarrow> matches owner db s"
  by (simp add: matches_def)

lemma insert_result_only:
  assumes m: "matches owner db s" and t: "fmlookup (ms_tasks s) tid = Some t" "is_terminal (tr_status t)"
    and none: "fmlookup (ms_terminal_results s) tid = None"
    and r: "tm_task_id r = tid" "is_terminal (tm_terminal_status r)" "valid_result r" "tm_return_peer_id r = None"
  shows "\<exists>db'. insert_terminal_result_only r db = Inr db' \<and> matches owner db' (put_result tid r s) \<and> frame_of db' = frame_of db"
proof -
  have "insert_terminal_result_and_outbox r db = insert_terminal_result_only r db"
    using r(4) by (simp add: insert_terminal_result_and_outbox_def make_outbox_def bindR_def split: sum.split)
  with insert_result [OF m t none r(1-3)] obtain db' where
    "insert_terminal_result_only r db = Inr db'" "matches owner db' (put_result tid r s)" by auto
  moreover from this have "frame_of db' = frame_of db"
    by (auto simp: insert_terminal_result_only_def bindR_eq_Inr ensure_def frame_of_def split: if_splits)
  ultimately show ?thesis by blast
qed

abbreviation origin_rows :: "(origin_result_artifact \<times> artifact_record) list \<Rightarrow> artifact_row list" where
  "origin_rows pairs \<equiv> map (\<lambda>(a, r). artifact_to_row r (oa_content a)) pairs"

lemma apply_succeeds:
  assumes m: "matches owner db s" and t: "fmlookup (ms_tasks s) tid = Some t" "\<not> is_terminal (tr_status t)"
    and free: "fmlookup (ms_leases s) tid = None" "fmlookup (ms_terminal_results s) tid = None"
    and r: "tm_task_id r = tid" "is_terminal (tm_terminal_status r)" "valid_result r" "tm_return_peer_id r = None"
    and h: "sql_holds sha256 (db, fs) m0" and c: "blob_contents sha256 content fs pairs"
    and ok: "\<forall>a r. (a, r) \<in> set pairs \<longrightarrow> artifact_ok sha256 (r, oa_content a)"
    and new: "distinct (map (\<lambda>(a, r). ar_artifact_id r) pairs)"
      "\<forall>a r. (a, r) \<in> set pairs \<longrightarrow> fmlookup m0 (ar_artifact_id r) = None"
    and fs': "\<forall>d. fmlookup fs' d = (if d \<in> new_digests pairs then Some (content d) else fmlookup fs d)"
  obtains db' s' hist where "apply_remote_in_tx r pairs t db = Inr db'" and "matches owner db' s'"
    and "sql_holds sha256 (db', fs') (store_pairs pairs m0)" and "db_artifacts db' = db_artifacts db @ origin_rows pairs"
    and "fmlookup (ms_tasks s') tid = Some (t\<lparr>tr_status := tm_terminal_status r\<rparr>)"
    and "fmlookup (ms_terminal_results s') tid = Some r" and "ms_transport_contexts s' = ms_transport_contexts s"
    and "mem_history s' tid = mem_history s tid @ hist" and "list_all (\<lambda>e. settled_by e = None) hist"
proof -
  from remote_transition [OF m t free(1) r(2)] obtain t1 db1 tr db2 s2 hist where
    steps: "start_remote_task t tid db = Inr (t1, db1)" "validate_transition (tr_status t1) (tm_terminal_status r) = Inr tr"
      "set_status_with_event tid (tm_terminal_status r) (next_sequence_with_executor tid db1) (tt_event_type tr) (tt_from tr)
         (tt_to tr) db1 = Inr db2"
    and m2: "matches owner db2 s2" "frame_of db2 = frame_of db" "fmlookup (ms_tasks s2) tid = Some (t\<lparr>tr_status := tm_terminal_status r\<rparr>)"
      "ms_terminal_results s2 = ms_terminal_results s" "ms_transport_contexts s2 = ms_transport_contexts s"
      "mem_history s2 tid = mem_history s tid @ hist" "list_all (\<lambda>e. settled_by e = None) hist" .
  have files: "db_artifacts db2 = db_artifacts db" "db_blobs db2 = db_blobs db"
    using m2(2) by (simp_all add: frame_of_def)
  have "\<exists>blobs. let db3 = db2\<lparr>db_blobs := blobs, db_artifacts := db_artifacts db @ origin_rows pairs\<rparr> in
      insert_artifacts_loop pairs db2 = Inr db3 \<and> sql_holds sha256 (db3, fs') (store_pairs pairs m0)"
    by (rule insert_artifacts_holds [OF h c _ new(1) _ fs' [rule_format] files]) (use ok new(2) in auto)
  then obtain blobs where
    db3: "insert_artifacts_loop pairs db2 = Inr (db2\<lparr>db_blobs := blobs, db_artifacts := db_artifacts db @ origin_rows pairs\<rparr>)"
      "sql_holds sha256 (db2\<lparr>db_blobs := blobs, db_artifacts := db_artifacts db @ origin_rows pairs\<rparr>, fs') (store_pairs pairs m0)"
    by (auto simp: Let_def)
  let ?db3 = "db2\<lparr>db_blobs := blobs, db_artifacts := db_artifacts db @ origin_rows pairs\<rparr>"
  have m3: "matches owner ?db3 s2"
    using m2(1) by (simp add: matches_files)
  have none: "fmlookup (ms_terminal_results s2) tid = None"
    using m2(4) free(2) by simp
  from insert_result_only [OF m3 m2(3) _ none r] r(2) obtain db' where
    db': "insert_terminal_result_only r ?db3 = Inr db'" "matches owner db' (put_result tid r s2)" "frame_of db' = frame_of ?db3"
    by auto
  have "apply_remote_in_tx r pairs t db = Inr db'"
    using steps db3(1) db'(1) r(1) by (simp add: apply_remote_in_tx_def Let_def)
  moreover have "sql_holds sha256 (db', fs') (store_pairs pairs m0)" "db_artifacts db' = db_artifacts db @ origin_rows pairs"
    using db3(2) db'(3) blobs_hold_cong [of db' ?db3] by (simp_all add: sql_holds_def frame_of_def)
  ultimately show thesis
    by (rule that [OF _ db'(2)])
      (use m2 in \<open>simp_all add: put_result_def mem_history_def make_outbox_def r(4)\<close>)
qed

text \<open>After the result is applied no event settles the task another way.\<close>

lemma find_map_None: "list_all (\<lambda>x. f x = None) xs \<Longrightarrow> find_map f xs = None"
  by (induction xs) auto

lemma no_terminal_reason:
  assumes m: "matches owner db s" and t: "fmlookup (ms_tasks s) tid = Some t"
    and hist: "list_all (\<lambda>e. settled_by e = None) (mem_history s tid)"
  shows "remote_result_terminal_reason_with_executor t db = Inr None"
proof -
  have "tr_id t = tid"
    using matches_valid_task [OF m t] by simp
  moreover have "replay_task_from_snapshot_and_events t (mem_history s tid) = Inr t"
    using sourced_replay [of tid t "mem_history s tid"] matches_sourced [OF m, of tid] t by (simp add: mem_observe_def)
  moreover have "find_map settled_by (rev (mem_history s tid)) = None"
    using hist by (intro find_map_None) (simp add: list_all_iff)
  ultimately show ?thesis
    by (simp add: remote_result_terminal_reason_with_executor_def select_events_rows [OF m] decode_history [OF m] settled_by_def [abs_def])
qed

lemma check_unused:
  "artifact_rows sha256 (db_artifacts db) m \<Longrightarrow> \<forall>r \<in> set records. fmlookup m (ar_artifact_id r) = None \<Longrightarrow>
     check_unused_loop records db = Inr ()"
  by (induction records) (simp_all add: fetch_artifact)

lemma check_persisted:
  "sql_holds sha256 st m \<Longrightarrow>
     \<forall>a \<in> set artifacts. \<exists>r. fmlookup m (am_artifact_id (oa_meta a)) = Some (r, oa_content a) \<Longrightarrow>
     check_persisted_loop sha256 artifacts st = Inr ()"
  by (induction artifacts) (auto simp: get_artifact_law)

lemma origin_record_fields [simp]:
  "ar_artifact_id (origin_record sha256 a) = am_artifact_id (oa_meta a)"
  "ar_task_id (origin_record sha256 a) = am_task_id (oa_meta a)"
  by (simp_all add: artifact_record_from_meta_def)

lemma stored_origin_records:
  assumes rows: "artifact_rows sha256 (db_artifacts db) m" and others: "\<And>k r c. fmlookup m k = Some (r, c) \<Longrightarrow> ar_task_id r \<noteq> tid"
    and db': "db_artifacts db' = db_artifacts db @ origin_rows (origin_pairs sha256 artifacts)"
    and ok: "\<And>a. a \<in> set artifacts \<Longrightarrow> artifact_ok sha256 (origin_record sha256 a, oa_content a) \<and> am_task_id (oa_meta a) = tid"
  shows "fetch_artifacts_for_task_with_executor tid db' = Inr (map (origin_record sha256) artifacts)"
proof -
  have "af_task_id row \<noteq> tid" if row: "row \<in> set (db_artifacts db)" for row
  proof -
    from represents_row [OF rows row] obtain p where
      "fmlookup m (af_artifact_id row) = Some p" "row = artifact_to_row (fst p) (snd p)" .
    with others [of _ "fst p" "snd p"] show ?thesis by (auto simp: artifact_to_row_def)
  qed
  then have "filter (\<lambda>r. af_task_id r = tid) (db_artifacts db) = []" by simp
  moreover have "filter (\<lambda>r. af_task_id r = tid) (origin_rows (origin_pairs sha256 artifacts)) = origin_rows (origin_pairs sha256 artifacts)"
    using ok by (auto simp: artifact_to_row_def)
  moreover have "mapR row_to_artifact (origin_rows (origin_pairs sha256 artifacts)) = Inr (map (origin_record sha256) artifacts)"
    using ok by (induction artifacts) (auto simp: artifact_ok_def)
  ultimately show ?thesis
    by (simp add: fetch_artifacts_for_task_with_executor_def db')
qed

text \<open>
  \<open>awaits_result\<close>: the task waits for its result from \<open>peer\<close>. It is alive and not leased on this node,
  it was sent to \<open>peer\<close>, and has no result yet.
\<close>

definition awaits_result :: "sql_db \<Rightarrow> task_id \<Rightarrow> peer_id \<Rightarrow> task_record \<Rightarrow> bool" where
  "awaits_result db tid peer t \<longleftrightarrow>
     sql_get_task tid db = Inr t \<and> \<not> is_terminal (tr_status t) \<and> sql_active_lease tid db = Inr None \<and>
     (\<exists>ctx. sql_get_transport_context tid db = Inr ctx \<and> tc_expected_executor_peer_id ctx = Some peer) \<and>
     sql_get_terminal_result tid db = Inl (TerminalResultNotFound tid)"

definition remote_result_ok :: "terminal_result \<Rightarrow> peer_id \<Rightarrow> bool" where
  "remote_result_ok r peer \<longleftrightarrow>
     valid_result r \<and> is_terminal (tm_terminal_status r) \<and> tm_return_peer_id r = None \<and> tm_executor_peer_id r = peer"

lemma awaits_matches:
  assumes m: "matches owner db s" and "awaits_result db tid peer t"
  obtains ctx where "fmlookup (ms_tasks s) tid = Some t" and "\<not> is_terminal (tr_status t)"
    and "fmlookup (ms_leases s) tid = None" and "fmlookup (ms_transport_contexts s) tid = Some ctx"
    and "tc_expected_executor_peer_id ctx = Some peer" and "fmlookup (ms_terminal_results s) tid = None"
  using assms(2) that unfolding awaits_result_def query_rows [OF m]
  by (auto simp: mem_get_task_def mem_active_lease_def mem_get_transport_context_def mem_get_terminal_result_def
      find_task_def ok_or_def split: option.splits)

text \<open>The ingest up to the choice between its two ends.\<close>

lemma ingest_prefix:
  assumes m: "matches owner db s" and s: "fmlookup (ms_tasks s) (tm_task_id r) = Some t"
      "fmlookup (ms_transport_contexts s) (tm_task_id r) = Some ctx" "tc_expected_executor_peer_id ctx = Some peer"
    and r: "remote_result_ok r peer" and v: "validate_origin_result_artifacts sha256 (tm_task_id r) artifacts = Inr records"
    and reason: "remote_result_terminal_reason_with_executor t db = Inr None"
  shows "fmlookup (ms_terminal_results s) (tm_task_id r) = Some r \<Longrightarrow>
      ingest_remote_result_with_artifacts sha256 r artifacts peer (db, fs) =
        (ingest_duplicate sha256 r artifacts records (db, fs), db, fs)"
    and "fmlookup (ms_terminal_results s) (tm_task_id r) = None \<Longrightarrow> check_unused_loop records db = Inr () \<Longrightarrow>
      ingest_remote_result_with_artifacts sha256 r artifacts peer (db, fs) =
        ingest_apply sha256 r (zip artifacts records) t (db, fs)"
  using r v reason s
  by (simp_all add: ingest_remote_result_with_artifacts_def Let_def remote_result_ok_def validate_result_def fetches [OF m]
      find_task_def)

lemma origin_ready:
  assumes sha: "sha_ok sha256" and tid: "valid_id tid"
    and v: "validate_origin_result_artifacts sha256 tid artifacts = Inr records" and new: "fresh_origin_artifacts m tid artifacts"
  shows "a \<in> set artifacts \<Longrightarrow> artifact_ok sha256 (origin_record sha256 a, oa_content a) \<and> am_task_id (oa_meta a) = tid"
    and "\<forall>a r. (a, r) \<in> set (origin_pairs sha256 artifacts) \<longrightarrow> artifact_ok sha256 (r, oa_content a)"
    and "distinct (map (\<lambda>(a, r). ar_artifact_id r) (origin_pairs sha256 artifacts))"
    and "\<forall>a r. (a, r) \<in> set (origin_pairs sha256 artifacts) \<longrightarrow> fmlookup m (ar_artifact_id r) = None"
  using origin_artifact_ok [OF sha v tid new] validated(3) [OF v] new
  by (auto simp: fresh_origin_artifacts_def comp_def)

lemma recognised:
  assumes m: "matches owner db s" and t: "fmlookup (ms_tasks s) (tm_task_id r) = Some t"
    and h: "sql_holds sha256 (db, fs) m0"
    and stored: "fetch_artifacts_for_task_with_executor (tm_task_id r) db = Inr records"
    and lookup: "\<forall>a \<in> set artifacts. \<exists>r. fmlookup m0 (am_artifact_id (oa_meta a)) = Some (r, oa_content a)"
  shows "ingest_duplicate sha256 r artifacts records (db, fs) = Inr (Duplicate t)"
  using check_persisted [OF h lookup] get_task [OF m, of "tm_task_id r"] t stored
  by (simp add: ingest_duplicate_def Let_def list_all_iff find_task_def)

lemma remote_result_delivered:
  assumes inv: "sql_inv owner db" and sha: "sha_ok sha256" and h: "sql_holds sha256 (db, fs) m0"
    and await: "awaits_result db (tm_task_id r) peer t" and r: "remote_result_ok r peer"
    and v: "validate_origin_result_artifacts sha256 (tm_task_id r) artifacts = Inr records"
    and free: "collision_free sha256 m0 artifacts" and new: "fresh_origin_artifacts m0 (tm_task_id r) artifacts"
  shows "\<exists>db' fs' m'. let t' = t\<lparr>tr_status := tm_terminal_status r\<rparr> in
    ingest_remote_result_with_artifacts sha256 r artifacts peer (db, fs) = (Inr (Applied t'), db', fs') \<and>
    ingest_remote_result_with_artifacts sha256 r artifacts peer (db', fs') = (Inr (Duplicate t'), db', fs') \<and>
    sql_inv owner db' \<and> sql_holds sha256 (db', fs') m' \<and> sql_get_terminal_result (tm_task_id r) db' = Inr r \<and>
    (\<forall>a \<in> set artifacts. sql_get_artifact sha256 (am_artifact_id (oa_meta a)) (db', fs') =
       Inr (origin_record sha256 a, oa_content a))"
proof -
  let ?tid = "tm_task_id r" and ?t = "t\<lparr>tr_status := tm_terminal_status r\<rparr>" and ?pairs = "origin_pairs sha256 artifacts"
  from inv obtain s where m: "matches owner db s" by (rule sql_invE)
  from awaits_matches [OF m await] obtain ctx where s: "fmlookup (ms_tasks s) ?tid = Some t" "\<not> is_terminal (tr_status t)"
    "fmlookup (ms_leases s) ?tid = None" "fmlookup (ms_transport_contexts s) ?tid = Some ctx"
    "tc_expected_executor_peer_id ctx = Some peer" "fmlookup (ms_terminal_results s) ?tid = None" .
  have r': "valid_result r" "is_terminal (tm_terminal_status r)" "tm_return_peer_id r = None" "valid_id ?tid"
    using r by (auto simp: remote_result_ok_def valid_result_def)
  have rows: "artifact_rows sha256 (db_artifacts db) m0" and tally: "tally db fs (blob_refs m0)"
    using h by (simp_all add: sql_holds_def blobs_hold_def)
  obtain content where c: "blob_contents sha256 content fs ?pairs"
    using origin_contents [OF h free] by blast
  obtain prepared fs' where
    p: "prepare_blobs_loop sha256 db ?pairs [] [] fs = (Inr prepared, fs')" "rollback_prepared prepared fs' = fs"
      "\<forall>d. fmlookup fs' d = (if d \<in> new_digests ?pairs then Some (content d) else fmlookup fs d)"
    by (rule prepared_blobs [OF tally c])
  note ready = origin_ready [OF sha r'(4) v new]
  obtain db' s' hist where
    tx: "apply_remote_in_tx r ?pairs t db = Inr db'" and m': "matches owner db' s'"
    and h': "sql_holds sha256 (db', fs') (store_pairs ?pairs m0)" and rows': "db_artifacts db' = db_artifacts db @ origin_rows ?pairs"
    and s': "fmlookup (ms_tasks s') ?tid = Some ?t" "fmlookup (ms_terminal_results s') ?tid = Some r"
      "ms_transport_contexts s' = ms_transport_contexts s"
      "mem_history s' ?tid = mem_history s ?tid @ hist" "list_all (\<lambda>e. settled_by e = None) hist"
    by (rule apply_succeeds [OF m s(1,2,3,6) refl r'(2,1,3) h c ready(2-4) p(3)])
  have lookup: "fmlookup (store_pairs ?pairs m0) (am_artifact_id (oa_meta a)) = Some (origin_record sha256 a, oa_content a)"
    if "a \<in> set artifacts" for a
    using store_pairs_lookup [OF ready(3), of a "origin_record sha256 a" m0] that by simp
  have alive: "list_all (\<lambda>e. settled_by e = None) (mem_history s ?tid)" "list_all (\<lambda>e. settled_by e = None) (mem_history s' ?tid)"
    using alive_history [OF m s(1,2)] s'(4,5) by simp_all
  have "check_unused_loop records db = Inr ()"
    by (rule check_unused [OF rows]) (use new in \<open>auto simp: validated(1) [OF v] fresh_origin_artifacts_def\<close>)
  from ingest_prefix(2) [OF m s(1,4,5) r v no_terminal_reason [OF m s(1) alive(1)] s(6) this, unfolded validated(2) [OF v]]
  have "ingest_remote_result_with_artifacts sha256 r artifacts peer (db, fs) = (Inr (Applied ?t), db', fs')"
    using p(1) tx get_task [OF m', of ?tid] s'(1) by (simp add: ingest_apply_def find_task_def)
  moreover have "fetch_artifacts_for_task_with_executor ?tid db' = Inr records"
    unfolding validated(1) [OF v] using new ready(1)
    by (intro stored_origin_records [OF rows _ rows']) (auto simp only: fresh_origin_artifacts_def)
  then have "ingest_duplicate sha256 r artifacts records (db', fs') = Inr (Duplicate ?t)"
    by (rule recognised [OF m' s'(1) h']) (use lookup in blast)
  then have "ingest_remote_result_with_artifacts sha256 r artifacts peer (db', fs') = (Inr (Duplicate ?t), db', fs')"
    using ingest_prefix(1) [OF m' s'(1) _ s(5) r v no_terminal_reason [OF m' s'(1) alive(2)] s'(2)] s(4) s'(3) by simp
  moreover have "sql_get_terminal_result ?tid db' = Inr r"
    using s'(2) by (simp add: query_rows [OF m'] mem_get_terminal_result_def)
  ultimately show ?thesis
    using m' h' lookup by (auto simp: Let_def sql_inv_def get_artifact_law [OF h'])
qed

end
