(* ===== verification/Sql_Lifecycle.thy ===== *)
theory Sql_Lifecycle
  imports Sql_Effects
begin

text \<open>
  The life of one task in the SQLite store, from its acceptance to its end: what accepting a new and
  a repeated submission does, what a lease says of its task, and how often a failing task is tried.
\<close>

section \<open>Acceptance\<close>

lemma key_stored:
  assumes inv: "matches owner db s" and u: "fmlookup (ms_tasks s) tid = Some u" "tr_idempotency_key u = Some k"
  shows "fmlookup (ms_idempotency s) k = Some tid" "valid_id tid"
proof -
  show "fmlookup (ms_idempotency s) k = Some tid"
    using matches_inv [OF inv] u by (auto simp: mem_inv_def idempotency_ok_def)
  then show "valid_id tid"
    using idempotency_task [OF inv, of "Some k"] by auto
qed

lemma accept_repeats:
  assumes inv: "sql_inv owner db" and adm: "sql_admissible owner (AcceptTask t)"
    and u: "sql_get_task tid db = Inr u" and key: "tr_idempotency_key u = Some k" "tr_idempotency_key t = Some k"
  shows "sql_accept_task t db = (if u = t then Inr t else Inl (IdempotencyConflict k tid), db)"
proof -
  from inv obtain s where m: "matches owner db s" by (rule sql_invE)
  have s: "fmlookup (ms_tasks s) tid = Some u"
    using u by (simp add: query_rows [OF m] mem_get_task_def)
  note idem = key_stored [OF m s key(1)]
  have "tr_status t = Pending" using adm by (simp add: sql_admissible_def)
  with s idem key show ?thesis
    by (auto simp: sql_accept_task_def guard_defs fetches [OF m] transaction_def commit_def)
qed

text \<open>All that a repeated delivery rewrites: the relay frame and the arrival of the task's context.\<close>

definition frame_rewritten :: "task_id \<Rightarrow> sql_db \<Rightarrow> sql_db \<Rightarrow> bool" where
  "frame_rewritten tid db db' \<longleftrightarrow> (\<exists>f. db' = db\<lparr>db_transport_context := map f (db_transport_context db)\<rparr> \<and>
     (\<forall>c. f c = c \<or> tc_task_id c = tid \<and> (\<exists>frame at. f c = c\<lparr>tc_relay_frame_id := frame, tc_received_at_ms := at\<rparr>)))"

lemma frame_rewritten_refl: "frame_rewritten tid db db"
  by (auto simp: frame_rewritten_def intro!: exI [of _ "\<lambda>c. c"])

lemma frame_rewritten_update:
  "frame_rewritten tid db (db\<lparr>db_transport_context := map (\<lambda>c. if tc_task_id c = tid
     then c\<lparr>tc_relay_frame_id := frame, tc_received_at_ms := at\<rparr> else c) (db_transport_context db)\<rparr>)"
  unfolding frame_rewritten_def
  by (intro exI [of _ "\<lambda>c. if tc_task_id c = tid then c\<lparr>tc_relay_frame_id := frame, tc_received_at_ms := at\<rparr> else c"]) auto

lemma accept_repeats_with:
  assumes inv: "sql_inv owner db" and adm: "sql_admissible owner (AcceptTask t)"
    and u: "sql_get_task tid db = Inr u" and key: "tr_idempotency_key u = Some k" "tr_idempotency_key t = Some k"
  shows "er_task_id env = tr_id t \<Longrightarrow> sql_accept_task_with_envelope t env db =
      (if u \<noteq> t then Inl (IdempotencyConflict k tid)
       else if sql_get_task_envelope tid db = Inr env then Inr t else Inl (TaskEnvelopeConflict tid), db)"
    and "case sql_accept_task_with_envelope_and_context t env ctx db of
        (Inl e, db') \<Rightarrow> db' = db
      | (Inr v, db') \<Rightarrow> v = t \<and> u = t \<and> frame_rewritten tid db db'"
proof -
  from inv obtain s where m: "matches owner db s" by (rule sql_invE)
  have s: "fmlookup (ms_tasks s) tid = Some u"
    using u by (simp add: query_rows [OF m] mem_get_task_def)
  note idem = key_stored [OF m s key(1)]
  have t: "tr_status t = Pending" using adm by (simp add: sql_admissible_def)
  have same: "tr_id t = tid \<and> u = t" if "fmlookup (ms_tasks s) (tr_id t) = Some t"
    using key_stored(1) [OF m that key(2)] idem(1) s that by simp
  note defs = guard_defs fetches [OF m] transaction_def commit_def find_task_def
  show "sql_accept_task_with_envelope t env db =
      (if u \<noteq> t then Inl (IdempotencyConflict k tid)
       else if sql_get_task_envelope tid db = Inr env then Inr t else Inl (TaskEnvelopeConflict tid), db)"
    if "er_task_id env = tr_id t"
    using that s idem key t
    by (auto simp: sql_accept_task_with_envelope_def defs query_rows [OF m] mem_get_task_envelope_def ok_or_def
        split: option.split)
  show "case sql_accept_task_with_envelope_and_context t env ctx db of
      (Inl e, db') \<Rightarrow> db' = db
    | (Inr v, db') \<Rightarrow> v = t \<and> u = t \<and> frame_rewritten tid db db'"
  proof (cases "fmlookup (ms_tasks s) (tr_id t) = Some t")
    case True
    note st = same [OF True]
    show ?thesis
      using True st t
      by (auto simp: sql_accept_task_with_envelope_and_context_def defs attempt_def bindR_def frame_rewritten_refl
          frame_rewritten_update split: option.split sum.split)
  next
    case False
    then show ?thesis
      using idem key t
      by (auto simp: sql_accept_task_with_envelope_and_context_def defs attempt_def bindR_def
          split: option.split sum.split)
  qed
qed

lemma accept_fresh:
  assumes inv: "sql_inv owner db" and adm: "sql_admissible owner (AcceptTask t)"
    and fresh: "sql_get_task (tr_id t) db = Inl e"
    and key: "\<And>tid u. sql_get_task tid db = Inr u \<Longrightarrow> tr_idempotency_key u = None \<or> tr_idempotency_key u \<noteq> tr_idempotency_key t"
  shows "fst (sql_accept_task t db) = Inr t" and "sql_get_task (tr_id t) (snd (sql_accept_task t db)) = Inr t"
    and "sql_events_for_task (tr_id t) (snd (sql_accept_task t db)) = Inr [accepted_event (tr_id t)]"
proof -
  from inv obtain s where m: "matches owner db s" by (rule sql_invE)
  have t: "valid_task t" "tr_status t = Pending" "wf_record t"
    using adm by (simp_all add: sql_admissible_def)
  have none: "fmlookup (ms_tasks s) (tr_id t) = None"
    using fresh by (cases "fmlookup (ms_tasks s) (tr_id t)") (simp_all add: query_rows [OF m] mem_get_task_def)
  have idem: "Option.bind (tr_idempotency_key t) (fmlookup (ms_idempotency s)) = None"
  proof (rule ccontr)
    assume "\<not> ?thesis"
    then obtain k tid where k: "tr_idempotency_key t = Some k" "fmlookup (ms_idempotency s) k = Some tid"
      by (cases "tr_idempotency_key t") auto
    then obtain u where "fmlookup (ms_tasks s) tid = Some u" "tr_idempotency_key u = Some k"
      using matches_inv [OF m] by (auto simp: mem_inv_def idempotency_ok_def)
    with key [of tid u] k show False by (simp add: query_rows [OF m] mem_get_task_def)
  qed
  have hist: "fmlookup (ms_events s) (tr_id t) = None"
    using mem_inv_events [OF matches_inv [OF m], of "tr_id t"] none by simp
  have eff: "fst (mem_accept_task t s) = Inr t" "fmlookup (ms_tasks (snd (mem_accept_task t s))) (tr_id t) = Some t"
    "fmlookup (ms_events (snd (mem_accept_task t s))) (tr_id t) = Some [accepted_event (tr_id t)]"
    using t none idem hist
    by (auto simp: mem_accept_task_def guard_defs mem_updates accepted_event_def mem_history_def
        split: option.splits)
  have sim: "fst (sql_accept_task t db) = fst (mem_accept_task t s)"
    "matches owner (snd (sql_accept_task t db)) (snd (mem_accept_task t s))"
    using sim_accept [OF m t] by (simp_all add: sim_def)
  show "fst (sql_accept_task t db) = Inr t" by (simp add: sim(1) eff(1))
  show "sql_get_task (tr_id t) (snd (sql_accept_task t db)) = Inr t"
    by (simp add: query_rows [OF sim(2)] mem_get_task_def eff(2))
  show "sql_events_for_task (tr_id t) (snd (sql_accept_task t db)) = Inr [accepted_event (tr_id t)]"
    by (simp add: query_events [OF sim(2)] mem_events_for_task_def eff)
qed

section \<open>Leases\<close>

lemma lease_names_running_task:
  assumes inv: "sql_inv owner db" and l: "sql_active_lease tid db = Inr (Some l)"
  shows "lr_task_id l = tid" and "\<exists>wid. lr_worker_id l = Some wid \<and> leased_to db tid (lr_lease_id l) wid"
    and "\<exists>t. sql_get_task tid db = Inr t \<and> tr_status t = Running \<and> \<not> tr_dead_lettered t"
proof -
  from inv obtain s where m: "matches owner db s" by (rule sql_invE)
  have s: "fmlookup (ms_leases s) tid = Some l"
    using l by (simp add: query_rows [OF m] mem_active_lease_def)
  have ok: "leases_ok (ms_tasks s) (ms_leases s)"
    using matches_inv [OF m] by (simp add: mem_inv_def)
  from ok s show "lr_task_id l = tid" by (simp add: leases_ok_def)
  from ok s obtain wid where w: "lr_worker_id l = Some wid" by (force simp: leases_ok_def)
  with l show "\<exists>wid. lr_worker_id l = Some wid \<and> leased_to db tid (lr_lease_id l) wid"
    by (simp add: leased_to_def)
  from w s have "mem_owns s tid (lr_lease_id l) wid" by (simp add: mem_owns_def)
  from mem_owns_running [OF matches_inv [OF m] this]
  show "\<exists>t. sql_get_task tid db = Inr t \<and> tr_status t = Running \<and> \<not> tr_dead_lettered t"
    by (simp add: query_rows [OF m] mem_get_task_def) metis
qed

section \<open>Failing attempts\<close>

text \<open>A worker that takes the task and fails it, once for each lease of the list.\<close>

fun failing_attempts :: "task_id \<Rightarrow> agent_id \<Rightarrow> string \<Rightarrow> retry_policy \<Rightarrow> lease_record list \<Rightarrow> store_op list" where
  "failing_attempts tid wid reason policy [] = []"
| "failing_attempts tid wid reason policy (l # ls) =
     LeaseTask tid l None # FailTask tid (lr_lease_id l) wid reason policy # failing_attempts tid wid reason policy ls"

definition attempt_lease :: "(lease_id \<Rightarrow> task_id) \<Rightarrow> task_id \<Rightarrow> agent_id \<Rightarrow> task_record \<Rightarrow> lease_record \<Rightarrow> bool" where
  "attempt_lease owner tid wid t l \<longleftrightarrow>
     sql_admissible owner (LeaseTask tid l None) \<and> lr_worker_id l = Some wid \<and> \<not> past_deadline t (lr_leased_at_ms l)"

lemma failing_attempt:
  assumes inv: "sql_inv owner db" and t: "sql_get_task tid db = Inr t" "tr_status t = Pending"
    and free: "sql_active_lease tid db = Inr None" and l: "attempt_lease owner tid wid t l"
  shows "let db' = run_ops sql_step (failing_attempts tid wid reason policy [l]) db in
    sql_inv owner db' \<and> sql_get_task tid db' = Inr (failure_outcome policy reason t) \<and> sql_active_lease tid db' = Inr None"
proof -
  let ?lease = "sql_lease_task_with_peer_guard tid l None db"
  have adm: "sql_admissible owner (LeaseTask tid l None)"
    using l by (simp add: attempt_lease_def)
  have "leasable db tid (lr_leased_at_ms l) None"
    using t free l by (simp add: leasable_def attempt_lease_def)
  with lease_granted [OF inv adm] t(1) have
    run: "sql_get_task tid (snd ?lease) = Inr (t\<lparr>tr_status := Running\<rparr>)" "sql_active_lease tid (snd ?lease) = Inr (Some l)"
    by fastforce+
  have inv1: "sql_inv owner (snd ?lease)"
    using sql.step_inv [OF inv adm] by simp
  have "leased_to (snd ?lease) tid (lr_lease_id l) wid"
    using run(2) l by (simp add: leased_to_def attempt_lease_def)
  note fin = lease_holder_finishes(3) [OF inv1 this run(1), of policy reason]
  have "failure_outcome policy reason (t\<lparr>tr_status := Running\<rparr>) = failure_outcome policy reason t"
    by (simp add: failure_outcome_def)
  moreover have "sql_inv owner (snd (sql_fail_task tid (lr_lease_id l) wid reason policy (snd ?lease)))"
    using sql.step_inv [OF inv1, of "FailTask tid (lr_lease_id l) wid reason policy"] by (simp add: sql_admissible_def)
  ultimately show ?thesis
    using fin by (simp add: finishes_def Let_def)
qed

lemma retried_outcome:
  assumes "unat (tr_retry_count t) < unat (max_retries policy)"
  shows "failure_outcome policy reason t = t\<lparr>tr_retry_count := tr_retry_count t + 1, tr_status := Pending\<rparr>"
    and "unat (tr_retry_count t + 1) = unat (tr_retry_count t) + 1"
proof -
  have bound: "unat (tr_retry_count t) + 1 < 2 ^ 32"
    using assms unsigned_less [of "max_retries policy", where ?'a = nat] by simp
  then show count: "unat (tr_retry_count t + 1) = unat (tr_retry_count t) + 1"
    by (simp add: unat_word_ariths)
  have "sat_add (tr_retry_count t) 1 = tr_retry_count t + 1"
    using bound by (simp add: word_unat_eq_iff unat_sat_add count)
  with assms show "failure_outcome policy reason t = t\<lparr>tr_retry_count := tr_retry_count t + 1, tr_status := Pending\<rparr>"
    using bound by (auto simp: failure_outcome_def should_retry_unat)
qed

lemma last_outcome:
  assumes "tr_retry_count t = max_retries policy" and "0 < unat (max_retries policy)" and "unat (max_retries policy) < 2 ^ 32 - 1"
  shows "failure_outcome policy reason t = t\<lparr>tr_retry_count := max_retries policy + 1, tr_dead_lettered := True,
    tr_dead_letter_reason := Some reason, tr_status := Failed\<rparr>"
proof -
  have "sat_add (max_retries policy) 1 = max_retries policy + 1"
    using assms(3) by (simp add: word_unat_eq_iff unat_sat_add unat_word_ariths)
  with assms show ?thesis
    by (auto simp: failure_outcome_def should_retry_unat)
qed

lemma retried_attempts:
  assumes "sql_inv owner db" and "sql_get_task tid db = Inr t" "tr_status t = Pending"
    and "sql_active_lease tid db = Inr None" and "list_all (attempt_lease owner tid wid t) ls"
    and "unat (tr_retry_count t) + length ls \<le> unat (max_retries policy)"
  shows "let db' = run_ops sql_step (failing_attempts tid wid reason policy ls) db in
    sql_inv owner db' \<and> sql_get_task tid db' = Inr (t\<lparr>tr_retry_count := tr_retry_count t + of_nat (length ls)\<rparr>) \<and>
    sql_active_lease tid db' = Inr None"
  using assms
proof (induction ls arbitrary: db t)
  case (Cons l ls)
  let ?db = "run_ops sql_step (failing_attempts tid wid reason policy [l]) db"
  let ?t = "t\<lparr>tr_retry_count := tr_retry_count t + 1, tr_status := Pending\<rparr>"
  have "unat (tr_retry_count t) < unat (max_retries policy)" using Cons.prems by simp
  note out = retried_outcome [OF this]
  have one: "sql_inv owner ?db" "sql_get_task tid ?db = Inr ?t" "sql_active_lease tid ?db = Inr None"
    using failing_attempt [of owner db tid t wid l reason policy] Cons.prems out(1) by (simp_all add: Let_def)
  have "list_all (attempt_lease owner tid wid ?t) ls"
    using Cons.prems by (simp add: attempt_lease_def past_deadline_def list_all_iff)
  with Cons.IH [OF one(1,2) _ one(3)] Cons.prems out(2) show ?case
    by (simp add: Let_def algebra_simps)
qed simp

lemma exhausted_attempts:
  assumes inv: "sql_inv owner db" and t: "sql_get_task tid db = Inr t" "tr_status t = Pending" "tr_retry_count t = 0"
    and free: "sql_active_lease tid db = Inr None" and ls: "list_all (attempt_lease owner tid wid t) ls"
    and n: "length ls = unat (max_retries policy) + 1" "0 < unat (max_retries policy)" "unat (max_retries policy) < 2 ^ 32 - 1"
  shows "sql_get_task tid (run_ops sql_step (failing_attempts tid wid reason policy ls) db) =
    Inr (t\<lparr>tr_retry_count := max_retries policy + 1, tr_dead_lettered := True,
      tr_dead_letter_reason := Some reason, tr_status := Failed\<rparr>)"
proof -
  from n(1) obtain init l where split: "ls = init @ [l]" "length init = unat (max_retries policy)"
    by (metis add_diff_cancel_right' append_butlast_last_id length_butlast list.size(3) nat.simps(3) Suc_eq_plus1)
  let ?db = "run_ops sql_step (failing_attempts tid wid reason policy init) db"
  let ?t = "t\<lparr>tr_retry_count := max_retries policy\<rparr>"
  have before: "sql_inv owner ?db" "sql_get_task tid ?db = Inr ?t" "sql_active_lease tid ?db = Inr None"
    using retried_attempts [OF inv t(1,2) free, of wid init policy reason] ls t(3) split by (simp_all add: Let_def)
  have "failing_attempts tid wid reason policy (init @ [l]) =
      failing_attempts tid wid reason policy init @ failing_attempts tid wid reason policy [l]"
    by (induction init) simp_all
  moreover have "attempt_lease owner tid wid ?t l"
    using ls split by (simp add: attempt_lease_def past_deadline_def)
  ultimately show ?thesis
    using failing_attempt [OF before(1,2) _ before(3), of wid l reason policy] last_outcome [of ?t policy reason] n(2,3) t(2)
    by (simp add: Let_def split sql.run_append del: failing_attempts.simps)
qed

end
