(* ===== verification/Result_Effects.thy ===== *)
theory Result_Effects
  imports Sql_Effects
begin

text \<open>
  What the dispatcher of results can rely on: a claimed delivery is not handed out again while its
  lease lives, only the live claim settles it, a failed attempt is counted and retried after a
  bounded delay, and a recorded result belongs to a finished task.
\<close>

section \<open>Claims\<close>

lemma delivery_rows:
  assumes "sql_inv owner db"
  shows "distinct (map ox_delivery_id (db_result_outbox db))"
proof -
  from assms obtain s where m: "matches owner db s" by (rule sql_invE)
  from matches_outbox [OF m] show ?thesis by (simp add: outbox_matches_def)
qed

lemma delivery_of_iff:
  assumes "sql_inv owner db"
  shows "delivery_of db d = Some r \<longleftrightarrow> r \<in> set (db_result_outbox db) \<and> ox_delivery_id r = d"
proof -
  have "distinct (map ox_delivery_id rows) \<Longrightarrow>
      find (\<lambda>r. ox_delivery_id r = d) rows = Some r \<longleftrightarrow> r \<in> set rows \<and> ox_delivery_id r = d" for rows
    by (induction rows) force+
  with delivery_rows [OF assms] show ?thesis by (simp add: delivery_of_def)
qed

lemma claim_complete:
  assumes inv: "sql_inv owner db"
    and due: "r \<in> set (db_result_outbox db)" "ox_state r = ''pending''" "ox_next_attempt_at_ms r \<le> now_ms"
  shows "\<exists>ob res db'. claim_next_result_delivery w now_ms dur db = (Inr (Some (ob, res)), db')"
proof -
  from inv obtain s where m: "matches owner db s" by (rule sql_invE)
  have "expire_row now_ms r = r"
    using due(2) by (simp add: expire_row_def delivery_lease_expired_def)
  with due have "r \<in> set (due_deliveries now_ms (map (expire_row now_ms) (db_result_outbox db)))"
    by (force simp: due_deliveries_def)
  then have "due_deliveries now_ms (map (expire_row now_ms) (db_result_outbox db)) \<noteq> []" by force
  with claim_effect [OF m, of now_ms w dur] show ?thesis by auto
qed

text \<open>
  What the other parties may do while a claim lives: anything but settle it in its name, and any claim
  at a time before the lease runs out.
\<close>

fun leaves_claim :: "string \<Rightarrow> string \<Rightarrow> int \<Rightarrow> node_op \<Rightarrow> bool" where
  "leaves_claim d w e (ClaimDelivery _ now_ms _) \<longleftrightarrow> now_ms < e"
| "leaves_claim d w e (AckDelivery d' w' e' _) \<longleftrightarrow> (d', w', e') \<noteq> (d, w, e)"
| "leaves_claim d w e (FailDelivery d' claim _ _ _ _) \<longleftrightarrow> (d', claim) \<noteq> (d, w, e)"
| "leaves_claim d w e _ \<longleftrightarrow> True"

definition held_by :: "string \<Rightarrow> int \<Rightarrow> outbox_row \<Rightarrow> bool" where
  "held_by w e r \<longleftrightarrow> ox_state r = ''leased'' \<and> ox_lease_owner r = Some w \<and> ox_lease_expires_at_ms r = Some e"

lemma held_not_expired: "held_by w e r \<Longrightarrow> now_ms < e \<Longrightarrow> expire_row now_ms r = r"
  by (simp add: held_by_def expire_row_def delivery_lease_expired_def)

lemma delivery_of_id: "delivery_of db d = Some r \<Longrightarrow> ox_delivery_id r = d"
  by (auto simp: delivery_of_def dest!: find_SomeD)

lemma held_claim_step:
  assumes inv: "sql_inv owner db" and r: "delivery_of db d = Some r" "held_by w e r" and now: "now_ms < e"
  shows "delivery_of (snd (claim_next_result_delivery w2 now_ms dur db)) d = Some r"
    and "\<not> hands_out d (ClaimReply (fst (claim_next_result_delivery w2 now_ms dur db)))"
proof -
  from inv obtain s where m: "matches owner db s" by (rule sql_invE)
  let ?x = "claim_next_result_delivery w2 now_ms dur db"
  note kept = held_not_expired [OF r(2) now]
  have row: "ox_state row \<noteq> ''pending''" if "row \<in> set (map (expire_row now_ms) (db_result_outbox db))" "ox_delivery_id row = d" for row
  proof -
    from that obtain r2 where "r2 \<in> set (db_result_outbox db)" "row = expire_row now_ms r2" by auto
    with that(2) have "delivery_of db d = Some r2" by (simp add: delivery_of_iff [OF inv])
    with r(1) \<open>row = _\<close> kept r(2) show ?thesis by (simp add: held_by_def)
  qed
  have f: "delivery_of (db\<lparr>db_result_outbox := map f (db_result_outbox db)\<rparr>) d = Some (f r)"
    if "\<And>r. ox_delivery_id (f r) = ox_delivery_id r" for f
    using delivery_of_map [OF that, of db d] r(1) by simp
  have "delivery_of (snd ?x) d = Some r \<and> \<not> hands_out d (ClaimReply (fst ?x))"
    using claim_effect [OF m, of now_ms w2 dur]
  proof (elim disjE exE conjE)
    assume "?x = (Inr None, db\<lparr>db_result_outbox := map (expire_row now_ms) (db_result_outbox db)\<rparr>)"
    then show ?thesis using f [of "expire_row now_ms"] kept by simp
  next
    fix row out res e'
    assume row': "row \<in> set (map (expire_row now_ms) (db_result_outbox db))" "ox_state row = ''pending''"
      and out: "ob_delivery_id out = ox_delivery_id row"
      and x: "?x = (Inr (Some (out, res)), db\<lparr>db_result_outbox :=
         map (claim_row (ox_delivery_id row) w2 e' now_ms) (map (expire_row now_ms) (db_result_outbox db))\<rparr>)"
    have "ox_delivery_id row \<noteq> d" using row [OF row'(1)] row'(2) by blast
    moreover have "delivery_of (snd ?x) d = Some (claim_row (ox_delivery_id row) w2 e' now_ms r)"
      using f [of "\<lambda>r. claim_row (ox_delivery_id row) w2 e' now_ms (expire_row now_ms r)"] kept by (simp add: x comp_def)
    ultimately show ?thesis
      using out delivery_of_id [OF r(1)] by (simp add: x claim_row_def)
  qed
  then show "delivery_of (snd ?x) d = Some r" "\<not> hands_out d (ClaimReply (fst ?x))" by simp_all
qed

lemma held_step:
  assumes inv: "sql_inv owner db" and ok: "node_admissible owner oper" "leaves_claim d w e oper"
    and r: "delivery_of db d = Some r" "held_by w e r"
  shows "delivery_of (snd (node_exec oper db)) d = Some r \<and> \<not> hands_out d (fst (node_exec oper db))"
proof -
  from inv obtain s where m: "matches owner db s" by (rule sql_invE)
  have settle: "settle_row (delivery_claimed d' w' e' now_ms) f r = r" if "(d', w', e') \<noteq> (d, w, e)" for d' w' e' now_ms f
    using that r(2) delivery_of_id [OF r(1)] by (auto simp: settle_row_def delivery_claimed_def held_by_def)
  show ?thesis
  proof (cases oper)
    case (TaskOp op')
    have "prefix (db_result_outbox db) (db_result_outbox (snd (sql_step op' db)))"
      using frame_step [of db op'] by (simp add: db_frame_def frame_of_def)
    from delivery_of_prefix [OF this r(1)] TaskOp show ?thesis by simp
  next
    case ClaimDelivery
    with held_claim_step [OF inv r] ok(2) show ?thesis by simp
  next
    case AckDelivery
    with r ok(2) show ?thesis by (simp add: settle_ops_snd delivery_of_map settle)
  next
    case (FailDelivery d' claim)
    with r ok(2) show ?thesis by (cases claim) (simp add: settle_ops_snd delivery_of_map settle)
  next
    case RelayReceipt
    with ok r receipt_effect(2) [OF m] show ?thesis by (simp add: delivery_of_def)
  qed
qed

lemma held_run:
  "sql_inv owner db \<Longrightarrow> list_all (node_admissible owner) opers \<Longrightarrow> list_all (leaves_claim d w e) opers \<Longrightarrow>
     delivery_of db d = Some r \<Longrightarrow> held_by w e r \<Longrightarrow>
     delivery_of (run_ops node_exec opers db) d = Some r \<and> filter (hands_out d) (replies node_exec opers db) = []"
proof (induction opers arbitrary: db)
  case (Cons oper opers)
  with held_step [of owner db oper d w e r] node_exec_inv [of owner db oper] show ?case by simp
qed simp

text \<open>What a claim hands out, and what it leaves in the row.\<close>

definition due :: "int \<Rightarrow> outbox_row \<Rightarrow> bool" where
  "due now_ms r \<longleftrightarrow>
     ox_state r = ''pending'' \<and> ox_next_attempt_at_ms r \<le> now_ms \<or>
     delivery_lease_expired now_ms r \<and> ox_attempt_count r < max_result_delivery_attempts - 1"

lemma due_iff: "due now_ms r \<longleftrightarrow> ox_state (expire_row now_ms r) = ''pending'' \<and> ox_next_attempt_at_ms (expire_row now_ms r) \<le> now_ms"
  by (auto simp: due_def expire_row_def attempt_failed_def delivery_lease_expired_def)

lemma claim_hands_out:
  assumes inv: "sql_inv owner db"
    and claim: "claim_next_result_delivery w now_ms dur db = (Inr (Some (ob, res)), db')"
  obtains row where "delivery_of db (ob_delivery_id ob) = Some row" and "due now_ms row"
    and "ob_task_id ob = ox_task_id row" and "sql_get_terminal_result (ox_task_id row) db = Inr res"
    and "\<forall>r \<in> set (db_result_outbox db). due now_ms r \<longrightarrow> outbox_key (expire_row now_ms row) \<le> outbox_key (expire_row now_ms r)"
    and "delivery_of db' (ob_delivery_id ob) =
      Some (lease_delivery w (sat_add_i64 now_ms (max dur 1)) now_ms (expire_row now_ms row))"
proof -
  from inv obtain s where m: "matches owner db s" by (rule sql_invE)
  let ?rows = "map (expire_row now_ms) (db_result_outbox db)" and ?e = "sat_add_i64 now_ms (max dur 1)"
  from claim_effect [OF m, of now_ms w dur] claim obtain row0 rest where
    row0: "due_deliveries now_ms ?rows = row0 # rest" "row0 \<in> set ?rows" "ox_state row0 = ''pending''"
      "ob_delivery_id ob = ox_delivery_id row0" "ob_task_id ob = ox_task_id row0"
      "mem_get_terminal_result (ox_task_id row0) s = Inr res"
    and db': "db' = db\<lparr>db_result_outbox := map (claim_row (ox_delivery_id row0) w ?e now_ms) ?rows\<rparr>" by auto
  from row0(2) obtain row where row: "row \<in> set (db_result_outbox db)" "row0 = expire_row now_ms row" by auto
  have look: "delivery_of db (ob_delivery_id ob) = Some row"
    using row row0(4) delivery_of_iff [OF inv] by simp
  have task: "ox_task_id row0 = ox_task_id row" by (simp add: row(2) expire_row_def attempt_failed_def)
  have "row0 \<in> set (due_deliveries now_ms ?rows)" by (simp add: row0(1))
  then have "due now_ms row"
    unfolding due_iff row(2) by (auto simp: due_deliveries_def)
  moreover have "sql_get_terminal_result (ox_task_id row) db = Inr res"
    using row0(6) by (simp add: query_rows [OF m] task)
  moreover have "outbox_key row0 \<le> outbox_key (expire_row now_ms r)" if "r \<in> set (db_result_outbox db)" "due now_ms r" for r
  proof -
    have "expire_row now_ms r \<in> set (row0 # rest)"
      using that unfolding row0(1) [symmetric] due_iff by (auto simp: due_deliveries_def)
    moreover have "sorted (map outbox_key (row0 # rest))"
      unfolding row0(1) [symmetric] by (simp add: due_deliveries_def)
    ultimately show ?thesis by auto
  qed
  moreover have "delivery_of db' (ob_delivery_id ob) = Some (lease_delivery w ?e now_ms (expire_row now_ms row))"
  proof -
    have "delivery_of db' (ob_delivery_id ob) = Some (claim_row (ox_delivery_id row0) w ?e now_ms (expire_row now_ms row))"
      using delivery_of_map [of "\<lambda>r. claim_row (ox_delivery_id row0) w ?e now_ms (expire_row now_ms r)" db "ob_delivery_id ob"]
        look by (simp add: db' comp_def)
    with row(2) row0(3) show ?thesis by (simp add: claim_row_def)
  qed
  ultimately show thesis
    using that look row0(5) task row(2) by auto
qed

section \<open>Settling\<close>

lemma settle_effect:
  assumes inv: "sql_inv owner db"
    and guard: "\<And>r. guard r \<Longrightarrow> ox_delivery_id r = d" and key: "\<And>r. ox_delivery_id (f r) = ox_delivery_id r"
  shows "settle_delivery d guard f db =
    (case delivery_of db d of
       Some r \<Rightarrow> if guard r then (Inr (), snd (settle_delivery d guard f db))
         else (Inl (ResultDeliveryLeaseMismatch d), db)
     | None \<Rightarrow> (Inl (ResultDeliveryLeaseMismatch d), db))"
    and "delivery_of db d = Some r \<Longrightarrow> guard r \<Longrightarrow> delivery_of (snd (settle_delivery d guard f db)) d = Some (f r)"
proof -
  have one: "length (filter guard (db_result_outbox db)) = 1" if "delivery_of db d = Some r" "guard r" for r
  proof -
    have "filter guard (db_result_outbox db) = filter (\<lambda>x. ox_delivery_id x = ox_delivery_id r \<and> guard x) (db_result_outbox db)"
      using guard [OF that(2)] guard by (intro filter_cong) auto
    with pick_unique [OF delivery_rows [OF inv], of r guard] that delivery_of_iff [OF inv] show ?thesis by simp
  qed
  have none: "settle_delivery d guard f db = (Inl (ResultDeliveryLeaseMismatch d), db)"
    if "\<And>r. r \<in> set (db_result_outbox db) \<Longrightarrow> \<not> guard r"
  proof -
    have "filter guard (db_result_outbox db) = []" "map (\<lambda>r. if guard r then f r else r) (db_result_outbox db) = db_result_outbox db"
      using that by (auto simp: filter_empty_conv intro!: map_idI)
    then show ?thesis by (simp add: settle_delivery_def)
  qed
  show "settle_delivery d guard f db =
    (case delivery_of db d of
       Some r \<Rightarrow> if guard r then (Inr (), snd (settle_delivery d guard f db))
         else (Inl (ResultDeliveryLeaseMismatch d), db)
     | None \<Rightarrow> (Inl (ResultDeliveryLeaseMismatch d), db))"
  proof (cases "\<exists>r. delivery_of db d = Some r \<and> guard r")
    case True
    with one show ?thesis by (auto simp: settle_delivery_def)
  next
    case False
    then have "\<not> guard r" if "r \<in> set (db_result_outbox db)" for r
      using that guard delivery_of_iff [OF inv] by blast
    with none False show ?thesis by (auto split: option.split)
  qed
  show "delivery_of (snd (settle_delivery d guard f db)) d = Some (f r)" if "delivery_of db d = Some r" "guard r"
    using that delivery_of_map [of "settle_row guard f" db d] key
    by (simp add: settle_delivery_snd) (simp add: settle_row_def)
qed

lemma ack_effect:
  assumes inv: "sql_inv owner db"
  shows "fst (ack_result_delivery d w e now_ms db) = Inr () \<longleftrightarrow>
      (\<exists>r. delivery_of db d = Some r \<and> delivery_claimed d w e now_ms r)"
    and "fst (ack_result_delivery d w e now_ms db) = Inr () \<Longrightarrow>
      \<exists>r. delivery_of (snd (ack_result_delivery d w e now_ms db)) d = Some r \<and> ox_state r = ''delivered'' \<and> ox_lease_owner r = None"
    and "fst (ack_result_delivery d w e now_ms db) \<noteq> Inr () \<Longrightarrow> snd (ack_result_delivery d w e now_ms db) = db"
proof -
  let ?g = "delivery_claimed d w e now_ms" and ?f = "deliver_row now_ms"
  have g: "ox_delivery_id r = d" if "?g r" for r using that by (simp add: delivery_claimed_def)
  have key: "ox_delivery_id (?f r) = ox_delivery_id r" for r by (simp add: deliver_row_def)
  note eff = settle_effect [of owner db ?g d ?f, OF inv g key, folded ack_result_delivery_def]
  show iff: "fst (ack_result_delivery d w e now_ms db) = Inr () \<longleftrightarrow> (\<exists>r. delivery_of db d = Some r \<and> ?g r)"
    by (subst eff(1)) (auto split: option.split)
  show "\<exists>r. delivery_of (snd (ack_result_delivery d w e now_ms db)) d = Some r \<and> ox_state r = ''delivered'' \<and> ox_lease_owner r = None"
    if "fst (ack_result_delivery d w e now_ms db) = Inr ()"
    using that eff(2) unfolding iff by (auto simp: deliver_row_def)
  show "snd (ack_result_delivery d w e now_ms db) = db" if "fst (ack_result_delivery d w e now_ms db) \<noteq> Inr ()"
    using that unfolding iff by (subst eff(1)) (auto split: option.split)
qed

lemma fail_delivery_effect:
  assumes inv: "sql_inv owner db" and r: "delivery_of db d = Some r" "delivery_claimed d w e now_ms r"
  shows "\<exists>r'. delivery_of (snd (fail_result_delivery d (w, e) now_ms at why dead db)) d = Some r' \<and>
    fst (fail_result_delivery d (w, e) now_ms at why dead db) = Inr () \<and>
    ox_next_attempt_at_ms r' \<le> sat_add_i64 now_ms max_result_delivery_retry_delay_ms \<and>
    ox_attempt_count r' = ox_attempt_count r + 1 \<and> ox_attempt_count r' \<le> max_result_delivery_attempts \<and>
    ox_state r' = (if dead \<or> ox_attempt_count r' = max_result_delivery_attempts then ''dead_lettered'' else ''pending'')"
proof -
  let ?g = "delivery_claimed d w e now_ms"
  let ?at = "min at (sat_add_i64 now_ms max_result_delivery_retry_delay_ms)"
  let ?f = "attempt_failed dead ?at why now_ms"
  have g: "ox_delivery_id r = d" if "?g r" for r using that by (simp add: delivery_claimed_def)
  have key: "ox_delivery_id (?f r) = ox_delivery_id r" for r by (simp add: attempt_failed_def)
  have op: "fail_result_delivery d (w, e) now_ms at why dead db = settle_delivery d ?g ?f db"
    by (simp add: fail_result_delivery_def)
  note eff = settle_effect [of owner db ?g d ?f, OF inv g key]
  have "delivery_ok r"
    using outbox.look_ok [OF inv r(1)] .
  then have count: "0 \<le> ox_attempt_count r" "ox_attempt_count r < 10"
    using r(2) by (auto simp: delivery_ok_def delivery_claimed_def max_result_delivery_attempts_def)
  have "fst (settle_delivery d ?g ?f db) = Inr ()"
    by (subst eff(1)) (simp_all add: r)
  with eff(2) [OF _ r] count show ?thesis
    unfolding op by (intro exI [of _ "?f r"]) (auto simp: attempt_failed_def max_result_delivery_attempts_def)
qed

section \<open>Recorded results\<close>

lemma result_recorded:
  assumes inv: "sql_inv owner db" and r: "sql_get_terminal_result tid db = Inr r"
  shows "tm_task_id r = tid \<and> is_terminal (tm_terminal_status r)"
    and "\<exists>t. sql_get_task tid db = Inr t \<and> is_terminal (tr_status t)"
    and "tm_return_peer_id r = Some p \<Longrightarrow> \<exists>row. delivery_of db (delivery_id tid) = Some row \<and>
      ox_task_id row = tid \<and> ox_target_peer_id row = p"
proof -
  from inv obtain s where m: "matches owner db s" by (rule sql_invE)
  have s: "fmlookup (ms_terminal_results s) tid = Some r"
    using r by (simp add: query_rows [OF m] mem_get_terminal_result_def)
  have ok: "results_ok (ms_tasks s) (ms_terminal_results s) (ms_result_outbox s)"
    using matches_inv [OF m] by (simp add: mem_inv_def)
  with s show "tm_task_id r = tid \<and> is_terminal (tm_terminal_status r)"
    and "\<exists>t. sql_get_task tid db = Inr t \<and> is_terminal (tr_status t)"
    unfolding query_rows [OF m] mem_get_task_def results_ok_def by (blast, force)
  assume p: "tm_return_peer_id r = Some p"
  then obtain ob where ob: "make_outbox r = Some ob" "ob_target_peer_id ob = p"
    by (auto simp: make_outbox_def)
  with ok s have out: "fmlookup (ms_result_outbox s) (delivery_id tid) = Some ob" "ob_task_id ob = tid"
    by (auto simp: results_ok_def dest: make_outbox_fields)
  with outbox_matches_absent [OF matches_outbox [OF m], of "delivery_id tid"] obtain row where
    row: "row \<in> set (db_result_outbox db)" "ox_delivery_id row = delivery_id tid"
    by (auto simp: list_ex_iff)
  with outbox_matches_row [OF matches_outbox [OF m] row(1)] out have "addressed_to row ob" by (metis option.inject)
  with out ob row show "\<exists>row. delivery_of db (delivery_id tid) = Some row \<and> ox_task_id row = tid \<and> ox_target_peer_id row = p"
    using delivery_of_iff [OF inv] by (auto simp: addressed_to_def)
qed

lemma recorded_result_repeats:
  assumes inv: "sql_inv owner db" and r: "sql_get_terminal_result tid db = Inr r" and t: "sql_get_task tid db = Inr t"
  shows "sql_complete_task_with_result tid lid wid r db = (Inr t, db)"
    and "is_terminal (tm_terminal_status r') \<Longrightarrow> tm_task_id r' = tid \<Longrightarrow> r' \<noteq> r \<Longrightarrow>
      sql_complete_task_with_result tid lid wid r' db = (Inl (TerminalResultConflict tid), db)"
proof -
  from inv obtain s where m: "matches owner db s" by (rule sql_invE)
  have s: "fmlookup (ms_terminal_results s) tid = Some r" "fmlookup (ms_tasks s) tid = Some t"
    using r t by (simp_all add: query_rows [OF m] mem_get_terminal_result_def mem_get_task_def)
  have ok: "tm_task_id r = tid" "is_terminal (tm_terminal_status r)"
    using result_recorded(1) [OF inv r] by simp_all
  note defs = sql_complete_task_with_result_def sql_recorded_result_def fetch_result [OF m] fetches [OF m]
    transaction_def commit_def s
  show "sql_complete_task_with_result tid lid wid r db = (Inr t, db)"
    using ok by (simp add: defs)
  show "sql_complete_task_with_result tid lid wid r' db = (Inl (TerminalResultConflict tid), db)"
    if "is_terminal (tm_terminal_status r')" "tm_task_id r' = tid" "r' \<noteq> r"
    using that by (simp add: defs)
qed

section \<open>Completion enqueues the delivery\<close>

lemma mem_completes_with_result:
  assumes inv: "mem_inv s" and own: "mem_owns s tid lid wid" and t: "fmlookup (ms_tasks s) tid = Some t"
    and r: "tm_task_id r = tid" "is_terminal (tm_terminal_status r)"
  shows "fmlookup (ms_terminal_results s) tid = None"
    and "released tid (t\<lparr>tr_status := Completed\<rparr>) (mem_complete_task_with_result tid lid wid r s)"
    and "fmlookup (ms_terminal_results (snd (mem_complete_task_with_result tid lid wid r s))) tid = Some r"
proof -
  from mem_owns_running [OF inv own] t obtain l where
    st: "tr_status t = Running" "\<not> tr_dead_lettered t" "tr_dead_letter_reason t = None"
    and l: "fmlookup (ms_leases s) tid = Some l" "lr_lease_id l = lid" "lr_worker_id l = Some wid"
    by (metis option.inject)
  have ok: "results_ok (ms_tasks s) (ms_terminal_results s) (ms_result_outbox s)"
    using inv by (simp add: mem_inv_def)
  show none: "fmlookup (ms_terminal_results s) tid = None"
  proof (cases "fmlookup (ms_terminal_results s) tid")
    case (Some r')
    with ok t have "is_terminal (tr_status t)" unfolding results_ok_def by fastforce
    with st(1) show ?thesis by simp
  qed
  have same: "t\<lparr>tr_status := x, tr_dead_lettered := False, tr_dead_letter_reason := None\<rparr> = t\<lparr>tr_status := x\<rparr>" for x
    using st by (cases t) simp
  note defs = mem_complete_task_with_result_def ensure_result_task_def validate_result_def mem_recorded_result_def
    finish_task_in_state_def released_def ensure_matching_lease_id_def ensure_matching_worker_id_def mem_updates
    require_status_def put_result_def none t l st same r
  show "released tid (t\<lparr>tr_status := Completed\<rparr>) (mem_complete_task_with_result tid lid wid r s)"
    by (simp add: defs split: option.split)
  show "fmlookup (ms_terminal_results (snd (mem_complete_task_with_result tid lid wid r s))) tid = Some r"
    by (simp add: defs split: option.split)
qed

lemma insert_result_enqueues:
  assumes "insert_terminal_result_and_outbox r db = Inr db'" and "make_outbox r = Some ob"
  shows "delivery_of db' (ob_delivery_id ob) = Some (outbox_to_row ob)"
proof -
  have find: "\<not> list_ex P xs \<Longrightarrow> P x \<Longrightarrow> find P (xs @ [x]) = Some x" for P :: "outbox_row \<Rightarrow> bool" and xs x
    by (induction xs) auto
  have "ox_delivery_id (outbox_to_row ob) = ob_delivery_id ob" by (simp add: outbox_to_row_def)
  with assms show ?thesis
    by (auto simp: insert_terminal_result_and_outbox_def insert_outbox_row_def bindR_eq_Inr delivery_of_def intro!: find)
qed

lemma completion_enqueues:
  assumes inv: "sql_inv owner db" and own: "leased_to db tid lid wid" and t: "sql_get_task tid db = Inr t"
    and r: "valid_result r" "tm_task_id r = tid" "is_terminal (tm_terminal_status r)" and ob: "make_outbox r = Some ob"
  shows "finishes tid (t\<lparr>tr_status := Completed\<rparr>) (sql_complete_task_with_result tid lid wid r db)"
    and "sql_get_terminal_result tid (snd (sql_complete_task_with_result tid lid wid r db)) = Inr r"
    and "delivery_of (snd (sql_complete_task_with_result tid lid wid r db)) (ob_delivery_id ob) = Some (outbox_to_row ob)"
proof -
  let ?x = "sql_complete_task_with_result tid lid wid r db"
  from inv obtain s where m: "matches owner db s" by (rule sql_invE)
  have s: "mem_owns s tid lid wid" "fmlookup (ms_tasks s) tid = Some t"
    using own t by (simp_all add: leased_to_matches [OF m] query_rows [OF m] mem_get_task_def)
  note mem = mem_completes_with_result [OF matches_inv [OF m] s r(2,3)]
  note sim = sim_complete_with_result [OF m r(1), of tid lid wid]
  show fin: "finishes tid (t\<lparr>tr_status := Completed\<rparr>) ?x"
    by (rule finishes_sim [OF sim mem(2)])
  have m': "matches owner (snd ?x) (snd (mem_complete_task_with_result tid lid wid r s))"
    using sim by (simp add: sim_def)
  show "sql_get_terminal_result tid (snd ?x) = Inr r"
    by (simp add: query_rows [OF m'] mem_get_terminal_result_def mem(3))
  have "\<exists>db1. insert_terminal_result_and_outbox r db1 = Inr (snd ?x)"
    using fin mem(1) r(2,3)
    by (auto simp: finishes_def sql_complete_task_with_result_def sql_recorded_result_def fetch_result [OF m]
        transaction_def commit_def bindR_eq_Inr ensure_result_task_def validate_result_def split: sum.splits attempt_split)
  with ob show "delivery_of (snd ?x) (ob_delivery_id ob) = Some (outbox_to_row ob)"
    using insert_result_enqueues by blast
qed

end
