(* ===== verification/Node_Runs.thy ===== *)
theory Node_Runs
  imports Remote_Effects Sql_Lifecycle Result_Effects
begin

text \<open>
  The states of a node's store: the database and the blob directory that any sequence of its operations
  reaches. Task operations, deliveries and relay receipts (\<open>node_exec\<close>), artifact operations and the
  ingest of remote results may follow each other in any order. Two steps are left out, because the code
  leaves its own invariants there, and the theory proves that it does: the legacy event
  \<open>TaskApprovalDenied\<close> on a pending task, and a remote result for a task that is leased on this node.
\<close>

section \<open>Reached states\<close>

inductive reached :: "(lease_id \<Rightarrow> task_id) \<Rightarrow> (bytes \<Rightarrow> bytes) \<Rightarrow> sql_db \<times> blob_dir \<Rightarrow> bool" for owner sha256 where
  empty: "reached owner sha256 (sql_init, fmempty)"
| node: "reached owner sha256 (db, fs) \<Longrightarrow> node_admissible owner oper \<Longrightarrow>
    reached owner sha256 (snd (node_exec oper db), fs)"
| artifact: "reached owner sha256 st \<Longrightarrow>
    reached owner sha256 (snd (artifact_exec sql_put_artifact sql_delete_artifact sha256 oper st))"
| ingest: "reached owner sha256 (db, fs) \<Longrightarrow> valid_result r \<Longrightarrow> tm_return_peer_id r = None \<Longrightarrow>
    sql_active_lease (tm_task_id r) db = Inr None \<Longrightarrow>
    reached owner sha256 (snd (ingest_remote_result_with_artifacts sha256 r artifacts peer (db, fs)))"

lemma reached_run: "reached owner sha256 (db, fs) \<Longrightarrow> list_all (node_admissible owner) opers \<Longrightarrow>
    reached owner sha256 (run_ops node_exec opers db, fs)"
  by (induction opers arbitrary: db) (auto intro: reached.node)

subsection \<open>Artifact operations\<close>

text \<open>Nothing but the two tables of the artifact store differs.\<close>

definition files_only :: "sql_db \<Rightarrow> sql_db \<Rightarrow> bool" where
  "files_only db db' \<longleftrightarrow> db'\<lparr>db_blobs := [], db_artifacts := []\<rparr> = db\<lparr>db_blobs := [], db_artifacts := []\<rparr>"

lemma files_only_intros [simp]:
  "files_only db db" "files_only db (db'\<lparr>db_blobs := blobs\<rparr>) \<longleftrightarrow> files_only db db'"
  "files_only db (db'\<lparr>db_artifacts := rows\<rparr>) \<longleftrightarrow> files_only db db'"
  by (simp_all add: files_only_def)

lemma files_only_matches: "files_only db db' \<Longrightarrow> matches owner db' s = matches owner db s"
  using matches_files [of owner "[]" "[]" db s] matches_files [of owner "[]" "[]" db' s] by (simp add: files_only_def)

lemma files_only_cleanup: "files_only db (fst (finalize_blob_cleanup digests st)) = files_only db (fst st)"
  by (induction digests st rule: finalize_blob_cleanup.induct) simp_all

lemma files_only_refs [simp]:
  "files_only db (increment_blob_ref_with_executor d n db') = files_only db db'"
  "files_only db (upsert_artifact_row row db') = files_only db db'"
  by (simp_all add: increment_blob_ref_with_executor_def upsert_artifact_row_def)

lemma files_only_decrement: "decrement_blob_ref_with_executor d db' = (dropped, db'') \<Longrightarrow> files_only db db'' = files_only db db'"
  by (auto simp: decrement_blob_ref_with_executor_def Let_def split: option.splits if_splits)

lemma files_only_artifact:
  "files_only (fst st) (fst (snd (artifact_exec sql_put_artifact sql_delete_artifact sha256 oper st)))"
proof -
  have put: "files_only db (fst (snd (put_artifact_tx sha256 meta content (db, fs))))" for db fs meta content
    by (auto simp: put_artifact_tx_def attempt_def Let_def split: prod.split sum.split option.split
        simp: files_only_decrement [of _ db] dest!: files_only_decrement [of _ db _ _ db])
  have delete: "files_only db (fst (snd (delete_artifact_tx aid (db, fs))))" for db fs aid
    by (auto simp: delete_artifact_tx_def attempt_def Let_def split: prod.split sum.split
        dest!: files_only_decrement [of _ _ _ _ db] split: if_splits)
  show ?thesis
  proof (cases st)
    case (Pair db fs)
    with put [of db _ _ fs] delete [of db _ fs] show ?thesis
      by (auto simp: artifact_exec_def sql_put_artifact_def sql_delete_artifact_def files_only_cleanup
          split: artifact_op.split prod.splits sum.split) (metis fst_conv snd_conv)+
  qed
qed

subsection \<open>The ingest\<close>

lemma files_only_artifacts_loop: "insert_artifacts_loop pairs db' = Inr db'' \<Longrightarrow> files_only db db'' = files_only db db'"
proof (induction pairs arbitrary: db')
  case (Cons p pairs)
  then show ?case
    by (cases p) (auto simp: insert_origin_artifact_def bindR_eq_Inr ensure_def split: if_splits)
qed simp

lemma apply_remote_inv:
  assumes m: "matches owner db s" and t: "fmlookup (ms_tasks s) (tm_task_id r) = Some t"
    and free: "fmlookup (ms_leases s) (tm_task_id r) = None" "fmlookup (ms_terminal_results s) (tm_task_id r) = None"
    and r: "is_terminal (tm_terminal_status r)" "valid_result r" "tm_return_peer_id r = None"
    and tx: "apply_remote_in_tx r pairs t db = Inr db'"
  shows "sql_inv owner db'"
proof -
  let ?tid = "tm_task_id r"
  have "sql_get_task ?tid db = Inr t" using t by (simp add: get_task [OF m] find_task_def)
  with applied_task [OF tx] r(1) have alive: "\<not> is_terminal (tr_status t)" by blast
  from remote_transition [OF m t alive free(1) r(1)] obtain t1 db1 tr db2 s2 where
    steps: "start_remote_task t ?tid db = Inr (t1, db1)" "validate_transition (tr_status t1) (tm_terminal_status r) = Inr tr"
      "set_status_with_event ?tid (tm_terminal_status r) (next_sequence_with_executor ?tid db1) (tt_event_type tr) (tt_from tr)
         (tt_to tr) db1 = Inr db2"
    and m2: "matches owner db2 s2" "fmlookup (ms_tasks s2) ?tid = Some (t\<lparr>tr_status := tm_terminal_status r\<rparr>)"
      "ms_terminal_results s2 = ms_terminal_results s" by metis
  from tx steps obtain db3 where db3: "insert_artifacts_loop pairs db2 = Inr db3" "insert_terminal_result_only r db3 = Inr db'"
    by (auto simp: apply_remote_in_tx_def Let_def bindR_eq_Inr)
  have "matches owner db3 s2"
    using files_only_artifacts_loop [OF db3(1), of db2] files_only_matches [of db2 db3] m2(1) by simp
  from insert_result_only [OF this m2(2) _ _ refl r] r(1) free(2) m2(3) db3(2) show ?thesis
    by (auto simp: sql_inv_def)
qed

lemma keeps_state_attempt: "P st \<Longrightarrow> (\<And>a. g = Inr a \<Longrightarrow> P (snd (k a))) \<Longrightarrow> P (snd (attempt g st k))"
  by (cases g) simp_all

lemma ingest_inv:
  assumes inv: "sql_inv owner db" and r: "valid_result r" "tm_return_peer_id r = None"
    and free: "sql_active_lease (tm_task_id r) db = Inr None"
  shows "sql_inv owner (fst (snd (ingest_remote_result_with_artifacts sha256 r artifacts peer (db, fs))))"
proof -
  from inv obtain s where m: "matches owner db s" by (rule sql_invE)
  have lease: "fmlookup (ms_leases s) (tm_task_id r) = None"
    using free by (simp add: query_rows [OF m] mem_active_lease_def)
  define P where "P = (\<lambda>st :: sql_db \<times> blob_dir. sql_inv owner (fst st))"
  have P: "P (db, fs)" using inv by (simp add: P_def)
  have leaf: "P (snd (ingest_apply sha256 r pairs t (db, fs)))"
    if "fmlookup (ms_tasks s) (tm_task_id r) = Some t" "fmlookup (ms_terminal_results s) (tm_task_id r) = None"
      "is_terminal (tm_terminal_status r)" for pairs t
    using apply_remote_inv [OF m that(1) lease that(2,3) r] inv
    by (auto simp: ingest_apply_def P_def split: prod.split sum.split)
  have "P (snd (ingest_remote_result_with_artifacts sha256 r artifacts peer (db, fs)))"
    unfolding ingest_remote_result_with_artifacts_def Let_def fst_conv fetches [OF m]
    by (intro keeps_state_attempt [where P = P] P)
      (auto simp: P validate_result_def ensure_def find_task_def ok_or_def
        intro!: keeps_state_attempt [where P = P] leaf split: option.split option.split_asm if_splits)
  then show ?thesis by (simp add: P_def)
qed

lemma reached_inv: "reached owner sha256 st \<Longrightarrow> sql_inv owner (fst st)"
proof (induction rule: reached.induct)
  case empty
  show ?case using matches_init by (auto simp: sql_inv_def)
next
  case (node db fs oper)
  then show ?case using node_exec_inv [of owner db oper] by simp
next
  case (artifact st oper)
  with files_only_matches [OF files_only_artifact [of st sha256 oper]] show ?case by (simp add: sql_inv_def)
next
  case (ingest db fs r artifacts peer)
  then show ?case using ingest_inv [of owner db r] by simp
qed

lemmas reached_db = reached_inv [of _ _ "(db, fs)", unfolded fst_conv] for db fs

section \<open>The two steps that break the invariants\<close>

text \<open>A denied approval: the task is failed, and its history no longer replays.\<close>

lemma sequence_fresh:
  assumes m: "matches owner db s"
  shows "\<not> list_ex (\<lambda>r. el_task_id r = tid \<and> el_sequence r = next_sequence_with_executor tid db) (db_events db)"
proof
  let ?h = "mem_history s tid"
  assume "list_ex (\<lambda>r. el_task_id r = tid \<and> el_sequence r = next_sequence_with_executor tid db) (db_events db)"
  then obtain r where "r \<in> set (filter (\<lambda>r. el_task_id r = tid) (db_events db))" "el_sequence r = length ?h + 1"
    by (auto simp: list_ex_iff next_sequence [OF m])
  then have "length ?h + 1 \<in> set (map ev_sequence ?h)"
    unfolding event_rows [OF m] by (force simp: event_to_row_def)
  then show False unfolding history_sequences [OF m] by simp
qed

lemma events_appended:
  assumes m: "matches owner db s" and "db_events db' = db_events db @ [event_to_row e]"
    and "ev_task_id e = tid" "ev_sequence e = length (mem_history s tid) + 1" "valid_id tid"
  shows "sql_events_for_task tid db' = Inr (mem_history s tid @ [e])"
proof -
  have rows: "filter (\<lambda>r. el_task_id r = tid) (db_events db') = map event_to_row (mem_history s tid @ [e])"
    using event_rows [OF m, of tid] assms(2,3) by (simp add: event_to_row_def)
  have "sorted (map el_sequence (map event_to_row (mem_history s tid @ [e])))"
    unfolding row_sequences map_append history_sequences [OF m] using assms(4) by (auto simp: sorted_append)
  then have "select_events tid db' = map event_to_row (mem_history s tid @ [e])"
    unfolding select_events_def rows by (rule sort_key_id_if_sorted)
  moreover have "mapR row_to_event (map event_to_row (mem_history s tid @ [e])) = Inr (mem_history s tid @ [e])"
    using history_valid [OF m] assms(3,5) by (intro mapR_round row_to_event_round) auto
  ultimately show ?thesis
    by (simp add: sql_events_for_task_def)
qed

lemma denial_not_replayed:
  assumes "replays_to tid evs Pending dl"
  shows "replay_loop tid 1 Pending False (tl (evs @ [\<lparr>ev_task_id = tid, ev_sequence = length evs + 1, ev_event_type = TaskFailed,
    ev_from_status = Some Pending, ev_to_status = Failed\<rparr>])) = Inl (CorruptEventStream tid)"
proof -
  obtain e where "validate_transition Pending Failed = Inl e"
    by (cases "validate_transition Pending Failed") (auto simp: validate_transition_Inr lifecycle_iff)
  with assms show ?thesis
    by (auto simp: replays_to_def replay_loop_append replay_event_def)
qed

lemma denial_breaks_replay:
  assumes inv: "sql_inv owner db" and t: "sql_get_task tid db = Inr t" "tr_status t = Pending"
  shows "\<exists>db'. sql_accept_legacy_event tid TaskApprovalDenied db = (Inr (t\<lparr>tr_status := Failed\<rparr>), db') \<and>
    sql_get_task tid db' = Inr (t\<lparr>tr_status := Failed\<rparr>) \<and> sql_replay_task tid db' = Inl (CorruptEventStream tid)"
proof -
  from inv obtain s where m: "matches owner db s" by (rule sql_invE)
  have s: "fmlookup (ms_tasks s) tid = Some t"
    using t by (simp add: query_rows [OF m] mem_get_task_def)
  have tid: "tr_id t = tid" "valid_id tid"
    using matches_valid_task [OF m s] by (auto simp: valid_task_def)
  let ?h = "mem_history s tid" and ?db1 = "deactivate_lease_for_task_with_executor tid db"
  let ?e = "\<lparr>ev_task_id = tid, ev_sequence = length ?h + 1, ev_event_type = TaskFailed,
    ev_from_status = Some Pending, ev_to_status = Failed\<rparr>"
  have hist: "replays_to tid ?h Pending (tr_dead_lettered t)"
    using matches_sourced [OF m, of tid] s t(2) by (simp add: sourced_def mem_observe_def)
  let ?db2 = "update_task_status_with_executor tid Failed ?db1"
  let ?db3 = "?db2\<lparr>db_events := db_events db @ [event_to_row ?e]\<rparr>"
  have ins: "insert_event tid (length ?h + 1) TaskFailed (Some Pending) Failed ?db2 = Inr ?db3"
    using sequence_fresh [OF m, of tid]
    by (simp add: next_sequence [OF m] insert_event_def update_task_status_with_executor_def update_tasks_where_def
        deactivate_lease_for_task_with_executor_def event_to_row_def)
  have get: "sql_get_task tid ?db3 = Inr (t\<lparr>tr_status := Failed\<rparr>)"
    using get_task_status [of tid ?db1 t Failed] t(1)
    by (simp add: sql_get_task_def deactivate_lease_for_task_with_executor_def)
  have "sql_accept_legacy_event tid TaskApprovalDenied db = (Inr (t\<lparr>tr_status := Failed\<rparr>), ?db3)"
    using s t(2) ins get
    by (simp add: sql_accept_legacy_event_def fetches [OF m] find_task_def plan_legacy_event_append_def transaction_def
        set_status_with_event_def next_sequence [OF m] Let_def)
  moreover have "sql_events_for_task tid ?db3 = Inr (?h @ [?e])"
    by (rule events_appended [OF m _ _ _ tid(2)]) simp_all
  moreover have "replay_task_from_snapshot_and_events (t\<lparr>tr_status := Failed\<rparr>) (?h @ [?e]) = Inl (CorruptEventStream tid)"
    using denial_not_replayed [OF hist] hist tid(1)
    by (auto simp: replays_to_def replay_task_from_snapshot_and_events_def accepted_event_def)
  ultimately show ?thesis
    using get by (auto simp: sql_replay_task_def)
qed

text \<open>A remote result for a leased task: the task ends, its lease does not.\<close>

lemma running_has_no_result:
  assumes "matches owner db s" and "fmlookup (ms_tasks s) tid = Some t" "\<not> is_terminal (tr_status t)"
  shows "fmlookup (ms_terminal_results s) tid = None"
proof (cases "fmlookup (ms_terminal_results s) tid")
  case (Some r)
  moreover have "results_ok (ms_tasks s) (ms_terminal_results s) (ms_result_outbox s)"
    using matches_inv [OF assms(1)] by (simp add: mem_inv_def)
  ultimately have "is_terminal (tr_status t)" using assms(2) unfolding results_ok_def by fastforce
  with assms(3) show ?thesis by simp
qed

lemma ingest_keeps_lease:
  assumes inv: "sql_inv owner db" and l: "sql_active_lease (tm_task_id r) db = Inr (Some l)"
    and ctx: "sql_get_transport_context (tm_task_id r) db = Inr ctx" "tc_expected_executor_peer_id ctx = Some peer"
    and r: "remote_result_ok r peer" and t: "sql_get_task (tm_task_id r) db = Inr t"
  shows "\<exists>db'. ingest_remote_result_with_artifacts sha256 r [] peer (db, fs) =
      (Inr (Applied (t\<lparr>tr_status := tm_terminal_status r\<rparr>)), db', fs) \<and>
    sql_get_task (tm_task_id r) db' = Inr (t\<lparr>tr_status := tm_terminal_status r\<rparr>) \<and>
    sql_active_lease (tm_task_id r) db' = Inr (Some l)"
proof -
  let ?tid = "tm_task_id r" and ?st = "tm_terminal_status r"
  from inv obtain s where m: "matches owner db s" by (rule sql_invE)
  have s: "fmlookup (ms_tasks s) ?tid = Some t" "fmlookup (ms_transport_contexts s) ?tid = Some ctx"
    using t ctx(1) by (simp_all add: query_rows [OF m] mem_get_task_def mem_get_transport_context_def)
  have run: "tr_status t = Running"
    using lease_names_running_task(3) [OF inv l] t by simp
  then have none: "fmlookup (ms_terminal_results s) ?tid = None"
    by (intro running_has_no_result [OF m s(1)]) simp
  have st: "is_terminal ?st" using r by (simp add: remote_result_ok_def)
  then obtain tr where tr: "validate_transition Running ?st = Inr tr"
    by (cases ?st) (auto simp: validate_transition_Inr lifecycle_iff)
  let ?db1 = "update_task_status_with_executor ?tid ?st db"
  from sequence_fresh [OF m, of ?tid] obtain row where ev: "set_status_with_event ?tid ?st (next_sequence_with_executor ?tid db) (tt_event_type tr) (tt_from tr) (tt_to tr) db =
      Inr (?db1\<lparr>db_events := db_events db @ [row]\<rparr>)"
    by (auto simp: set_status_with_event_def insert_event_def update_task_status_with_executor_def update_tasks_where_def)
  have "\<not> list_ex (\<lambda>x. rs_task_id x = ?tid) (db_terminal_results db)"
    using represents_absent [of rs_task_id "\<lambda>_. result_to_row" valid_result "db_terminal_results db" "ms_terminal_results s" ?tid]
      m none by (simp add: matches_def)
  then have res: "insert_terminal_result_only r (?db1\<lparr>db_events := db_events db @ [row]\<rparr>) =
      Inr (?db1\<lparr>db_events := db_events db @ [row], db_terminal_results := db_terminal_results db @ [result_to_row r]\<rparr>)"
    by (simp add: insert_terminal_result_only_def update_task_status_with_executor_def update_tasks_where_def)
  let ?db' = "?db1\<lparr>db_events := db_events db @ [row], db_terminal_results := db_terminal_results db @ [result_to_row r]\<rparr>"
  have tx: "apply_remote_in_tx r [] t db = Inr ?db'"
    using run tr ev res by (simp add: apply_remote_in_tx_def start_remote_task_def)
  have get: "sql_get_task ?tid ?db' = Inr (t\<lparr>tr_status := ?st\<rparr>)"
    using applied_task [OF tx t] by simp
  have "remote_result_terminal_reason_with_executor t db = Inr None"
    using run by (simp add: remote_result_terminal_reason_with_executor_def)
  from ingest_prefix(2) [OF m s ctx(2) r _ this none, of sha256 "[]" "[]" fs] tx get
  have "ingest_remote_result_with_artifacts sha256 r [] peer (db, fs) = (Inr (Applied (t\<lparr>tr_status := ?st\<rparr>)), ?db', fs)"
    by (simp add: validate_origin_result_artifacts_def ingest_apply_def)
  moreover have "sql_active_lease ?tid ?db' = Inr (Some l)"
    using l by (simp add: sql_active_lease_def fetch_active_lease_with_executor_def update_task_status_with_executor_def
        update_tasks_where_def)
  ultimately show ?thesis using get by blast
qed

end
