(* ===== verification/Store_Properties.thy ===== *)
theory Store_Properties
  imports Node_Runs
begin

text \<open>
  The properties of the task store. All but the refinement are stated for \<open>SqliteStore\<close>, the store
  the daemon runs on. They speak through the queries of the store itself, and about two kinds of
  databases: those that a sequence of task operations, deliveries and relay receipts leads to from the
  empty schema (\<open>node_after\<close>), and the \<open>reached\<close> ones, where artifact operations and the ingest of
  remote results occur as well. \<open>owner\<close> names, for each lease identifier, the task it was drawn for: a
  caller never reuses a lease identifier for another task.
\<close>

section \<open>Runs\<close>

abbreviation node_after :: "node_op list \<Rightarrow> sql_db" where
  "node_after opers \<equiv> run_ops node_exec opers sql_init"

definition demo_owner :: "lease_id \<Rightarrow> task_id" where
  "demo_owner lid = ''t1''"

definition demo_task :: task_record where
  "demo_task = (task_record_new ''t1'' Pending (Some ''k1''))\<lparr>tr_deadline_ms := Some 100\<rparr>"

definition demo_lease :: lease_record where
  "demo_lease = lease_record_new ''l1'' ''t1'' ''w1'' 10 20"

definition demo_policy :: retry_policy where
  "demo_policy = \<lparr>max_retries = 1, backoff_ms = 0, dead_letter_after = 1\<rparr>"

definition demo_lease_ops :: "store_op list" where
  "demo_lease_ops = [AcceptTask demo_task, LeaseTask ''t1'' demo_lease None]"

definition demo_done_ops :: "store_op list" where
  "demo_done_ops = [AcceptTask demo_task, LeaseTask ''t1'' demo_lease None, CompleteTask ''t1'' ''l1'' ''w1'']"

lemma node_inv: "list_all (node_admissible owner) opers \<Longrightarrow> sql_inv owner (node_after opers)"
  by (intro node.run_inv node.start_inv)

lemma node_reached: "list_all (node_admissible owner) opers \<Longrightarrow> reached owner sha256 (node_after opers, fmempty)"
  by (rule reached_run [OF reached.empty])

text \<open>A run of task operations can be evaluated on the in-memory store.\<close>

lemma task_ops_run: "run_ops node_exec (map TaskOp opers) db = run_ops sql_step opers db"
  by (induction opers arbitrary: db) simp_all

lemma task_ops_admissible: "list_all (node_admissible owner) (map TaskOp opers) = list_all (sql_admissible owner) opers"
  by (induction opers) simp_all

lemma task_ops_queries:
  assumes "list_all (sql_admissible owner) opers"
  shows "sql_get_task tid (node_after (map TaskOp opers)) = mem_get_task tid (run_ops mem_step opers mem_init)"
    and "sql_active_lease tid (node_after (map TaskOp opers)) = mem_active_lease tid (run_ops mem_step opers mem_init)"
    and "sql_events_for_task tid (node_after (map TaskOp opers)) = mem_events_for_task tid (run_ops mem_step opers mem_init)"
    and "sql_get_terminal_result tid (node_after (map TaskOp opers)) =
      mem_get_terminal_result tid (run_ops mem_step opers mem_init)"
    and "sql_get_transport_context tid (node_after (map TaskOp opers)) =
      mem_get_transport_context tid (run_ops mem_step opers mem_init)"
    and "sql_get_task_envelope tid (node_after (map TaskOp opers)) =
      mem_get_task_envelope tid (run_ops mem_step opers mem_init)"
  using query_rows [OF sql_reachable_matches [OF assms]] query_events [OF sql_reachable_matches [OF assms]]
  by (simp_all add: task_ops_run)

lemma demo_admissible:
  "list_all (sql_admissible demo_owner) demo_lease_ops" "list_all (sql_admissible demo_owner) demo_done_ops"
  by code_simp+

lemmas demo_node = demo_admissible [folded task_ops_admissible]

lemma demo_leased:
  "sql_get_task ''t1'' (node_after (map TaskOp demo_lease_ops)) = Inr (demo_task\<lparr>tr_status := Running\<rparr>)"
  "sql_active_lease ''t1'' (node_after (map TaskOp demo_lease_ops)) = Inr (Some demo_lease)"
  unfolding task_ops_queries [OF demo_admissible(1)] by code_simp+

lemma demo_done:
  "sql_get_task ''t1'' (node_after (map TaskOp demo_done_ops)) = Inr (demo_task\<lparr>tr_status := Completed\<rparr>)"
  unfolding task_ops_queries [OF demo_admissible(2)] by code_simp

section \<open>Refinement\<close>

text \<open>
  (C1) \<open>SqliteStore\<close> refines \<open>InMemoryStore\<close>: over every sequence of admissible operations the two
  backends give the same replies, successes and errors alike.
\<close>

theorem sqlite_refines_memory:
  assumes "list_all (sql_admissible owner) opers"
  shows "replies sql_step opers sql_init = replies mem_step opers mem_init"
  using sql_mem.sim_run [OF matches_init assms] by (simp add: list.rel_eq)

theorem sqlite_refines_memory_witness:
  "replies sql_step [AcceptTask demo_task, LeaseTask ''t1'' demo_lease None, CompleteTask ''t1'' ''l1'' ''w2''] sql_init =
     [Inr (RTask demo_task), Inr (RTask (demo_task\<lparr>tr_status := Running\<rparr>)), Inl (LeaseOwnerMismatch ''t1'' ''w2'')]"
proof -
  have "list_all (sql_admissible demo_owner)
      [AcceptTask demo_task, LeaseTask ''t1'' demo_lease None, CompleteTask ''t1'' ''l1'' ''w2'']"
    by code_simp
  note sqlite_refines_memory [OF this]
  moreover have "replies mem_step
      [AcceptTask demo_task, LeaseTask ''t1'' demo_lease None, CompleteTask ''t1'' ''l1'' ''w2''] mem_init =
     [Inr (RTask demo_task), Inr (RTask (demo_task\<lparr>tr_status := Running\<rparr>)), Inl (LeaseOwnerMismatch ''t1'' ''w2'')]"
    by code_simp
  ultimately show ?thesis by simp
qed

text \<open>
  (C2) After the same admissible operations the queries of the two backends agree: single rows, the
  event history, the replay, the active lease, and the ordered list of work a peer may claim.
\<close>

theorem sqlite_queries_refine_memory:
  assumes "list_all (sql_admissible owner) opers" and "limit < 2 ^ 63"
  shows "let db = run_ops sql_step opers sql_init; s = run_ops mem_step opers mem_init in
    sql_get_task tid db = mem_get_task tid s \<and> sql_events_for_task tid db = mem_events_for_task tid s \<and>
    sql_replay_task tid db = mem_replay_task tid s \<and> sql_active_lease tid db = mem_active_lease tid s \<and>
    sql_get_terminal_result tid db = mem_get_terminal_result tid s \<and>
    sql_pending_task_envelopes limit db = mem_pending_task_envelopes limit s \<and>
    sql_claimable_pending_task_envelopes peer limit db = mem_claimable_pending_task_envelopes peer limit s"
  using query_rows [OF sql_reachable_matches [OF assms(1)]] query_events [OF sql_reachable_matches [OF assms(1)]]
    query_replay [OF sql_reachable_matches [OF assms(1)]] query_pending [OF sql_reachable_matches [OF assms(1)] assms(2)]
    query_claimable [OF sql_reachable_matches [OF assms(1)] assms(2)]
  by (simp add: Let_def)

theorem sqlite_queries_refine_memory_witness:
  "sql_replay_task ''t1'' (run_ops sql_step [AcceptTask demo_task] sql_init) = Inr demo_task"
proof -
  have "list_all (sql_admissible demo_owner) [AcceptTask demo_task]" by code_simp
  then have "sql_replay_task ''t1'' (run_ops sql_step [AcceptTask demo_task] sql_init) =
      mem_replay_task ''t1'' (run_ops mem_step [AcceptTask demo_task] mem_init)"
    using sqlite_queries_refine_memory [of demo_owner "[AcceptTask demo_task]" 1] by (simp add: Let_def)
  moreover have "mem_replay_task ''t1'' (run_ops mem_step [AcceptTask demo_task] mem_init) = Inr demo_task"
    by code_simp
  ultimately show ?thesis by simp
qed

section \<open>Event sourcing\<close>

text \<open>
  (C3) The event log is the truth: in every reached database, replaying the events of a stored task
  against its snapshot succeeds and gives the snapshot. Reached databases know no denied approval of a
  pending task, after which replay fails, and no remote result for a task leased on this node.
\<close>

theorem replay_gives_snapshot:
  assumes "reached owner sha256 (db, fs)" and "sql_get_task tid db = Inr t"
  shows "sql_replay_task tid db = Inr t"
proof -
  obtain s where m: "matches owner db s"
    using reached_db [OF assms(1)] by (rule sql_invE)
  have t: "fmlookup (ms_tasks s) tid = Some t"
    using assms(2) by (simp add: query_rows [OF m] mem_get_task_def)
  then have "replay_task_from_snapshot_and_events t (mem_history s tid) = Inr t"
    using matches_sourced [OF m, of tid] by (intro sourced_replay [of tid]) (simp add: mem_observe_def)
  moreover have "fmlookup (ms_events s) tid \<noteq> None"
    using t mem_inv_events [OF matches_inv [OF m], of tid] by simp
  ultimately show ?thesis
    using t by (auto simp: query_replay [OF m] mem_replay_task_def mem_history_def)
qed

theorem replay_gives_snapshot_witness:
  "sql_replay_task ''t1'' (node_after (map TaskOp demo_done_ops)) = Inr (demo_task\<lparr>tr_status := Completed\<rparr>)"
  by (rule replay_gives_snapshot [OF node_reached [OF demo_node(2)] demo_done])

text \<open>
  (C4) A completed or failed task is final: no later sequence of operations changes its record in
  any field.
\<close>

theorem terminal_tasks_are_final:
  assumes "list_all (node_admissible owner) (before @ after)"
    and "sql_get_task tid (node_after before) = Inr t" and "is_terminal (tr_status t)"
  shows "sql_get_task tid (node_after (before @ after)) = Inr t"
proof -
  have opers: "list_all (node_admissible owner) before" "list_all (node_admissible owner) after"
    using assms(1) by simp_all
  note inv = node_inv [OF opers(1)]
  have "fst (sql_observe (node_after before) tid) = Some t"
    using assms(2) observe_get [OF inv] by simp
  then have "fst (sql_observe (run_ops node_exec after (node_after before)) tid) = Some t"
    using node.terminal_final [OF inv opers(2), of tid t] assms(3) by (simp add: prod_eq_iff)
  then show ?thesis
    using observe_get [OF node_inv [OF assms(1)]] by (simp add: node.run_append)
qed

theorem terminal_tasks_are_final_witness:
  "sql_get_task ''t1'' (node_after (map TaskOp demo_done_ops @
       [TaskOp (CancelTask ''t1'' 50), ClaimDelivery ''d'' 60 10, TaskOp (FailExpiredDeadlines 200 None)])) =
     Inr (demo_task\<lparr>tr_status := Completed\<rparr>)"
proof (rule terminal_tasks_are_final [OF _ demo_done])
  show "list_all (node_admissible demo_owner) (map TaskOp demo_done_ops @
      [TaskOp (CancelTask ''t1'' 50), ClaimDelivery ''d'' 60 10, TaskOp (FailExpiredDeadlines 200 None)])"
    using demo_node(2) by (simp add: sql_admissible_def limit_ok_def)
qed simp

text \<open>
  (C5) The history of a task is append-only and gapless: later operations extend the list of events,
  whose sequence numbers are 1, 2, 3 and so on without a hole.
\<close>

theorem history_append_only:
  assumes "list_all (node_admissible owner) (before @ after)"
    and "sql_events_for_task tid (node_after before) = Inr h"
  shows "\<exists>h'. sql_events_for_task tid (node_after (before @ after)) = Inr (h @ h') \<and>
    map ev_sequence (h @ h') = [1..<length (h @ h') + 1]"
proof -
  have opers: "list_all (node_admissible owner) before" "list_all (node_admissible owner) after"
    using assms(1) by simp_all
  note inv = node_inv [OF opers(1)] and inv' = node_inv [OF assms(1)]
  let ?o = "sql_observe (node_after before) tid" and ?o' = "sql_observe (node_after (before @ after)) tid"
  have o: "fst ?o \<noteq> None" "snd ?o = h"
    using assms(2) observe_events [OF inv] by simp_all
  have "prefix (snd ?o) (snd ?o')"
    using node.history_grows [OF inv opers(2) o(1)] by (simp add: node.run_append)
  then obtain h' where h': "snd ?o' = h @ h'"
    using o(2) by (auto simp: prefix_def)
  have ev: "evolves tid ?o ?o'"
    using node.run_evolves [OF inv opers(2)] by (simp add: node.run_append)
  then obtain u where u: "?o' = (Some u, h @ h')"
    using o(1) h' by (cases ?o) (auto simp: evolves_def)
  have "map ev_sequence (h @ h') = [1..<length (h @ h') + 1]"
    using node.history_gapless [OF assms(1) u] by (intro nth_equalityI) (simp_all del: upt_Suc map_append)
  then show ?thesis
    using u observe_events [OF inv', of tid "h @ h'"] by auto
qed

theorem history_append_only_witness:
  "\<exists>h'. sql_events_for_task ''t1'' (node_after (map TaskOp demo_lease_ops @ [TaskOp (CompleteTask ''t1'' ''l1'' ''w1'')])) =
     Inr ([accepted_event ''t1'', \<lparr>ev_task_id = ''t1'', ev_sequence = 2, ev_event_type = TaskStarted,
       ev_from_status = Some Pending, ev_to_status = Running\<rparr>] @ h')"
proof -
  have "list_all (node_admissible demo_owner) (map TaskOp demo_lease_ops @ [TaskOp (CompleteTask ''t1'' ''l1'' ''w1'')])"
    using demo_node(1) by (simp add: sql_admissible_def)
  moreover have "sql_events_for_task ''t1'' (node_after (map TaskOp demo_lease_ops)) = Inr
      [accepted_event ''t1'', \<lparr>ev_task_id = ''t1'', ev_sequence = 2, ev_event_type = TaskStarted,
       ev_from_status = Some Pending, ev_to_status = Running\<rparr>]"
    unfolding task_ops_queries [OF demo_admissible(1)] by code_simp
  ultimately show ?thesis
    using history_append_only [of demo_owner "map TaskOp demo_lease_ops"] by blast
qed

text \<open>The same for the in-memory store, in every state it reaches by admissible operations.\<close>

theorem mem_replay_snapshot:
  assumes "list_all admissible opers"
    and "fmlookup (ms_tasks (run_ops mem_step opers mem_init)) tid = Some t"
  shows "mem_replay_task tid (run_ops mem_step opers mem_init) = Inr t"
proof -
  let ?s = "run_ops mem_step opers mem_init"
  have "mem_inv ?s"
    using assms(1) by (intro mem.run_inv mem.start_inv)
  then obtain evs where evs: "fmlookup (ms_events ?s) tid = Some evs"
    using assms(2) mem_inv_events [of ?s tid] by (metis not_None_eq)
  then have "mem_observe ?s tid = (Some t, evs)"
    using assms(2) by (simp add: mem_observe_def mem_history_def)
  with mem.run_replays [OF assms(1)] evs assms(2) show ?thesis
    by (simp add: mem_replay_task_def)
qed

theorem mem_replay_snapshot_witness:
  "mem_replay_task ''t1'' (run_ops mem_step demo_done_ops mem_init) =
     Inr (demo_task\<lparr>tr_status := Completed\<rparr>)"
proof (rule mem_replay_snapshot)
  show "list_all admissible demo_done_ops" by code_simp
  show "fmlookup (ms_tasks (run_ops mem_step demo_done_ops mem_init)) ''t1'' =
      Some (demo_task\<lparr>tr_status := Completed\<rparr>)" by code_simp
qed

section \<open>Leases fence the workers\<close>

text \<open>
  (C6) A worker that does not hold the active lease of a task can neither complete, fail, retry nor
  dead-letter it: each call is refused with the error for its case and leaves the database as it was.
\<close>

theorem strangers_are_refused:
  assumes "list_all (node_admissible owner) opers" and "\<not> leased_to (node_after opers) tid lid wid"
  shows "let db = node_after opers; refused = (Inl (lease_refusal db tid lid wid), db) in
    sql_complete_task tid lid wid db = refused \<and> sql_fail_task tid lid wid reason policy db = refused \<and>
    sql_retry_task tid lid wid db = refused \<and> sql_dead_letter_task tid lid wid reason db = refused"
  using others_refused [OF node_inv [OF assms(1)] assms(2)] by (simp add: Let_def)

theorem strangers_are_refused_witness:
  "sql_complete_task ''t1'' ''l1'' ''w2'' (node_after (map TaskOp demo_lease_ops)) =
     (Inl (LeaseOwnerMismatch ''t1'' ''w2''), node_after (map TaskOp demo_lease_ops))"
proof -
  have "\<not> leased_to (node_after (map TaskOp demo_lease_ops)) ''t1'' ''l1'' ''w2''"
    "lease_refusal (node_after (map TaskOp demo_lease_ops)) ''t1'' ''l1'' ''w2'' = LeaseOwnerMismatch ''t1'' ''w2''"
    by (simp_all add: leased_to_def lease_refusal_def demo_leased demo_lease_def lease_record_new_def)
  then show ?thesis
    using strangers_are_refused [OF demo_node(1), of "''t1''" "''l1''" "''w2''"] by (simp add: Let_def)
qed

text \<open>
  (C7) The holder of the active lease finishes its task: completing, retrying and dead-lettering
  succeed, leave exactly the record the source writes, and end the lease.
\<close>

theorem lease_holder_finishes_task:
  assumes "list_all (node_admissible owner) opers" and "leased_to (node_after opers) tid lid wid"
    and "sql_get_task tid (node_after opers) = Inr t"
  shows "let db = node_after opers; count = sat_add (tr_retry_count t) 1 in
    tr_status t = Running \<and>
    finishes tid (t\<lparr>tr_status := Completed\<rparr>) (sql_complete_task tid lid wid db) \<and>
    finishes tid (t\<lparr>tr_retry_count := count, tr_status := Pending\<rparr>) (sql_retry_task tid lid wid db) \<and>
    finishes tid (t\<lparr>tr_retry_count := count, tr_dead_lettered := True, tr_dead_letter_reason := Some reason,
      tr_status := Failed\<rparr>) (sql_dead_letter_task tid lid wid reason db)"
  using lease_holder_finishes [OF node_inv [OF assms(1)] assms(2,3)] by (simp add: Let_def)

theorem lease_holder_finishes_task_witness:
  "fst (sql_complete_task ''t1'' ''l1'' ''w1'' (node_after (map TaskOp demo_lease_ops))) =
     Inr (demo_task\<lparr>tr_status := Completed\<rparr>)"
proof -
  have "leased_to (node_after (map TaskOp demo_lease_ops)) ''t1'' ''l1'' ''w1''"
    by (simp add: leased_to_def demo_leased demo_lease_def lease_record_new_def)
  then show ?thesis
    using lease_holder_finishes_task [OF demo_node(1) _ demo_leased(1)] by (simp add: Let_def finishes_def)
qed

text \<open>
  (C8) No task is leased twice: while a lease is active every attempt to lease the task again, by
  whatever worker and peer and at whatever time, is an error that changes nothing.
\<close>

theorem no_second_lease:
  assumes "list_all (node_admissible owner) opers" and "sql_admissible owner (LeaseTask tid lease peer)"
    and "sql_active_lease tid (node_after opers) = Inr (Some l)"
  shows "\<exists>e. sql_lease_task_with_peer_guard tid lease peer (node_after opers) = (Inl e, node_after opers)"
  by (rule lease_refused [OF node_inv [OF assms(1)] assms(2,3)])

theorem no_second_lease_witness:
  "\<exists>e. sql_lease_task_with_peer_guard ''t1'' (lease_record_new ''l2'' ''t1'' ''w2'' 15 30) None
     (node_after (map TaskOp demo_lease_ops)) = (Inl e, node_after (map TaskOp demo_lease_ops))"
  by (rule no_second_lease [OF demo_node(1) _ demo_leased(2)]) code_simp

text \<open>
  (C9) Errors roll back: an operation that fails leaves the database as it was. The one exception is
  the refusal of a lease past the deadline, which first commits that the task has failed.
\<close>

theorem errors_roll_back:
  assumes "list_all (node_admissible owner) opers" and "sql_admissible owner oper"
    and "fst (sql_step oper (node_after opers)) = Inl e" and "\<And>tid d n. e \<noteq> TaskDeadlineExpired tid d n"
  shows "snd (sql_step oper (node_after opers)) = node_after opers"
  using error_unchanged [OF node_inv [OF assms(1)] assms(2,3)] assms(4) by blast

theorem errors_roll_back_witness:
  "snd (sql_step (CancelTask ''t9'' 50) sql_init) = sql_init"
proof -
  have "fst (sql_step (CancelTask ''t9'' 50) (node_after [])) = Inl (TaskNotFound ''t9'')"
    by code_simp
  then show ?thesis
    using errors_roll_back [of demo_owner "[]" "CancelTask ''t9'' 50"] by (simp add: sql_admissible_def)
qed

text \<open>
  (C10) An active lease names a running task: in every reached database it carries the identifier of its
  task and a worker, who holds it, and the task is running and not dead-lettered. A remote result that is
  ingested for a task leased on this node leaves the reached databases and breaks this.
\<close>

theorem active_lease_runs:
  assumes "reached owner sha256 (db, fs)" and "sql_active_lease tid db = Inr (Some l)"
  shows "lr_task_id l = tid \<and> (\<exists>wid. lr_worker_id l = Some wid \<and> leased_to db tid (lr_lease_id l) wid) \<and>
    (\<exists>t. sql_get_task tid db = Inr t \<and> tr_status t = Running \<and> \<not> tr_dead_lettered t)"
  using lease_names_running_task [OF reached_db [OF assms(1)] assms(2)] by blast

theorem active_lease_runs_witness:
  "\<exists>t. sql_get_task ''t1'' (node_after (map TaskOp demo_lease_ops)) = Inr t \<and> tr_status t = Running"
  using active_lease_runs [OF node_reached [OF demo_node(1)] demo_leased(2)] by blast

section \<open>Types of the stored rows\<close>

lemma represents_decodes:
  assumes "represents key enc ok rows m" and "r \<in> set rows"
  shows "\<exists>v. fmlookup m (key r) = Some v \<and> r = enc (key r) v \<and> ok v"
  using represents_row [OF assms] represents_ok [OF assms(1)] by metis

lemma outbox_row_decodes:
  assumes "delivery_ok r" and "addressed_to r ob"
  shows "\<exists>ob'. row_to_outbox r = Inr ob' \<and> valid_outbox ob' \<and> outbox_to_row ob' = r"
proof -
  obtain st where st: "ox_state r = delivery_state_as_str st"
    using assms(1) unfolding delivery_ok_def set_map by blast
  moreover have "ox_attempt_count r \<in> {0..10}"
    using assms(1) by (simp add: delivery_ok_def max_result_delivery_attempts_def)
  then have "uint (word_of_int (max 0 (ox_attempt_count r)) :: u32) = ox_attempt_count r"
    by (simp add: unsigned_of_int take_bit_int_eq_self)
  ultimately show ?thesis
    using assms(2) by (cases r) (simp add: row_to_outbox_def addressed_to_def valid_outbox_def outbox_to_row_def)
qed

lemma matched_rows_decode:
  assumes m: "matches owner db s"
  shows "row \<in> set (db_tasks db) \<Longrightarrow> \<exists>t. row_to_task row = Inr t \<and> valid_task t \<and> wf_record t \<and> task_to_row t = row"
    and "lrow \<in> set (db_leases db) \<Longrightarrow> ll_active lrow \<Longrightarrow> \<exists>l. row_to_lease lrow = Inr l \<and> valid_lease l \<and> lease_to_row l = lrow"
    and "erow \<in> set (db_events db) \<Longrightarrow> \<exists>e. row_to_event erow = Inr e \<and> valid_id (ev_task_id e) \<and> event_to_row e = erow"
    and "c \<in> set (db_transport_context db) \<Longrightarrow> row_to_transport_context c = Inr c \<and> valid_context c"
    and "env \<in> set (db_task_envelopes db) \<Longrightarrow> row_to_task_envelope env = Inr env \<and> valid_id (er_task_id env)"
    and "(k, tid) \<in> set (db_idempotency_keys db) \<Longrightarrow> \<exists>t. sql_get_task tid db = Inr t \<and> tr_idempotency_key t = Some k"
    and "rrow \<in> set (db_terminal_results db) \<Longrightarrow> \<exists>r. row_to_terminal_result rrow = Inr r \<and> valid_result r \<and>
      is_terminal (tm_terminal_status r) \<and> result_to_row r = rrow"
    and "orow \<in> set (db_result_outbox db) \<Longrightarrow> \<exists>ob. row_to_outbox orow = Inr ob \<and> valid_outbox ob \<and> outbox_to_row ob = orow"
proof -
  note reps = m [unfolded matches_def]
  show "\<exists>t. row_to_task row = Inr t \<and> valid_task t \<and> wf_record t \<and> task_to_row t = row" if "row \<in> set (db_tasks db)"
  proof -
    from represents_decodes [of tk_task_id "\<lambda>_. task_to_row" valid_task, OF _ that] reps obtain t where
      t: "fmlookup (ms_tasks s) (tk_task_id row) = Some t" "row = task_to_row t" "valid_task t" by blast
    moreover have "wf_record t"
      using matches_sourced [OF m, of "tk_task_id row"] t(1) by (simp add: sourced_def mem_observe_def)
    ultimately show ?thesis by auto
  qed
  show "\<exists>l. row_to_lease lrow = Inr l \<and> valid_lease l \<and> lease_to_row l = lrow" if "lrow \<in> set (db_leases db)" "ll_active lrow"
    using represents_decodes [of ll_task_id "\<lambda>_. lease_to_row" valid_lease "filter ll_active (db_leases db)" "ms_leases s" lrow]
      reps that by (auto simp: leases_match_def)
  show "\<exists>e. row_to_event erow = Inr e \<and> valid_id (ev_task_id e) \<and> event_to_row e = erow" if "erow \<in> set (db_events db)"
  proof -
    have "erow \<in> set (filter (\<lambda>r. el_task_id r = el_task_id erow) (db_events db))"
      using that by simp
    then obtain e where "e \<in> set (mem_history s (el_task_id erow))" "erow = event_to_row e"
      unfolding event_rows [OF m] by auto
    with history_valid [OF m] show ?thesis by auto
  qed
  show "row_to_transport_context c = Inr c \<and> valid_context c" if "c \<in> set (db_transport_context db)"
    using represents_decodes [of tc_task_id "\<lambda>_ c. c" valid_context, OF _ that] reps by fastforce
  show "row_to_task_envelope env = Inr env \<and> valid_id (er_task_id env)" if "env \<in> set (db_task_envelopes db)"
    using represents_decodes [of er_task_id "\<lambda>_ e. e" "\<lambda>e. valid_id (er_task_id e)", OF _ that] reps
      row_to_task_envelope_round by fastforce
  show "\<exists>t. sql_get_task tid db = Inr t \<and> tr_idempotency_key t = Some k" if "(k, tid) \<in> set (db_idempotency_keys db)"
  proof -
    have "fmlookup (ms_idempotency s) k = Some tid"
      using represents_decodes [of fst Pair valid_id, OF _ that] reps by fastforce
    then show ?thesis
      using matches_inv [OF m] by (auto simp: mem_inv_def idempotency_ok_def query_rows [OF m] mem_get_task_def)
  qed
  show "\<exists>r. row_to_terminal_result rrow = Inr r \<and> valid_result r \<and> is_terminal (tm_terminal_status r) \<and> result_to_row r = rrow"
    if "rrow \<in> set (db_terminal_results db)"
    using represents_decodes [of rs_task_id "\<lambda>_. result_to_row" valid_result, OF _ that] reps
    unfolding mem_inv_def results_ok_def by fastforce
  show "\<exists>ob. row_to_outbox orow = Inr ob \<and> valid_outbox ob \<and> outbox_to_row ob = orow" if "orow \<in> set (db_result_outbox db)"
    using outbox_matches_row [OF _ that, of "ms_result_outbox s"] outbox_row_decodes reps by metis
qed

text \<open>
  (C11) The task tables are well typed: in every reached database, each row of the tables of tasks,
  events, contexts, envelopes, results and deliveries, and each row of an active lease, is the encoding of
  exactly one record, is decoded to it without an error, and its identifiers satisfy the validation of
  their newtypes. Results are terminal, dead letters carry their reason, and each idempotency key points
  to the task that was submitted with it. Rows of ended leases and of the artifact store are not covered.
\<close>

theorem stored_rows_are_well_typed:
  assumes "reached owner sha256 (db, fs)"
  shows "(\<forall>row \<in> set (db_tasks db). \<exists>t. row_to_task row = Inr t \<and> valid_task t \<and> wf_record t \<and> task_to_row t = row) \<and>
    (\<forall>row \<in> set (db_leases db). ll_active row \<longrightarrow> (\<exists>l. row_to_lease row = Inr l \<and> valid_lease l \<and> lease_to_row l = row)) \<and>
    (\<forall>row \<in> set (db_events db). \<exists>e. row_to_event row = Inr e \<and> valid_id (ev_task_id e) \<and> event_to_row e = row) \<and>
    (\<forall>row \<in> set (db_transport_context db). row_to_transport_context row = Inr row \<and> valid_context row) \<and>
    (\<forall>row \<in> set (db_task_envelopes db). row_to_task_envelope row = Inr row \<and> valid_id (er_task_id row)) \<and>
    (\<forall>(k, tid) \<in> set (db_idempotency_keys db). \<exists>t. sql_get_task tid db = Inr t \<and> tr_idempotency_key t = Some k) \<and>
    (\<forall>row \<in> set (db_terminal_results db). \<exists>r. row_to_terminal_result row = Inr r \<and> valid_result r \<and>
       is_terminal (tm_terminal_status r) \<and> result_to_row r = row) \<and>
    (\<forall>row \<in> set (db_result_outbox db). \<exists>ob. row_to_outbox row = Inr ob \<and> valid_outbox ob \<and> outbox_to_row ob = row)"
proof -
  obtain s where m: "matches owner db s"
    using reached_db [OF assms] by (rule sql_invE)
  show ?thesis
    using matched_rows_decode [OF m] by (intro conjI ballI) auto
qed

theorem stored_rows_are_well_typed_witness:
  "\<exists>row t. row \<in> set (db_tasks (node_after (map TaskOp demo_lease_ops))) \<and> row_to_task row = Inr t \<and> valid_task t \<and> task_to_row t = row"
proof -
  obtain row where "row \<in> set (db_tasks (node_after (map TaskOp demo_lease_ops)))"
    using demo_leased(1)
    by (auto simp: sql_get_task_def bindR_eq_Inr ok_or_def find_Some_iff intro: nth_mem split: option.splits)
  then show ?thesis
    using stored_rows_are_well_typed [OF node_reached [OF demo_node(1)]] by blast
qed

section \<open>Where the invariants end\<close>

text \<open>
  (C12) Denying an approval corrupts the log: the legacy event \<open>TaskApprovalDenied\<close> is accepted on every
  pending task of a reached database and reports the task as failed, and from then on the stored task no
  longer replays. The event it appends, \<open>TaskFailed\<close>, is one that replay allows from \<open>Running\<close> only.
\<close>

theorem approval_denial_breaks_replay:
  assumes "reached owner sha256 (db, fs)" and "sql_get_task tid db = Inr t" and "tr_status t = Pending"
  shows "\<exists>db'. sql_accept_legacy_event tid TaskApprovalDenied db = (Inr (t\<lparr>tr_status := Failed\<rparr>), db') \<and>
    sql_get_task tid db' = Inr (t\<lparr>tr_status := Failed\<rparr>) \<and> sql_replay_task tid db' = Inl (CorruptEventStream tid)"
  by (rule denial_breaks_replay [OF reached_db [OF assms(1)] assms(2,3)])

theorem approval_denial_breaks_replay_witness:
  "\<exists>db'. sql_replay_task ''t1'' db' = Inl (CorruptEventStream ''t1'') \<and>
     sql_accept_legacy_event ''t1'' TaskApprovalDenied (node_after (map TaskOp [AcceptTask demo_task])) =
       (Inr (demo_task\<lparr>tr_status := Failed\<rparr>), db')"
proof -
  have adm: "list_all (sql_admissible demo_owner) [AcceptTask demo_task]" by code_simp
  have "sql_get_task ''t1'' (node_after (map TaskOp [AcceptTask demo_task])) = Inr demo_task"
    unfolding task_ops_queries [OF adm] by code_simp
  moreover have "tr_status demo_task = Pending" by code_simp
  ultimately show ?thesis
    using approval_denial_breaks_replay [OF node_reached [OF adm [folded task_ops_admissible]]] by blast
qed

end
