(* ===== verification/Lifecycle_Properties.thy ===== *)
theory Lifecycle_Properties
  imports Store_Properties
begin

text \<open>
  The properties of the life of a task in \<open>SqliteStore\<close>: acceptance, leasing, failure and retry,
  cancellation, the two sweeps of the daemon's loops, and the list of work a peer may claim.
\<close>

section \<open>A submitted task\<close>

definition demo_accept_ops :: "store_op list" where
  "demo_accept_ops = [AcceptTask demo_task]"

definition demo_envelope :: task_envelope_record where
  "demo_envelope = \<lparr>er_task_id = ''t1'', er_encoded_envelope = [1, 2], er_received_at_ms = 5\<rparr>"

definition demo_submit_ops :: "store_op list" where
  "demo_submit_ops = [AcceptTaskWithEnvelope demo_task demo_envelope]"

lemma demo_submit_admissible:
  "list_all (sql_admissible demo_owner) demo_accept_ops" "list_all (sql_admissible demo_owner) demo_submit_ops"
  by code_simp+

lemmas demo_submit_node = demo_submit_admissible [folded task_ops_admissible]

lemma demo_accepted:
  "sql_get_task ''t1'' (node_after (map TaskOp demo_accept_ops)) = Inr demo_task"
  "sql_active_lease ''t1'' (node_after (map TaskOp demo_accept_ops)) = Inr None"
  unfolding task_ops_queries [OF demo_submit_admissible(1)] by code_simp+

lemma demo_lease_admissible: "sql_admissible demo_owner (LeaseTask ''t1'' demo_lease None)"
  by code_simp

lemma node_tasks: "node_after (opers @ map TaskOp ops) = run_ops sql_step ops (node_after opers)"
  by (simp add: node.run_append task_ops_run)

section \<open>Acceptance\<close>



text \<open>
  A submission with an unused identifier and an unused key is stored as submitted, with the
  acceptance as the first event of its history.
\<close>

theorem new_task_is_stored:
  assumes "list_all (node_admissible owner) opers" and "sql_admissible owner (AcceptTask t)"
    and "sql_get_task (tr_id t) (node_after opers) = Inl e"
    and "\<And>tid u. sql_get_task tid (node_after opers) = Inr u \<Longrightarrow>
      tr_idempotency_key u = None \<or> tr_idempotency_key u \<noteq> tr_idempotency_key t"
  shows "let r = sql_accept_task t (node_after opers) in fst r = Inr t \<and> sql_get_task (tr_id t) (snd r) = Inr t \<and>
    sql_events_for_task (tr_id t) (snd r) = Inr [accepted_event (tr_id t)]"
  using accept_fresh [OF node_inv [OF assms(1)] assms(2-4)] by (simp add: Let_def)

theorem new_task_is_stored_witness:
  "fst (sql_accept_task demo_task sql_init) = Inr demo_task"
proof -
  have none: "sql_get_task tid sql_init = Inl (TaskNotFound tid)" for tid
    using task_ops_queries(1) [of demo_owner "[]" tid] by (simp add: mem_get_task_def mem_init_def)
  moreover have "sql_admissible demo_owner (AcceptTask demo_task)" by code_simp
  ultimately show ?thesis
    using new_task_is_stored [of demo_owner "[]" demo_task] by (simp add: Let_def)
qed

section \<open>Leasing\<close>

text \<open>
  (C14) A lease is granted exactly when the task is pending, unleased, before its deadline and, if it
  names an executor, asked for by that peer. The grant moves the task to running and changes nothing
  else of its record; the lease that was asked for is then the active one.
\<close>

theorem lease_granted_iff_leasable:
  assumes "list_all (node_admissible owner) opers" and "sql_admissible owner (LeaseTask tid lease peer)"
  shows "let db = node_after opers; r = sql_lease_task_with_peer_guard tid lease peer db in
    ((\<exists>u. fst r = Inr u) \<longleftrightarrow> leasable db tid (lr_leased_at_ms lease) peer) \<and>
    (\<forall>u. fst r = Inr u \<longrightarrow> (\<exists>t. sql_get_task tid db = Inr t \<and> u = t\<lparr>tr_status := Running\<rparr>) \<and>
       sql_get_task tid (snd r) = Inr u \<and> sql_active_lease tid (snd r) = Inr (Some lease))"
  using lease_granted [OF node_inv [OF assms(1)] assms(2)] by (simp add: Let_def)

theorem lease_granted_iff_leasable_witness:
  "\<exists>u. fst (sql_lease_task_with_peer_guard ''t1'' demo_lease None (node_after (map TaskOp demo_accept_ops))) = Inr u"
proof -
  have "tr_status demo_task = Pending" "tr_deadline_ms demo_task = Some 100" "lr_leased_at_ms demo_lease = 10"
    by code_simp+
  then have "leasable (node_after (map TaskOp demo_accept_ops)) ''t1'' (lr_leased_at_ms demo_lease) None"
    by (simp add: leasable_def demo_accepted past_deadline_def)
  then show ?thesis
    using lease_granted_iff_leasable [OF demo_submit_node(1) demo_lease_admissible] by (simp add: Let_def)
qed

text \<open>
  (C15) A lease attempt at or after the deadline is always an error. When the asking peer may execute the
  task, no lease is active and the task is unfinished, the error names the deadline, and the attempt
  itself fails the task: the failure is committed although the call returns an error. In every other
  case the database stays as it is.
\<close>

theorem late_lease_fails_the_task:
  assumes "reached owner sha256 (db, fs)" and "sql_admissible owner (LeaseTask tid lease peer)"
    and "sql_get_task tid db = Inr t" and "tr_deadline_ms t = Some d" and "d \<le> lr_leased_at_ms lease"
  shows "let r = sql_lease_task_with_peer_guard tid lease peer db in
    if peer_allowed db tid peer \<and> sql_active_lease tid db = Inr None \<and> \<not> is_terminal (tr_status t)
    then fst r = Inl (TaskDeadlineExpired tid d (lr_leased_at_ms lease)) \<and> sql_get_task tid (snd r) = Inr (t\<lparr>tr_status := Failed\<rparr>)
    else \<exists>e. r = (Inl e, db)"
  unfolding Let_def using late_lease_effect [OF reached_db [OF assms(1)] assms(2-5)] by presburger

theorem late_lease_fails_the_task_witness:
  "fst (sql_lease_task_with_peer_guard ''t1'' (lease_record_new ''l1'' ''t1'' ''w1'' 100 120) (Some ''p1'')
     (node_after (map TaskOp demo_submit_ops))) = Inl (TaskDeadlineExpired ''t1'' 100 100)"
proof -
  let ?l = "lease_record_new ''l1'' ''t1'' ''w1'' 100 120" and ?db = "node_after (map TaskOp demo_submit_ops)"
  have q: "sql_get_task ''t1'' ?db = Inr demo_task" "sql_active_lease ''t1'' ?db = Inr None"
    "sql_get_transport_context ''t1'' ?db = Inl (TransportContextNotFound ''t1'')"
    unfolding task_ops_queries [OF demo_submit_admissible(2)] by code_simp+
  have adm: "sql_admissible demo_owner (LeaseTask ''t1'' ?l (Some ''p1''))" "tr_deadline_ms demo_task = Some 100"
    "tr_status demo_task = Pending" "lr_leased_at_ms ?l = 100" by code_simp+
  show ?thesis
    using late_lease_fails_the_task [OF node_reached [OF demo_submit_node(2)] adm(1) q(1) adm(2)] q adm
    by (simp add: Let_def executor_allows_def)
qed

section \<open>Failure and cancellation\<close>

text \<open>
  (C16) Retries end. A pending task that every worker fails is pending again after each of the first
  \<open>max_retries\<close> attempts, with the attempts counted, and the next failure dead-letters it: after
  \<open>max_retries + 1\<close> failing attempts the task has failed for good. This holds for a positive
  \<open>max_retries\<close> (without retries the first failure ends the task and is no dead letter) below the
  largest \<open>u32\<close>, at which the saturating counter never passes the limit. The \<open>dead_letter_after\<close> of the
  policy plays no part: also when it is smaller, the task is queued again \<open>max_retries\<close> times.
\<close>

theorem failing_task_is_dead_lettered:
  assumes "list_all (node_admissible owner) opers" and "sql_get_task tid (node_after opers) = Inr t"
    and "tr_status t = Pending" and "tr_retry_count t = 0" and "sql_active_lease tid (node_after opers) = Inr None"
    and "list_all (attempt_lease owner tid wid t) ls"
    and "0 < unat (max_retries policy)" and "unat (max_retries policy) < 2 ^ 32 - 1"
  shows "let db' = node_after (opers @ map TaskOp (failing_attempts tid wid reason policy ls)) in
    (length ls \<le> unat (max_retries policy) \<longrightarrow>
       sql_get_task tid db' = Inr (t\<lparr>tr_retry_count := of_nat (length ls)\<rparr>)) \<and>
    (length ls = unat (max_retries policy) + 1 \<longrightarrow>
       sql_get_task tid db' = Inr (t\<lparr>tr_retry_count := max_retries policy + 1, tr_dead_lettered := True,
         tr_dead_letter_reason := Some reason, tr_status := Failed\<rparr>))"
  using retried_attempts [OF node_inv [OF assms(1)] assms(2,3,5,6)]
    exhausted_attempts [OF node_inv [OF assms(1)] assms(2-6) _ assms(7,8)] assms(4)
  by (simp add: Let_def node_tasks)

theorem failing_task_is_dead_lettered_witness:
  "sql_get_task ''t1'' (node_after (map TaskOp demo_accept_ops @ map TaskOp (failing_attempts ''t1'' ''w1'' ''boom''
     demo_policy [demo_lease]))) = Inr (demo_task\<lparr>tr_retry_count := 1\<rparr>) \<and>
   sql_get_task ''t1'' (node_after (map TaskOp demo_accept_ops @ map TaskOp (failing_attempts ''t1'' ''w1'' ''boom''
     demo_policy [demo_lease, lease_record_new ''l2'' ''t1'' ''w1'' 30 40]))) = Inr (demo_task\<lparr>tr_retry_count := 2,
     tr_dead_lettered := True, tr_dead_letter_reason := Some ''boom'', tr_status := Failed\<rparr>)"
proof -
  let ?ls = "[demo_lease, lease_record_new ''l2'' ''t1'' ''w1'' 30 40]"
  have ls: "list_all (attempt_lease demo_owner ''t1'' ''w1'' demo_task) [demo_lease]"
    "list_all (attempt_lease demo_owner ''t1'' ''w1'' demo_task) ?ls"
    by code_simp+
  have t: "tr_status demo_task = Pending" "tr_retry_count demo_task = 0"
    by code_simp+
  have n: "max_retries demo_policy = 1" by (simp add: demo_policy_def)
  note twice = failing_task_is_dead_lettered [OF demo_submit_node(1) demo_accepted(1) t demo_accepted(2)]
  show ?thesis
    using twice [OF ls(1), of demo_policy "''boom''"] twice [OF ls(2), of demo_policy "''boom''"]
    by (simp add: Let_def n del: failing_attempts.simps)
qed

text \<open>
  (C17) Cancelling, in every case: a finished task is answered with its record and left alone, and a
  pending task fails at once. A running task fails and loses its lease while the lease has not run out;
  without a lease, or with one that has run out, cancelling is refused and changes nothing. A lease
  whose expiry is the largest \<open>i64\<close> counts as run out here, at any time.
\<close>

theorem cancel_ends_the_task:
  assumes "reached owner sha256 (db, fs)" and "sql_get_task tid db = Inr t"
  shows "let r = sql_cancel_task tid now_ms db in
    (is_terminal (tr_status t) \<longrightarrow> r = (Inr t, db)) \<and>
    (tr_status t = Pending \<longrightarrow> finishes tid (t\<lparr>tr_status := Failed\<rparr>) r) \<and>
    (tr_status t = Running \<and> sql_active_lease tid db = Inr None \<longrightarrow> r = (Inl (LeaseNotFound tid), db)) \<and>
    (\<forall>l. tr_status t = Running \<and> sql_active_lease tid db = Inr (Some l) \<longrightarrow>
       (if now_ms < lr_expires_at_ms l \<and> lr_expires_at_ms l < i64_max
        then finishes tid (t\<lparr>tr_status := Failed\<rparr>) r
        else r = (Inl (InvalidLeaseExpiry (lr_lease_id l) (lr_expires_at_ms l)
          (sat_add_i64 (lr_expires_at_ms l) 1) now_ms), db)))"
proof -
  note inv = reached_db [OF assms(1)]
  show ?thesis
    unfolding Let_def using cancel_effect [OF inv assms(2)] cancel_refused [OF inv assms(2)]
    by (auto simp: not_less)
qed

theorem cancel_ends_the_task_witness:
  "fst (sql_cancel_task ''t1'' 15 (node_after (map TaskOp demo_lease_ops))) = Inr (demo_task\<lparr>tr_status := Failed\<rparr>)"
proof -
  have "lr_expires_at_ms demo_lease = 20" by code_simp
  then show ?thesis
    using cancel_ends_the_task [OF node_reached [OF demo_node(1)] demo_leased(1), of 15]
    by (simp add: Let_def finishes_def demo_leased(2) i64_max_def)
qed

section \<open>The sweeps of the daemon\<close>

text \<open>
  (C18) The deadline sweep fails every unfinished task whose deadline has come and touches no other
  task. It always succeeds.
\<close>

theorem sweep_fails_expired_tasks:
  assumes "list_all (node_admissible owner) opers"
  shows "\<exists>failed db'. sql_fail_expired_deadlines now_ms None (node_after opers) = (Inr failed, db') \<and>
    (\<forall>tid. sql_get_task tid db' =
      (case sql_get_task tid (node_after opers) of
         Inr t \<Rightarrow> Inr (if \<not> is_terminal (tr_status t) \<and> past_deadline t now_ms then t\<lparr>tr_status := Failed\<rparr> else t)
       | Inl e \<Rightarrow> Inl e))"
  by (rule deadline_sweep [OF node_inv [OF assms]])

theorem sweep_fails_expired_tasks_witness:
  "\<exists>failed db'. sql_fail_expired_deadlines 100 None (node_after (map TaskOp demo_lease_ops)) = (Inr failed, db') \<and>
     sql_get_task ''t1'' db' = Inr (demo_task\<lparr>tr_status := Failed\<rparr>)"
proof -
  have "tr_deadline_ms demo_task = Some 100" by code_simp
  then have "past_deadline (demo_task\<lparr>tr_status := Running\<rparr>) 100" by (simp add: past_deadline_def)
  with sweep_fails_expired_tasks [OF demo_node(1), of 100] show ?thesis
    by (auto simp: demo_leased)
qed

text \<open>
  (C19) No task is lost to a dead worker: in every reached database recovery succeeds without reporting a
  corrupted task, and every task whose lease has run out is pending and unleased again. Leases that
  still run, and the tasks under them, are left alone. In reached databases a lease belongs to a running
  task and every history replays; the two steps that break this, a denied approval and a remote result
  for a leased task, are excluded.
\<close>

theorem recovery_frees_stale_tasks:
  assumes "reached owner sha256 (db, fs)"
  shows "\<exists>rep db'. sql_recover_stale_leases now_ms None db = (Inr rep, db') \<and> rr_corrupted_tasks rep = [] \<and>
    (\<forall>tid. if stale db tid now_ms
      then sql_active_lease tid db' = Inr None \<and>
        (\<exists>t. sql_get_task tid db = Inr t \<and> sql_get_task tid db' = Inr (t\<lparr>tr_status := Pending\<rparr>))
      else sql_active_lease tid db' = sql_active_lease tid db \<and> sql_get_task tid db' = sql_get_task tid db)"
  by (rule recovery_effect [OF reached_db [OF assms]])

theorem recovery_frees_stale_tasks_witness:
  "\<exists>rep db'. sql_recover_stale_leases 20 None (node_after (map TaskOp demo_lease_ops)) = (Inr rep, db') \<and>
     sql_active_lease ''t1'' db' = Inr None \<and> sql_get_task ''t1'' db' = Inr demo_task"
proof -
  have t: "demo_task\<lparr>tr_status := Pending\<rparr> = demo_task" and "lr_expires_at_ms demo_lease = 20" by code_simp+
  then have "stale (node_after (map TaskOp demo_lease_ops)) ''t1'' 20"
    by (simp add: stale_def demo_leased)
  moreover obtain rep db' where r: "sql_recover_stale_leases 20 None (node_after (map TaskOp demo_lease_ops)) = (Inr rep, db')"
    and eff: "\<And>tid. if stale (node_after (map TaskOp demo_lease_ops)) tid 20
      then sql_active_lease tid db' = Inr None \<and>
        (\<exists>t. sql_get_task tid (node_after (map TaskOp demo_lease_ops)) = Inr t \<and>
          sql_get_task tid db' = Inr (t\<lparr>tr_status := Pending\<rparr>))
      else sql_active_lease tid db' = sql_active_lease tid (node_after (map TaskOp demo_lease_ops)) \<and>
        sql_get_task tid db' = sql_get_task tid (node_after (map TaskOp demo_lease_ops))"
    using recovery_frees_stale_tasks [OF node_reached [OF demo_node(1)], of 20] by blast
  ultimately have "sql_active_lease ''t1'' db' = Inr None \<and> sql_get_task ''t1'' db' = Inr demo_task"
    using eff [of "''t1''"] t by (simp add: demo_leased)
  with r show ?thesis by blast
qed

section \<open>Work to claim\<close>

text \<open>
  (C20) The list of claimable work is in order of arrival, within the limit, and exact: it holds only
  pending tasks with an envelope that the asking peer may execute, and when the limit does not cut it
  off it holds all of them.
\<close>

theorem claimable_work_is_exact:
  assumes "list_all (node_admissible owner) opers" and "limit < 2 ^ 63"
    and "sql_claimable_pending_task_envelopes peer limit (node_after opers) = Inr xs"
  shows "let db = node_after opers in
    sorted (map arrival_key xs) \<and> length xs \<le> limit \<and>
    (\<forall>x \<in> set xs. sql_get_task (tr_id (pe_task x)) db = Inr (pe_task x) \<and> tr_status (pe_task x) = Pending \<and>
       sql_get_task_envelope (tr_id (pe_task x)) db = Inr (pe_envelope x) \<and> executor_allows db (tr_id (pe_task x)) peer) \<and>
    (\<forall>tid t env. length xs < limit \<and> sql_get_task tid db = Inr t \<and> tr_status t = Pending \<and>
       sql_get_task_envelope tid db = Inr env \<and> executor_allows db tid peer \<longrightarrow>
       \<lparr>pe_task = t, pe_envelope = env\<rparr> \<in> set xs)"
  unfolding Let_def using claimable_effect [OF node_inv [OF assms(1)] assms(2,3)] by blast

theorem claimable_work_is_exact_witness:
  "\<exists>xs. sql_claimable_pending_task_envelopes ''p1'' 5 (node_after (map TaskOp demo_submit_ops)) = Inr xs \<and>
     \<lparr>pe_task = demo_task, pe_envelope = demo_envelope\<rparr> \<in> set xs"
proof -
  let ?db = "node_after (map TaskOp demo_submit_ops)" and ?s = "run_ops mem_step demo_submit_ops mem_init"
  have q: "sql_get_task ''t1'' ?db = Inr demo_task" "sql_get_task_envelope ''t1'' ?db = Inr demo_envelope"
    "sql_get_transport_context ''t1'' ?db = Inl (TransportContextNotFound ''t1'')"
    unfolding task_ops_queries [OF demo_submit_admissible(2)] by code_simp+
  have m: "mem_claimable_pending_task_envelopes ''p1'' 5 ?s = Inr [\<lparr>pe_task = demo_task, pe_envelope = demo_envelope\<rparr>]"
    by code_simp
  have "sql_claimable_pending_task_envelopes ''p1'' 5 ?db = mem_claimable_pending_task_envelopes ''p1'' 5 ?s"
    using query_claimable [OF sql_reachable_matches [OF demo_submit_admissible(2)], of 5] by (simp add: task_ops_run)
  note xs = this [unfolded m]
  have "tr_status demo_task = Pending" by code_simp
  with claimable_work_is_exact [OF demo_submit_node(2) _ xs] q have
    "\<lparr>pe_task = demo_task, pe_envelope = demo_envelope\<rparr> \<in> set [\<lparr>pe_task = demo_task, pe_envelope = demo_envelope\<rparr>]"
    by (simp add: Let_def executor_allows_def)
  with xs show ?thesis by blast
qed

end
