(* ===== verification/Result_Properties.thy ===== *)
theory Result_Properties
  imports Result_Effects Store_Properties
begin

text \<open>
  The properties of terminal results and their delivery (\<open>results.rs\<close>), over the databases a node
  reaches. A delivery is named by \<open>delivery_id\<close> of its task; \<open>delivery_of\<close> reads its row.
\<close>

section \<open>A finished task with a result to return\<close>

definition demo_result :: terminal_result where
  "demo_result = \<lparr>tm_task_id = ''t1'', tm_encoded_result = [7], tm_terminal_status = Completed,
     tm_return_peer_id = Some ''p1'', tm_executor_peer_id = ''p2'', tm_created_at_ms = 15\<rparr>"

definition demo_result_op :: store_op where
  "demo_result_op = CompleteTaskWithResult ''t1'' ''l1'' ''w1'' demo_result"

definition demo_queued :: "node_op list" where
  "demo_queued = map TaskOp demo_lease_ops @ [TaskOp demo_result_op]"

definition demo_claimed :: "node_op list" where
  "demo_claimed = demo_queued @ [ClaimDelivery ''d1'' 30 50]"

definition demo_row :: outbox_row where
  "demo_row = \<lparr>ox_delivery_id = delivery_id ''t1'', ox_task_id = ''t1'', ox_target_peer_id = ''p1'',
     ox_state = ''pending'', ox_attempt_count = 0, ox_next_attempt_at_ms = 15, ox_lease_owner = None,
     ox_lease_expires_at_ms = None, ox_last_error = None, ox_created_at_ms = 15, ox_updated_at_ms = 15\<rparr>"

lemma demo_result_valid:
  "valid_result demo_result" "tm_task_id demo_result = ''t1''" "is_terminal (tm_terminal_status demo_result)"
  "tm_return_peer_id demo_result = Some ''p1''"
  by code_simp+

lemma demo_holder: "leased_to (node_after (map TaskOp demo_lease_ops)) ''t1'' ''l1'' ''w1''"
  by (simp add: leased_to_def demo_leased demo_lease_def lease_record_new_def)

lemma demo_queued_node: "list_all (node_admissible demo_owner) demo_queued"
    "list_all (node_admissible demo_owner) demo_claimed"
  using demo_node(1) demo_result_valid(1)
  by (simp_all add: demo_claimed_def demo_queued_def demo_result_op_def sql_admissible_def)

lemma demo_queued_step: "node_after demo_queued =
    snd (sql_complete_task_with_result ''t1'' ''l1'' ''w1'' demo_result (node_after (map TaskOp demo_lease_ops)))"
  by (simp add: demo_queued_def demo_result_op_def node.run_append)

lemma demo_outbox: "make_outbox demo_result = Some ob \<longleftrightarrow> ob = the (make_outbox demo_result)"
    "outbox_to_row (the (make_outbox demo_result)) = demo_row"
    "ob_delivery_id (the (make_outbox demo_result)) = delivery_id ''t1''"
  by (auto simp: make_outbox_def demo_result_def outbox_to_row_def demo_row_def)

lemma demo_recorded:
  "sql_get_task ''t1'' (node_after demo_queued) = Inr (demo_task\<lparr>tr_status := Completed\<rparr>)"
  "sql_get_terminal_result ''t1'' (node_after demo_queued) = Inr demo_result"
  "delivery_of (node_after demo_queued) (delivery_id ''t1'') = Some demo_row"
  using completion_enqueues [OF node_inv [OF demo_node(1)] demo_holder demo_leased(1) demo_result_valid(1-3),
      of "the (make_outbox demo_result)"]
  unfolding demo_queued_step [symmetric] demo_outbox by (simp_all add: finishes_def demo_queued_step)

lemma distinct_singleton_set: "distinct xs \<Longrightarrow> set xs = {x} \<Longrightarrow> xs = [x]"
  by (cases xs; cases "tl xs") auto

lemma demo_outbox_rows: "db_result_outbox (node_after demo_queued) = [demo_row]"
proof -
  let ?ops = "demo_lease_ops @ [demo_result_op]" and ?rows = "db_result_outbox (node_after demo_queued)"
  have "list_all (sql_admissible demo_owner) ?ops"
    using demo_queued_node(1) task_ops_admissible [of demo_owner ?ops] by (simp add: demo_queued_def)
  from sql_reachable_matches [OF this] have m: "matches demo_owner (node_after demo_queued) (run_ops mem_step ?ops mem_init)"
    using task_ops_run [of ?ops sql_init] by (simp only: demo_queued_def map_append list.map)
  have keys: "fmkeys (ms_result_outbox (run_ops mem_step ?ops mem_init)) = [delivery_id ''t1'']" by code_simp
  have "ox_delivery_id r = delivery_id ''t1''" if r: "r \<in> set ?rows" for r
  proof -
    from outbox_matches_row [OF matches_outbox [OF m] r] obtain ob where
      "fmlookup (ms_result_outbox (run_ops mem_step ?ops mem_init)) (ox_delivery_id r) = Some ob" .
    then have "ox_delivery_id r \<in> set (fmkeys (ms_result_outbox (run_ops mem_step ?ops mem_init)))"
      unfolding set_fmkeys by (rule fmdom'I)
    then show ?thesis unfolding keys by simp
  qed
  then have same: "r = demo_row" if "r \<in> set ?rows" for r
    using that demo_recorded(3) delivery_of_iff [OF node_inv [OF demo_queued_node(1)], of "delivery_id ''t1''" r] by simp
  have "distinct ?rows"
    using delivery_rows [OF node_inv [OF demo_queued_node(1)]] by (simp add: distinct_map)
  moreover have "set ?rows = {demo_row}"
    using same demo_recorded(3) delivery_of_iff [OF node_inv [OF demo_queued_node(1)], of "delivery_id ''t1''" demo_row] by blast
  ultimately show ?thesis by (simp add: distinct_singleton_set)
qed

lemma demo_claim:
  "\<exists>ob res. claim_next_result_delivery ''d1'' 30 50 (node_after demo_queued) = (Inr (Some (ob, res)), node_after demo_claimed) \<and>
     ob_delivery_id ob = delivery_id ''t1''"
  "delivery_of (node_after demo_claimed) (delivery_id ''t1'') = Some (lease_delivery ''d1'' 80 30 demo_row)"
proof -
  have "node_after demo_claimed = snd (claim_next_result_delivery ''d1'' 30 50 (node_after demo_queued))"
    by (simp add: demo_claimed_def node.run_append)
  moreover from node_inv [OF demo_queued_node(1)] obtain s where "matches demo_owner (node_after demo_queued) s"
    by (rule sql_invE)
  note claim_effect [OF this, of 30 "''d1''" 50]
  moreover have "due_deliveries 30 (map (expire_row 30) [demo_row]) = [demo_row]"
    by (simp add: due_deliveries_def expire_row_def delivery_lease_expired_def demo_row_def)
  moreover have "sat_add_i64 30 50 = 80" by (simp add: sat_add_i64_def i64_max_def i64_min_def)
  moreover have "map (expire_row 30) [demo_row] = [demo_row]"
    by (simp add: expire_row_def delivery_lease_expired_def demo_row_def)
  ultimately have claim: "\<exists>ob res. claim_next_result_delivery ''d1'' 30 50 (node_after demo_queued) =
      (Inr (Some (ob, res)), node_after demo_claimed) \<and> ob_delivery_id ob = ox_delivery_id demo_row"
    "db_result_outbox (node_after demo_claimed) = [claim_row (ox_delivery_id demo_row) ''d1'' 80 30 demo_row]"
    unfolding demo_outbox_rows by auto
  then show "\<exists>ob res. claim_next_result_delivery ''d1'' 30 50 (node_after demo_queued) =
      (Inr (Some (ob, res)), node_after demo_claimed) \<and> ob_delivery_id ob = delivery_id ''t1''"
    "delivery_of (node_after demo_claimed) (delivery_id ''t1'') = Some (lease_delivery ''d1'' 80 30 demo_row)"
    by (simp_all add: demo_row_def delivery_of_def claim_row_def lease_delivery_def)
qed

section \<open>Results\<close>

text \<open>
  (C21) Completing with a result is atomic: the holder's call completes the task, ends its lease,
  stores the result and, when the result names a peer to return to, queues exactly its delivery, due
  at once and never attempted.
\<close>

theorem completion_queues_the_result:
  assumes "list_all (node_admissible owner) opers" and "leased_to (node_after opers) tid lid wid"
    and "sql_get_task tid (node_after opers) = Inr t"
    and "valid_result r" and "tm_task_id r = tid" and "is_terminal (tm_terminal_status r)"
    and "tm_return_peer_id r = Some p"
  shows "let x = sql_complete_task_with_result tid lid wid r (node_after opers) in
    finishes tid (t\<lparr>tr_status := Completed\<rparr>) x \<and> sql_get_terminal_result tid (snd x) = Inr r \<and>
    (\<exists>row. delivery_of (snd x) (delivery_id tid) = Some row \<and> ox_task_id row = tid \<and> ox_target_peer_id row = p \<and>
       ox_state row = ''pending'' \<and> ox_attempt_count row = 0 \<and> ox_next_attempt_at_ms row = tm_created_at_ms r)"
proof -
  from assms(7) obtain ob where ob: "make_outbox r = Some ob" by (simp add: make_outbox_def)
  from completion_enqueues [OF node_inv [OF assms(1)] assms(2-6) ob] ob assms(5,7) show ?thesis
    by (auto simp: Let_def make_outbox_def outbox_to_row_def)
qed

theorem completion_queues_the_result_witness:
  "\<exists>row. delivery_of (node_after demo_queued) (delivery_id ''t1'') = Some row \<and> ox_target_peer_id row = ''p1''"
  using completion_queues_the_result [OF demo_node(1) demo_holder demo_leased(1) demo_result_valid]
  by (auto simp: Let_def demo_queued_step)

text \<open>
  A stored result belongs to a finished task and carries a terminal status. If it names a peer to return
  to, its delivery is in the outbox, addressed to that peer; the results of remote peers name none.
\<close>

theorem stored_result_is_terminal:
  assumes "reached owner sha256 (db, fs)" and "sql_get_terminal_result tid db = Inr r"
  shows "tm_task_id r = tid \<and> is_terminal (tm_terminal_status r) \<and>
    (\<exists>t. sql_get_task tid db = Inr t \<and> is_terminal (tr_status t)) \<and>
    (\<forall>p. tm_return_peer_id r = Some p \<longrightarrow>
       (\<exists>row. delivery_of db (delivery_id tid) = Some row \<and> ox_task_id row = tid \<and> ox_target_peer_id row = p))"
  using result_recorded [OF reached_db [OF assms(1)] assms(2)] by blast

theorem stored_result_is_terminal_witness:
  "\<exists>t. sql_get_task ''t1'' (node_after demo_queued) = Inr t \<and> is_terminal (tr_status t)"
  using stored_result_is_terminal [OF node_reached [OF demo_queued_node(1)] demo_recorded(2)] by blast

text \<open>
  (C22) Reporting a result twice is harmless: the same result is answered with the finished task, a
  different one with a conflict, and neither changes the database.
\<close>

theorem repeated_completion_is_harmless:
  assumes "list_all (node_admissible owner) opers" and "sql_get_terminal_result tid (node_after opers) = Inr r"
    and "sql_get_task tid (node_after opers) = Inr t"
    and "is_terminal (tm_terminal_status r')" and "tm_task_id r' = tid"
  shows "sql_complete_task_with_result tid lid wid r' (node_after opers) =
    (if r' = r then Inr t else Inl (TerminalResultConflict tid), node_after opers)"
  using recorded_result_repeats [OF node_inv [OF assms(1)] assms(2,3)] assms(4,5) by simp

theorem repeated_completion_is_harmless_witness:
  "sql_complete_task_with_result ''t1'' ''l1'' ''w1'' (demo_result\<lparr>tm_encoded_result := [8]\<rparr>) (node_after demo_queued) =
     (Inl (TerminalResultConflict ''t1''), node_after demo_queued)"
proof -
  have "demo_result\<lparr>tm_encoded_result := [8]\<rparr> \<noteq> demo_result" "is_terminal (tm_terminal_status (demo_result\<lparr>tm_encoded_result := [8]\<rparr>))"
    "tm_task_id (demo_result\<lparr>tm_encoded_result := [8]\<rparr>) = ''t1''"
    by code_simp+
  then show ?thesis
    using repeated_completion_is_harmless [OF demo_queued_node(1) demo_recorded(2,1)] by simp
qed

section \<open>Deliveries\<close>

text \<open>
  (C23) A delivery is attempted at most ten times: whatever sequence of operations a node performs,
  no delivery is handed out to dispatchers more often than that, crashed dispatchers included.
\<close>

theorem delivery_attempts_bounded:
  assumes "list_all (node_admissible owner) opers"
  shows "length (filter (hands_out d) (replies node_exec opers sql_init)) \<le> 10"
  by (rule outbox.handed_out_at_most [OF node.start_inv assms])

theorem delivery_attempts_bounded_witness:
  "length (filter (hands_out (delivery_id ''t1'')) (replies node_exec demo_claimed sql_init)) \<le> 10"
  by (rule delivery_attempts_bounded [OF demo_queued_node(2)])

text \<open>
  (C24) A claim is exclusive: a claimed delivery stays with its claimant through every later sequence of
  operations in which the claim itself is not settled and no claim is made at or after its expiry. No
  claim is handed the delivery meanwhile, and its row stays as the claim left it.
\<close>

theorem claimed_delivery_is_exclusive:
  assumes "list_all (node_admissible owner) (before @ after)"
    and "claim_next_result_delivery w now_ms dur (node_after before) = (Inr (Some (ob, res)), db')"
    and "list_all (leaves_claim (ob_delivery_id ob) w (sat_add_i64 now_ms (max dur 1))) after"
  shows "filter (hands_out (ob_delivery_id ob)) (replies node_exec after db') = [] \<and>
    delivery_of (run_ops node_exec after db') (ob_delivery_id ob) = delivery_of db' (ob_delivery_id ob)"
proof -
  have opers: "list_all (node_admissible owner) before" "list_all (node_admissible owner) after"
    using assms(1) by simp_all
  obtain r where r: "delivery_of db' (ob_delivery_id ob) = Some r" "held_by w (sat_add_i64 now_ms (max dur 1)) r"
    by (rule claim_hands_out [OF node_inv [OF opers(1)] assms(2)]) (simp add: held_by_def lease_delivery_def)
  have "sql_inv owner db'"
    using node_exec_inv [OF node_inv [OF opers(1)], of "ClaimDelivery w now_ms dur"] assms(2) by simp
  from held_run [OF this opers(2) assms(3) r] r(1) show ?thesis by simp
qed

theorem claimed_delivery_is_exclusive_witness:
  "filter (hands_out (delivery_id ''t1'')) (replies node_exec [ClaimDelivery ''d2'' 60 50,
     AckDelivery (delivery_id ''t1'') ''d2'' 80 70, TaskOp (CancelTask ''t1'' 70), ClaimDelivery ''d2'' 79 50]
     (node_after demo_claimed)) = []"
proof -
  let ?after = "[ClaimDelivery ''d2'' 60 50, AckDelivery (delivery_id ''t1'') ''d2'' 80 70, TaskOp (CancelTask ''t1'' 70),
    ClaimDelivery ''d2'' 79 50]"
  have adm: "list_all (node_admissible demo_owner) (demo_queued @ ?after)"
    using demo_queued_node(1) by (simp add: sql_admissible_def)
  have e: "sat_add_i64 30 (max 50 1) = 80" by code_simp
  obtain ob res where claim: "claim_next_result_delivery ''d1'' 30 50 (node_after demo_queued) =
      (Inr (Some (ob, res)), node_after demo_claimed)" "ob_delivery_id ob = delivery_id ''t1''"
    using demo_claim(1) by blast
  have "list_all (leaves_claim (ob_delivery_id ob) ''d1'' (sat_add_i64 30 (max 50 1))) ?after"
    unfolding e by simp
  from claimed_delivery_is_exclusive [OF adm claim(1) this] show ?thesis
    unfolding claim(2) by (simp del: replies.simps)
qed

text \<open>
  (C25) No due delivery is forgotten: when a pending delivery is due, a claim succeeds. What it hands out
  was due itself, comes no later in the order of the queue than the delivery in question, and carries
  the result that is stored for its task; its row is then leased to the caller until the expiry the
  caller is told.
\<close>

theorem due_delivery_is_claimed:
  assumes "list_all (node_admissible owner) opers" and "delivery_of (node_after opers) d = Some r"
    and "ox_state r = ''pending''" and "ox_next_attempt_at_ms r \<le> now_ms"
  shows "\<exists>ob res db' row row'. claim_next_result_delivery w now_ms dur (node_after opers) = (Inr (Some (ob, res)), db') \<and>
    delivery_of (node_after opers) (ob_delivery_id ob) = Some row \<and> due now_ms row \<and>
    outbox_key (expire_row now_ms row) \<le> outbox_key r \<and>
    ob_task_id ob = ox_task_id row \<and> sql_get_terminal_result (ox_task_id row) (node_after opers) = Inr res \<and>
    delivery_of db' (ob_delivery_id ob) = Some row' \<and> ox_state row' = ''leased'' \<and> ox_lease_owner row' = Some w \<and>
    ox_lease_expires_at_ms row' = Some (sat_add_i64 now_ms (max dur 1))"
proof -
  note inv = node_inv [OF assms(1)]
  have r: "r \<in> set (db_result_outbox (node_after opers))"
    using assms(2) delivery_of_iff [OF inv, of d r] by simp
  obtain ob res db' where claim: "claim_next_result_delivery w now_ms dur (node_after opers) = (Inr (Some (ob, res)), db')"
    using claim_complete [OF inv r assms(3,4)] by blast
  from claim_hands_out [OF inv claim] obtain row where row:
    "delivery_of (node_after opers) (ob_delivery_id ob) = Some row" "due now_ms row" "ob_task_id ob = ox_task_id row"
    "sql_get_terminal_result (ox_task_id row) (node_after opers) = Inr res"
    "\<forall>r \<in> set (db_result_outbox (node_after opers)). due now_ms r \<longrightarrow> outbox_key (expire_row now_ms row) \<le> outbox_key (expire_row now_ms r)"
    "delivery_of db' (ob_delivery_id ob) = Some (lease_delivery w (sat_add_i64 now_ms (max dur 1)) now_ms (expire_row now_ms row))" .
  have "expire_row now_ms r = r" "due now_ms r"
    using assms(3,4) by (simp_all add: expire_row_def delivery_lease_expired_def due_def)
  with row(5) r have "outbox_key (expire_row now_ms row) \<le> outbox_key r" by metis
  with claim row(1-4,6) show ?thesis
    by (intro exI [of _ ob] exI [of _ res] exI [of _ db'] exI [of _ row]
        exI [of _ "lease_delivery w (sat_add_i64 now_ms (max dur 1)) now_ms (expire_row now_ms row)"])
      (simp add: lease_delivery_def del: run_ops_simps)
qed

theorem due_delivery_is_claimed_witness:
  "\<exists>ob db'. claim_next_result_delivery ''d1'' 15 50 (node_after demo_queued) = (Inr (Some (ob, demo_result)), db')"
proof -
  have due: "ox_state demo_row = ''pending''" "ox_next_attempt_at_ms demo_row \<le> 15" by (simp_all add: demo_row_def)
  from due_delivery_is_claimed [OF demo_queued_node(1) demo_recorded(3) due, of "''d1''" 50] obtain ob res db' row where
    c: "claim_next_result_delivery ''d1'' 15 50 (node_after demo_queued) = (Inr (Some (ob, res)), db')"
      "delivery_of (node_after demo_queued) (ob_delivery_id ob) = Some row"
      "sql_get_terminal_result (ox_task_id row) (node_after demo_queued) = Inr res" by blast
  have "row = demo_row"
    using c(2) delivery_of_iff [OF node_inv [OF demo_queued_node(1)], of "ob_delivery_id ob" row] demo_outbox_rows by simp
  with c demo_recorded(2) show ?thesis by (auto simp: demo_row_def)
qed

text \<open>
  (C26) Only the live claim acknowledges: an acknowledgement succeeds exactly when the row of the delivery
  is leased, its lease owner is the caller, its expiry is the one the caller names, and that expiry is
  still ahead. Then the delivery is delivered and free of its lease; otherwise nothing changes.
\<close>

theorem only_live_claim_acknowledges:
  assumes "list_all (node_admissible owner) opers"
  shows "let db = node_after opers; x = ack_result_delivery d w e now_ms db in
    (fst x = Inr () \<longleftrightarrow> (\<exists>r. delivery_of db d = Some r \<and> ox_state r = ''leased'' \<and> ox_lease_owner r = Some w \<and>
       ox_lease_expires_at_ms r = Some e \<and> now_ms < e)) \<and>
    (if fst x = Inr () then \<exists>r. delivery_of (snd x) d = Some r \<and> ox_state r = ''delivered'' \<and> ox_lease_owner r = None
     else snd x = db)"
proof -
  have "(\<exists>r. delivery_of (node_after opers) d = Some r \<and> delivery_claimed d w e now_ms r) \<longleftrightarrow>
      (\<exists>r. delivery_of (node_after opers) d = Some r \<and> ox_state r = ''leased'' \<and> ox_lease_owner r = Some w \<and>
         ox_lease_expires_at_ms r = Some e \<and> now_ms < e)"
    using delivery_of_id by (auto simp: delivery_claimed_def)
  note iff = ack_effect(1) [OF node_inv [OF assms], of d w e now_ms, unfolded this]
  from ack_effect(2,3) [OF node_inv [OF assms], of d w e now_ms] show ?thesis
    unfolding Let_def by (intro conjI iff) auto
qed

theorem only_live_claim_acknowledges_witness:
  "fst (ack_result_delivery (delivery_id ''t1'') ''d1'' 80 79 (node_after demo_claimed)) = Inr () \<and>
   fst (ack_result_delivery (delivery_id ''t1'') ''d1'' 80 80 (node_after demo_claimed)) \<noteq> Inr ()"
  using only_live_claim_acknowledges [OF demo_queued_node(2), of "delivery_id ''t1''" "''d1''" 80 79]
    only_live_claim_acknowledges [OF demo_queued_node(2), of "delivery_id ''t1''" "''d1''" 80 80] demo_claim(2)
  by (simp add: Let_def lease_delivery_def)

text \<open>
  (C27) A failed attempt of the live claim is counted, the next attempt is put off by at most the
  maximal retry delay whatever the caller asks for, and the tenth failure or the caller's verdict
  dead-letters the delivery.
\<close>

theorem failed_delivery_is_rescheduled:
  assumes "list_all (node_admissible owner) opers" and "delivery_of (node_after opers) d = Some r"
    and "delivery_claimed d w e now_ms r"
  shows "let x = fail_result_delivery d (w, e) now_ms at why dead (node_after opers) in
    \<exists>r'. delivery_of (snd x) d = Some r' \<and> fst x = Inr () \<and>
      ox_next_attempt_at_ms r' \<le> sat_add_i64 now_ms max_result_delivery_retry_delay_ms \<and>
      ox_attempt_count r' = ox_attempt_count r + 1 \<and> ox_attempt_count r' \<le> max_result_delivery_attempts \<and>
      ox_state r' = (if dead \<or> ox_attempt_count r' = max_result_delivery_attempts then ''dead_lettered'' else ''pending'')"
  using fail_delivery_effect [OF node_inv [OF assms(1)] assms(2,3)] by (simp add: Let_def)

theorem failed_delivery_is_rescheduled_witness:
  "\<exists>r'. delivery_of (snd (fail_result_delivery (delivery_id ''t1'') (''d1'', 80) 40 99999999 ''offline'' False
     (node_after demo_claimed))) (delivery_id ''t1'') = Some r' \<and> ox_attempt_count r' = 1 \<and> ox_state r' = ''pending''"
proof -
  have "delivery_claimed (delivery_id ''t1'') ''d1'' 80 40 (lease_delivery ''d1'' 80 30 demo_row)"
    "ox_attempt_count (lease_delivery ''d1'' 80 30 demo_row) = 0"
    by (simp_all add: delivery_claimed_def lease_delivery_def demo_row_def)
  with failed_delivery_is_rescheduled [OF demo_queued_node(2) demo_claim(2)] show ?thesis
    unfolding Let_def by (force simp: max_result_delivery_attempts_def)
qed

text \<open>
  (C28) A settled delivery is settled for good: once a row is delivered or dead-lettered no later
  operation changes it and no claim hands it out again.
\<close>

theorem settled_delivery_is_final:
  assumes "list_all (node_admissible owner) (before @ after)" and "delivery_of (node_after before) d = Some r"
    and "ox_state r \<in> {''delivered'', ''dead_lettered''}"
  shows "delivery_of (node_after (before @ after)) d = Some r \<and>
    filter (hands_out d) (replies node_exec after (node_after before)) = []"
  using outbox.settled_stays [OF node_inv, of owner before after d r] assms
  by (simp add: settled_def node.run_append)

theorem settled_delivery_is_final_witness:
  "\<exists>r. delivery_of (node_after ((demo_claimed @ [AckDelivery (delivery_id ''t1'') ''d1'' 80 79]) @ [ClaimDelivery ''d2'' 99 9]))
     (delivery_id ''t1'') = Some r \<and> ox_state r = ''delivered''"
proof -
  let ?before = "demo_claimed @ [AckDelivery (delivery_id ''t1'') ''d1'' 80 79]"
  have "delivery_claimed (delivery_id ''t1'') ''d1'' 80 79 (lease_delivery ''d1'' 80 30 demo_row)"
    by (simp add: delivery_claimed_def lease_delivery_def demo_row_def)
  then have "fst (ack_result_delivery (delivery_id ''t1'') ''d1'' 80 79 (node_after demo_claimed)) = Inr ()"
    using ack_effect(1) [OF node_inv [OF demo_queued_node(2)]] demo_claim(2) by blast
  from ack_effect(2) [OF node_inv [OF demo_queued_node(2)] this] obtain r where
    r: "delivery_of (node_after ?before) (delivery_id ''t1'') = Some r" "ox_state r = ''delivered''"
    by (auto simp: node.run_append)
  moreover have "list_all (node_admissible demo_owner) (?before @ [ClaimDelivery ''d2'' 99 9])"
    using demo_queued_node(2) by simp
  ultimately show ?thesis
    using settled_delivery_is_final [OF _ r(1)] by auto
qed

end
