(* ===== verification/Artifact_Mem.thy ===== *)
theory Artifact_Mem
  imports Artifact_Contract
begin

text \<open>
  The in-memory artifact store meets the contract. Its reference counts are \<open>u32\<close> values that
  saturate, so the contract holds as long as fewer artifacts are stored than a \<open>u32\<close> can count.
\<close>

section \<open>Contents and counts\<close>

text \<open>The in-memory tables hold the content of the artifacts of \<open>m\<close>, and the files mirror the blobs.\<close>

definition mem_contents :: "mem_state \<times> blob_dir \<Rightarrow> artifact_map \<Rightarrow> bool" where
  "mem_contents st m \<longleftrightarrow>
     (\<forall>k. fmlookup (ms_inline_artifacts (fst st)) k =
        (case fmlookup m k of Some (a, c) \<Rightarrow> if ar_inline a then Some c else None | None \<Rightarrow> None)) \<and>
     (\<forall>d. blob_refs m d = (case fmlookup (ms_blobs (fst st)) d of Some (_, n) \<Rightarrow> unat n | None \<Rightarrow> 0)) \<and>
     (\<forall>d c. fmlookup (ms_blobs (fst st)) d \<noteq> Some (c, 0)) \<and>
     (\<forall>d. fmlookup (snd st) d = map_option fst (fmlookup (ms_blobs (fst st)) d)) \<and>
     (\<forall>k a c. fmlookup m k = Some (a, c) \<longrightarrow> \<not> ar_inline a \<longrightarrow>
        map_option fst (fmlookup (ms_blobs (fst st)) (ar_digest a)) = Some c)"

definition mem_holds :: "(bytes \<Rightarrow> bytes) \<Rightarrow> mem_state \<times> blob_dir \<Rightarrow> artifact_map \<Rightarrow> bool" where
  "mem_holds sha256 st m \<longleftrightarrow>
     (\<forall>k. fmlookup (ms_artifacts (fst st)) k = map_option fst (fmlookup m k)) \<and>
     (\<forall>k p. fmlookup m k = Some p \<longrightarrow> ar_artifact_id (fst p) = k \<and> artifact_ok sha256 p) \<and>
     mem_contents st m"

definition mem_knows :: "mem_state \<times> blob_dir \<Rightarrow> task_id \<Rightarrow> bool" where
  "mem_knows st tid \<longleftrightarrow> fmlookup (ms_tasks (fst st)) tid \<noteq> None"

definition countable_refs :: "artifact_map \<Rightarrow> bool" where
  "countable_refs m \<longleftrightarrow> fcard (fmdom m) < 2 ^ 32 - 1"

lemma blob_refs_bound: "blob_refs m d \<le> fcard (fmdom m)"
proof -
  have "ref_set m d \<subseteq> fset (fmdom m)"
    by (auto simp: ref_set_def fmlookup_dom_iff)
  then show ?thesis
    unfolding blob_refs_def by (simp add: fcard.rep_eq card_mono)
qed

lemma mem_contents_frame:
  "ms_inline_artifacts s = ms_inline_artifacts s' \<Longrightarrow> ms_blobs s = ms_blobs s' \<Longrightarrow>
     mem_contents (s, fs) m = mem_contents (s', fs) m"
  by (simp add: mem_contents_def)

lemma mem_contents_blob:
  assumes "mem_contents (s, fs) m" "fmlookup m k = Some (a, c)" "\<not> ar_inline a"
  shows "\<exists>n. fmlookup (ms_blobs s) (ar_digest a) = Some (c, n)"
proof -
  have "map_option fst (fmlookup (ms_blobs s) (ar_digest a)) = Some c"
    using assms unfolding mem_contents_def by auto
  then show ?thesis by auto
qed

lemma mem_contentsD:
  assumes "mem_contents (s, fs) m"
  shows "fmlookup (ms_inline_artifacts s) k =
      (case fmlookup m k of Some (a, c) \<Rightarrow> if ar_inline a then Some c else None | None \<Rightarrow> None)"
    and "blob_refs m d = (case fmlookup (ms_blobs s) d of Some (_, n) \<Rightarrow> unat n | None \<Rightarrow> 0)"
    and "fmlookup (ms_blobs s) d \<noteq> Some (c, 0)"
    and "fmlookup fs d = map_option fst (fmlookup (ms_blobs s) d)"
  using assms unfolding mem_contents_def by simp_all

lemma mem_contentsI:
  assumes "\<And>k. fmlookup (ms_inline_artifacts s) k =
      (case fmlookup m k of Some (a, c) \<Rightarrow> if ar_inline a then Some c else None | None \<Rightarrow> None)"
    and "\<And>d. blob_refs m d = (case fmlookup (ms_blobs s) d of Some (_, n) \<Rightarrow> unat n | None \<Rightarrow> 0)"
    and "\<And>d c. fmlookup (ms_blobs s) d \<noteq> Some (c, 0)"
    and "\<And>d. fmlookup fs d = map_option fst (fmlookup (ms_blobs s) d)"
    and "\<And>k a c. fmlookup m k = Some (a, c) \<Longrightarrow> \<not> ar_inline a \<Longrightarrow>
      \<exists>n. fmlookup (ms_blobs s) (ar_digest a) = Some (c, n)"
  shows "mem_contents (s, fs) m"
  unfolding mem_contents_def using assms by simp

lemma mem_contents_drop_blob:
  assumes h: "mem_contents (s, fs) m" and old: "fmlookup m k = Some (a, c)" "\<not> ar_inline a"
  shows "\<exists>blobs fs'. decrement_in_memory_blob_ref (ar_digest a) (s, fs) = (s\<lparr>ms_blobs := blobs\<rparr>, fs') \<and>
    mem_contents (s\<lparr>ms_blobs := blobs\<rparr>, fs') (fmdrop k m)"
proof -
  let ?d = "ar_digest a"
  note D = mem_contentsD [OF h]
  have refs: "blob_refs m e = blob_refs (fmdrop k m) e + (if ?d = e then 1 else 0)" for e
    using blob_refs_drop [of m e k] old by simp
  obtain n where n: "fmlookup (ms_blobs s) ?d = Some (c, n)"
    using mem_contents_blob [OF h old] by blast
  have count: "unat n = blob_refs (fmdrop k m) ?d + 1"
    using D(2) [of ?d] refs [of ?d] n by simp
  have other: "blob_refs (fmdrop k m) e = (case fmlookup (ms_blobs s) e of Some (_, n) \<Rightarrow> unat n | None \<Rightarrow> 0)"
    if "e \<noteq> ?d" for e using D(2) [of e] refs [of e] that by simp
  have kept: "\<exists>n. fmlookup (ms_blobs s) (ar_digest b) = Some (cb, n)" "0 < blob_refs (fmdrop k m) (ar_digest b)"
    if "fmlookup (fmdrop k m) j = Some (b, cb)" "\<not> ar_inline b" for j b cb
    using mem_contents_blob [OF h, of j b cb] blob_refs_pos [OF that] that by (auto split: if_splits)
  have inline: "fmlookup (ms_inline_artifacts s) j =
      (case fmlookup (fmdrop k m) j of Some (a, c) \<Rightarrow> if ar_inline a then Some c else None | None \<Rightarrow> None)" for j
    using D(1) [of j] old by simp
  show ?thesis
  proof (cases "1 < n")
    case True
    then have "1 < unat n" "n \<noteq> 0" by (auto simp: word_less_nat_alt)
    then have pred: "unat (n - 1) = blob_refs (fmdrop k m) ?d" "n - 1 \<noteq> 0"
      using count by (auto simp: unat_minus_one)
    have "mem_contents (s\<lparr>ms_blobs := fmupd ?d (c, n - 1) (ms_blobs s)\<rparr>, fs) (fmdrop k m)"
    proof (rule mem_contentsI)
      fix j b cb
      assume "fmlookup (fmdrop k m) j = Some (b, cb)" "\<not> ar_inline b"
      from kept(1) [OF this] n
      show "\<exists>n'. fmlookup (ms_blobs (s\<lparr>ms_blobs := fmupd ?d (c, n - 1) (ms_blobs s)\<rparr>)) (ar_digest b) = Some (cb, n')"
        by (cases "ar_digest b = ?d") auto
    next
      fix e
      show "fmlookup fs e = map_option fst (fmlookup (ms_blobs (s\<lparr>ms_blobs := fmupd ?d (c, n - 1) (ms_blobs s)\<rparr>)) e)"
        using D(4) [of e] n by (cases "e = ?d") auto
      show "blob_refs (fmdrop k m) e = (case fmlookup (ms_blobs (s\<lparr>ms_blobs := fmupd ?d (c, n - 1) (ms_blobs s)\<rparr>)) e of
          Some (_, n) \<Rightarrow> unat n | None \<Rightarrow> 0)"
        using pred other [of e] by (cases "e = ?d") simp_all
    qed (use D(3) pred inline in simp_all)
    with True n show ?thesis by (auto simp: decrement_in_memory_blob_ref_def)
  next
    case False
    then have "unat n \<le> 1" by (simp add: word_less_nat_alt)
    then have zero: "blob_refs (fmdrop k m) ?d = 0" using count by simp
    have "mem_contents (s\<lparr>ms_blobs := fmdrop ?d (ms_blobs s)\<rparr>, fmdrop ?d fs) (fmdrop k m)"
    proof (rule mem_contentsI)
      fix j b cb
      assume "fmlookup (fmdrop k m) j = Some (b, cb)" "\<not> ar_inline b"
      from kept [OF this] zero
      show "\<exists>n'. fmlookup (ms_blobs (s\<lparr>ms_blobs := fmdrop ?d (ms_blobs s)\<rparr>)) (ar_digest b) = Some (cb, n')"
        by (cases "ar_digest b = ?d") auto
    next
      fix e
      show "blob_refs (fmdrop k m) e = (case fmlookup (ms_blobs (s\<lparr>ms_blobs := fmdrop ?d (ms_blobs s)\<rparr>)) e of
          Some (_, n) \<Rightarrow> unat n | None \<Rightarrow> 0)"
        using zero other [of e] by (cases "e = ?d") simp_all
    qed (use D(3,4) inline in simp_all)
    with False n show ?thesis by (auto simp: decrement_in_memory_blob_ref_def remove_blob_file_if_present_def)
  qed
qed

lemma mem_contents_drop_inline:
  assumes h: "mem_contents (s, fs) m" and old: "fmlookup m k = Some (a, c)" "ar_inline a"
  shows "mem_contents (s\<lparr>ms_inline_artifacts := fmdrop k (ms_inline_artifacts s)\<rparr>, fs) (fmdrop k m)"
proof (rule mem_contentsI)
  show "\<exists>n'. fmlookup (ms_blobs (s\<lparr>ms_inline_artifacts := fmdrop k (ms_inline_artifacts s)\<rparr>)) (ar_digest b) =
      Some (cb, n')"
    if "fmlookup (fmdrop k m) j = Some (b, cb)" "\<not> ar_inline b" for j b cb
    using mem_contents_blob [OF h, of j b cb] that by (auto split: if_splits)
  show "blob_refs (fmdrop k m) d =
      (case fmlookup (ms_blobs (s\<lparr>ms_inline_artifacts := fmdrop k (ms_inline_artifacts s)\<rparr>)) d of
         Some (_, n) \<Rightarrow> unat n | None \<Rightarrow> 0)" for d
    using mem_contentsD(2) [OF h, of d] blob_refs_drop [of m d k] old by simp
qed (use mem_contentsD [OF h] in simp_all)

text \<open>Forgetting the artifact a put replaces, or none.\<close>

lemma mem_contents_drop:
  assumes h: "mem_contents (s, fs) m" and old: "\<And>a c. fmlookup m k = Some (a, c) \<Longrightarrow> ar_artifact_id a = k"
  shows "\<exists>s' fs'. (case map_option fst (fmlookup m k) of
        Some existing \<Rightarrow> drop_in_memory_artifact_association existing (s, fs) | None \<Rightarrow> (s, fs)) = (s', fs') \<and>
      ms_artifacts s' = ms_artifacts s \<and> mem_contents (s', fs') (fmdrop k m)"
proof (cases "fmlookup m k")
  case None
  then have "fmdrop k m = m" by (intro fmap_ext) auto
  with None h show ?thesis by simp
next
  case (Some p)
  obtain a c where p: "p = (a, c)" by fastforce
  show ?thesis
  proof (cases "ar_inline a")
    case True
    with mem_contents_drop_inline [OF h, of k a c] Some p old show ?thesis
      by (simp add: drop_in_memory_artifact_association_def)
  next
    case False
    with mem_contents_drop_blob [OF h, of k a c] Some p show ?thesis
      by (auto simp: drop_in_memory_artifact_association_def)
  qed
qed

lemma mem_contents_add:
  assumes h: "mem_contents (s, fs) (fmdrop k m)" and a: "\<not> ar_inline a" and few: "fcard (fmdom m) < 2 ^ 32 - 1"
    and same: "\<And>c. fmlookup fs (ar_digest a) = Some c \<Longrightarrow> c = content"
    and n: "n = (case fmlookup (ms_blobs s) (ar_digest a) of Some (_, n) \<Rightarrow> n | None \<Rightarrow> 0)"
  shows "mem_contents (s\<lparr>ms_blobs := fmupd (ar_digest a) (content, sat_add n 1) (ms_blobs s)\<rparr>,
    fmupd (ar_digest a) content fs) (fmupd k (a, content) m)"
proof (rule mem_contentsI)
  let ?d = "ar_digest a"
  note D = mem_contentsD [OF h]
  have "fmdom (fmdrop k m) |\<subseteq>| fmdom m" by auto
  then have "fcard (fmdom (fmdrop k m)) < 2 ^ 32 - 1"
    using few fcard_mono le_less_trans by blast
  then have "blob_refs (fmdrop k m) ?d < 2 ^ 32 - 1"
    using blob_refs_bound le_less_trans by blast
  moreover have "unat n = blob_refs (fmdrop k m) ?d"
    by (simp add: n D(2) split: option.split)
  ultimately have count: "unat (sat_add n 1) = blob_refs (fmdrop k m) ?d + 1"
    by (simp add: unat_sat_add)
  then have "sat_add n 1 \<noteq> 0" by auto
  then show "fmlookup (ms_blobs (s\<lparr>ms_blobs := fmupd ?d (content, sat_add n 1) (ms_blobs s)\<rparr>)) e \<noteq> Some (c, 0)" for e c
    using D(3) [of e c] by simp
  show "blob_refs (fmupd k (a, content) m) e =
      (case fmlookup (ms_blobs (s\<lparr>ms_blobs := fmupd ?d (content, sat_add n 1) (ms_blobs s)\<rparr>)) e of
         Some (_, n) \<Rightarrow> unat n | None \<Rightarrow> 0)" for e
    using count D(2) [of e] a by (cases "e = ?d") (simp_all add: blob_refs_upd)
  show "\<exists>n'. fmlookup (ms_blobs (s\<lparr>ms_blobs := fmupd ?d (content, sat_add n 1) (ms_blobs s)\<rparr>)) (ar_digest b) =
      Some (cb, n')"
    if "fmlookup (fmupd k (a, content) m) j = Some (b, cb)" "\<not> ar_inline b" for j b cb
  proof (cases "j = k")
    case False
    with that obtain n' where "fmlookup (ms_blobs s) (ar_digest b) = Some (cb, n')"
      using mem_contents_blob [OF h, of j b cb] by auto
    with D(4) [of ?d] same show ?thesis by (cases "ar_digest b = ?d") auto
  qed (use that in simp)
qed (use mem_contentsD(1,4) [OF h] a in simp_all)

lemma mem_contents_inline:
  assumes h: "mem_contents (s, fs) (fmdrop k m)" and a: "ar_inline a"
  shows "mem_contents (s\<lparr>ms_inline_artifacts := fmupd k content (ms_inline_artifacts s)\<rparr>, fs)
    (fmupd k (a, content) m)"
proof (rule mem_contentsI)
  show "\<exists>n'. fmlookup (ms_blobs (s\<lparr>ms_inline_artifacts := fmupd k content (ms_inline_artifacts s)\<rparr>)) (ar_digest b) =
      Some (cb, n')"
    if "fmlookup (fmupd k (a, content) m) j = Some (b, cb)" "\<not> ar_inline b" for j b cb
    using mem_contents_blob [OF h, of j b cb] that a by (auto split: if_splits)
qed (use mem_contentsD [OF h] a in \<open>simp_all add: blob_refs_upd\<close>)

section \<open>The contract\<close>

lemma mem_holdsD:
  assumes "mem_holds sha256 (s, fs) m"
  shows "fmlookup (ms_artifacts s) k = map_option fst (fmlookup m k)"
    and "fmlookup m k = Some (a, c) \<Longrightarrow> ar_artifact_id a = k \<and> artifact_ok sha256 (a, c)"
    and "mem_contents (s, fs) m"
  using assms by (simp_all add: mem_holds_def)

lemma mem_files_agree:
  assumes h: "mem_contents (s, fs) m"
    and ok: "\<And>k a c. fmlookup m k = Some (a, c) \<Longrightarrow> ar_digest a = d \<Longrightarrow> ar_digest a = digest_compute sha256 c"
    and free: "\<And>k a c. fmlookup m k = Some (a, c) \<Longrightarrow> digest_compute sha256 c = d \<Longrightarrow> c = content"
    and stored: "fmlookup fs d = Some b"
  shows "b = content"
proof -
  have "map_option fst (fmlookup (ms_blobs s) d) = Some b"
    using mem_contentsD(4) [OF h, of d] stored by simp
  then obtain n where n: "fmlookup (ms_blobs s) d = Some (b, n)" by auto
  then have "n \<noteq> 0" using mem_contentsD(3) [OF h] by auto
  then have "0 < unat n" by (simp add: unat_gt_0)
  then have "0 < blob_refs m d"
    using mem_contentsD(2) [OF h, of d] n by simp
  then obtain k a c where a: "fmlookup m k = Some (a, c)" "\<not> ar_inline a" "ar_digest a = d"
    by (rule blob_refsE)
  with mem_contents_blob [OF h a(1,2)] n have "c = b" by auto
  with ok [OF a(1,3)] free [OF a(1)] a(3) show ?thesis by simp
qed

lemma mem_get_law:
  assumes h: "mem_holds sha256 st m"
  shows "mem_get_artifact aid (fst st) = ok_or (fmlookup m aid) (ArtifactNotFound aid)"
proof -
  obtain s fs where st: "st = (s, fs)" by fastforce
  have c: "mem_contents (s, fs) m" and rec: "fmlookup (ms_artifacts s) aid = map_option fst (fmlookup m aid)"
    using h by (simp_all add: mem_holds_def st)
  show ?thesis
  proof (cases "fmlookup m aid")
    case (Some p)
    then show ?thesis
      using rec mem_contentsD(1) [OF c, of aid] mem_contents_blob [OF c, of aid "fst p" "snd p"]
      by (cases p) (auto simp: mem_get_artifact_def st ok_or_def)
  qed (simp add: mem_get_artifact_def st rec)
qed

lemma mem_put_law:
  assumes sha: "sha_ok sha256" and h: "mem_holds sha256 st m" and new: "storable sha256 m meta content"
    and ready: "mem_knows st (am_task_id meta)" "countable_refs m"
  shows "\<exists>st'. mem_put_artifact sha256 meta content st = (Inr (stored_as sha256 meta content), st') \<and>
    mem_holds sha256 st' (fmupd (am_artifact_id meta) (stored_as sha256 meta content, content) m)"
proof -
  obtain s fs where st: "st = (s, fs)" by fastforce
  let ?k = "am_artifact_id meta" and ?a = "stored_as sha256 meta content"
  note recs = mem_holdsD(1) [OF h [unfolded st]] and ok = mem_holdsD(2) [OF h [unfolded st]]
    and c = mem_holdsD(3) [OF h [unfolded st]]
  obtain s' fs' where drop: "(case map_option fst (fmlookup m ?k) of
        Some existing \<Rightarrow> drop_in_memory_artifact_association existing (s, fs) | None \<Rightarrow> (s, fs)) = (s', fs')"
      "ms_artifacts s' = ms_artifacts s" "mem_contents (s', fs') (fmdrop ?k m)"
    using mem_contents_drop [OF c] ok by blast
  have digests: "ar_digest a = digest_compute sha256 b" if "fmlookup (fmdrop ?k m) j = Some (a, b)" for j a b
    using ok [of j a b] that by (simp add: artifact_ok_def split: if_splits)
  have free: "b = content" if "fmlookup (fmdrop ?k m) j = Some (a, b)" "digest_compute sha256 b = ar_digest ?a" for j a b
    using new that by (auto simp: storable_def artifact_record_from_meta_def split: if_splits)
  note same = mem_files_agree [OF drop(3) digests free]
  define n where "n = (case fmlookup (ms_blobs s') (ar_digest ?a) of Some (_, n) \<Rightarrow> n | None \<Rightarrow> 0)"
  define r where "r = (if ar_inline ?a
      then (s'\<lparr>ms_inline_artifacts := fmupd ?k content (ms_inline_artifacts s')\<rparr>, fs')
      else (s'\<lparr>ms_blobs := fmupd (ar_digest ?a) (content, sat_add n 1) (ms_blobs s')\<rparr>, fmupd (ar_digest ?a) content fs'))"
  have "mem_contents r (fmupd ?k (?a, content) m)"
    using mem_contents_inline [OF drop(3)] mem_contents_add [OF drop(3) _ _ same n_def] ready
    by (simp add: r_def countable_refs_def)
  moreover have "ms_artifacts (fst r) = ms_artifacts s"
    by (simp add: r_def drop(2))
  moreover have "mem_put_artifact sha256 meta content st =
      (Inr ?a, (fst r)\<lparr>ms_artifacts := fmupd ?k ?a (ms_artifacts (fst r))\<rparr>, snd r)"
    using storable_ok [OF sha new] ready drop(1)
    by (auto simp: mem_put_artifact_def st recs mem_knows_def Let_def r_def n_def artifact_record_from_meta_def ok_or_def
        split: prod.split)
  moreover have "mem_contents ((fst r)\<lparr>ms_artifacts := rs\<rparr>, snd r) (fmupd ?k (?a, content) m)" for rs
    using calculation(1) mem_contents_frame [of "(fst r)\<lparr>ms_artifacts := rs\<rparr>" "fst r" "snd r"] by simp
  moreover have "ar_artifact_id ?a = ?k" by (simp add: artifact_record_from_meta_def)
  ultimately show ?thesis
    using storable_ok [OF sha new] recs ok by (simp add: mem_holds_def)
qed

lemma mem_delete_law:
  assumes h: "mem_holds sha256 st m"
  shows "mem_holds sha256 (snd (mem_delete_artifact aid st)) (fmdrop aid m) \<and>
    fst (mem_delete_artifact aid st) = (if fmlookup m aid = None then Inl (ArtifactNotFound aid) else Inr ())"
proof -
  obtain s fs where st: "st = (s, fs)" by fastforce
  note recs = mem_holdsD(1) [OF h [unfolded st]] and ok = mem_holdsD(2) [OF h [unfolded st]]
    and c = mem_holdsD(3) [OF h [unfolded st]]
  show ?thesis
  proof (cases "fmlookup m aid")
    case None
    then have "fmdrop aid m = m" by (intro fmap_ext) auto
    with None h recs show ?thesis by (simp add: mem_delete_artifact_def st)
  next
    case (Some p)
    obtain a c where p: "p = (a, c)" by fastforce
    let ?s = "s\<lparr>ms_artifacts := fmdrop aid (ms_artifacts s)\<rparr>"
    have c: "mem_contents (?s, fs) m"
      using h mem_contents_frame [of ?s s] by (simp add: mem_holds_def st)
    have "\<exists>s' fs'. mem_delete_artifact aid st = (Inr (), s', fs') \<and> ms_artifacts s' = ms_artifacts ?s \<and>
        mem_contents (s', fs') (fmdrop aid m)"
      using mem_contents_drop_inline [OF c, of aid a] mem_contents_drop_blob [OF c, of aid a] Some p
      by (cases "ar_inline a") (auto simp: mem_delete_artifact_def st recs)
    with Some recs ok show ?thesis by (auto simp: mem_holds_def)
  qed
qed

lemma mem_artifact_tasks:
  "ms_tasks (fst (decrement_in_memory_blob_ref d st)) = ms_tasks (fst st)"
  "ms_tasks (fst (drop_in_memory_artifact_association a st)) = ms_tasks (fst st)"
  "ms_tasks (fst (snd (mem_put_artifact sha256 meta content st))) = ms_tasks (fst st)"
  "ms_tasks (fst (snd (mem_delete_artifact aid st))) = ms_tasks (fst st)"
proof -
  show dec: "ms_tasks (fst (decrement_in_memory_blob_ref d st)) = ms_tasks (fst st)" for d st
    by (auto simp: decrement_in_memory_blob_ref_def split: prod.split option.split)
  show drop: "ms_tasks (fst (drop_in_memory_artifact_association a st)) = ms_tasks (fst st)" for a st
    by (auto simp: drop_in_memory_artifact_association_def dec split: prod.split)
  have dropped: "drop_in_memory_artifact_association a (s, fs) = (s', fs') \<Longrightarrow> ms_tasks s' = ms_tasks s" for a s fs s' fs'
    using drop [of a "(s, fs)"] by simp
  show "ms_tasks (fst (snd (mem_put_artifact sha256 meta content st))) = ms_tasks (fst st)"
    by (auto simp: mem_put_artifact_def Let_def dest: dropped split: attempt_split option.split prod.split)
  show "ms_tasks (fst (snd (mem_delete_artifact aid st))) = ms_tasks (fst st)"
    by (auto simp: mem_delete_artifact_def Let_def dec split: option.split)
qed

text \<open>The in-memory backend meets the contract; its get ignores the blob directory and the digest.\<close>

interpretation mem_artifacts: artifact_store mem_put_artifact "\<lambda>sha256 aid st. mem_get_artifact aid (fst st)"
  mem_delete_artifact mem_holds mem_knows countable_refs
proof
  fix meta :: artifact_meta and sha256 :: "bytes \<Rightarrow> bytes" and content :: bytes and st :: "mem_state \<times> blob_dir" and aid
  show "\<exists>e. mem_put_artifact sha256 meta content st = (Inl e, st)"
    if "am_digest meta \<noteq> digest_compute sha256 content"
    using that by (auto simp: mem_put_artifact_def check_artifact_def validate_artifact_size_def)
  show "mem_knows (snd (mem_put_artifact sha256 meta content st)) = mem_knows st"
    and "mem_knows (snd (mem_delete_artifact aid st)) = mem_knows st"
    by (simp_all add: fun_eq_iff mem_knows_def mem_artifact_tasks)
qed (simp_all only: mem_get_law mem_put_law mem_delete_law)

end
