(* ===== verification/Mem_Frame.thy ===== *)
theory Mem_Frame
  imports Mem_Invariant
begin

text \<open>
  What the task operations of the in-memory store leave alone: the records, the inline contents and
  the blobs of the artifacts.
\<close>

definition mem_files ::
  "mem_state \<Rightarrow> (artifact_id, artifact_record) fmap \<times> (artifact_id, bytes) fmap \<times> (digest, bytes \<times> u32) fmap" where
  "mem_files s = (ms_artifacts s, ms_inline_artifacts s, ms_blobs s)"

lemma mem_files_updates [simp]:
  "mem_files (put_task tid t s) = mem_files s" "mem_files (put_lease tid l s) = mem_files s"
  "mem_files (remove_lease tid s) = mem_files s" "mem_files (put_idempotency key tid s) = mem_files s"
  "mem_files (put_envelope tid env s) = mem_files s" "mem_files (put_context tid c s) = mem_files s"
  "mem_files (put_result tid r s) = mem_files s" "mem_files (append_in_memory_event tid ty a b s) = mem_files s"
  by (simp_all add: mem_files_def mem_updates put_result_def split: option.split)

lemma mem_files_attempt: "(\<And>a. g = Inr a \<Longrightarrow> mem_files (snd (k a)) = mem_files s) \<Longrightarrow>
    mem_files (snd (attempt g s k)) = mem_files s"
  by (cases g) simp_all

lemma mem_files_cases:
  "(x = None \<Longrightarrow> mem_files (snd r) = f) \<Longrightarrow> (\<And>y. x = Some y \<Longrightarrow> mem_files (snd (q y)) = f) \<Longrightarrow>
     mem_files (snd (case x of None \<Rightarrow> r | Some y \<Rightarrow> q y)) = f"
  "(c \<Longrightarrow> mem_files (snd r) = f) \<Longrightarrow> (\<not> c \<Longrightarrow> mem_files (snd r') = f) \<Longrightarrow> mem_files (snd (if c then r else r')) = f"
  "(\<And>e s'. p = (Inl e, s') \<Longrightarrow> mem_files (snd (u e s')) = f) \<Longrightarrow>
     (\<And>a s'. p = (Inr a, s') \<Longrightarrow> mem_files (snd (v a s')) = f) \<Longrightarrow>
     mem_files (snd (case p of (Inl e, s') \<Rightarrow> u e s' | (Inr a, s') \<Rightarrow> v a s')) = f"
  by (auto split: option.split prod.split sum.split)

lemmas mem_files_intros = mem_files_attempt mem_files_cases

lemma mem_files_in_state [simp]:
  "mem_files (snd (finish_task_in_state tid lid wid st n dl reason s)) = mem_files s"
  "mem_files (snd (retry_task_in_state tid active t s)) = mem_files s"
  "mem_files (snd (dead_letter_task_in_state tid active t why s)) = mem_files s"
  unfolding finish_task_in_state_def retry_task_in_state_def dead_letter_task_in_state_def Let_def
  by (intro mem_files_intros; simp)+

lemma mem_files_pair:
  "finish_task_in_state tid lid wid st n dl reason s = (r, s') \<Longrightarrow> mem_files s' = mem_files s"
  "retry_task_in_state tid active t s = (r, s') \<Longrightarrow> mem_files s' = mem_files s"
  "dead_letter_task_in_state tid active t why s = (r, s') \<Longrightarrow> mem_files s' = mem_files s"
  using mem_files_in_state by (metis snd_conv)+

lemma mem_files_loops [simp]:
  "mem_files (snd (mem_fail_expired_loop expired failed s)) = mem_files s"
  "mem_files (snd (mem_recover_loop leases recovered cleaned s)) = mem_files s"
proof -
  show "mem_files (snd (mem_fail_expired_loop expired failed s)) = mem_files s"
    by (induction expired failed s rule: mem_fail_expired_loop.induct) (simp_all add: Let_def mem_files_attempt)
  show "mem_files (snd (mem_recover_loop leases recovered cleaned s)) = mem_files s"
    by (induction leases arbitrary: recovered cleaned s) (auto simp: Let_def split: option.split prod.split)
qed

lemma mem_files_ops [simp]:
  "mem_files (snd (mem_accept_task t s)) = mem_files s"
  "mem_files (snd (mem_accept_task_with_envelope t env s)) = mem_files s"
  "mem_files (snd (mem_accept_task_with_envelope_and_context t env ctx s)) = mem_files s"
  "mem_files (snd (mem_put_transport_context ctx s)) = mem_files s"
  "mem_files (snd (mem_lease_task_with_peer_guard tid lease peer s)) = mem_files s"
  "mem_files (snd (mem_renew_lease tid lid wid now_ms expires s)) = mem_files s"
  "mem_files (snd (mem_complete_task tid lid wid s)) = mem_files s"
  "mem_files (snd (mem_fail_task tid lid wid reason policy s)) = mem_files s"
  "mem_files (snd (mem_retry_task tid lid wid s)) = mem_files s"
  "mem_files (snd (mem_dead_letter_task tid lid wid reason s)) = mem_files s"
  "mem_files (snd (mem_cancel_task tid now_ms s)) = mem_files s"
  "mem_files (snd (mem_transition_task tid to s)) = mem_files s"
  "mem_files (snd (mem_accept_legacy_event tid ty s)) = mem_files s"
  "mem_files (snd (mem_cancel_task_with_result tid mlid mwid now_ms r s)) = mem_files s"
  "mem_files (snd (mem_complete_task_with_result tid lid wid r s)) = mem_files s"
  "mem_files (snd (mem_fail_task_with_result tid lid wid reason policy r s)) = mem_files s"
  unfolding mem_accept_task_def mem_accept_task_with_envelope_def mem_accept_task_with_envelope_and_context_def
    mem_put_transport_context_def mem_lease_task_with_peer_guard_def mem_lease_start_def mem_renew_lease_def
    mem_complete_task_def mem_finish_task_def mem_fail_task_def mem_retry_task_def mem_dead_letter_task_def
    mem_cancel_task_def mem_transition_task_def mem_accept_legacy_event_def mem_cancel_task_with_result_def
    mem_complete_task_with_result_def mem_fail_task_with_result_def Let_def
  by (intro mem_files_intros; auto dest: mem_files_pair split: prod.split legacy_append_plan.split if_split_asm)+

lemma mem_files_sweeps [simp]:
  "mem_files (snd (mem_fail_expired_deadlines now_ms limit s)) = mem_files s"
  "mem_files (snd (mem_recover_stale_leases now_ms limit s)) = mem_files s"
  by (simp_all add: mem_fail_expired_deadlines_def mem_recover_stale_leases_def split_beta Let_def)

lemma mem_files_step [simp]: "mem_files (snd (mem_step oper s)) = mem_files s"
  by (cases oper) simp_all

lemma mem_files_run: "mem_files (run_ops mem_step opers s) = mem_files s"
  by (induction opers arbitrary: s) simp_all

end
