(* ===== verification/Artifact_Properties.thy ===== *)
theory Artifact_Properties
  imports Artifact_Mem Artifact_Sqlite Mem_Frame Store_Properties
begin

text \<open>
  The properties of the artifact store, for stores in which any sequence of task operations has run
  and no artifact is stored yet. SHA-256 is the parameter \<open>sha256\<close>; \<open>sha_ok\<close> says that it returns 32
  bytes, and \<open>artifacts_fit\<close> asks of each stored content that it does not collide with the content
  of another artifact, that the metadata carry the right digest, and that the task is known.
\<close>

section \<open>Stores without artifacts\<close>

definition demo_sha :: "bytes \<Rightarrow> bytes" where
  "demo_sha content = replicate 32 (of_nat (length content))"

definition demo_meta :: "artifact_id \<Rightarrow> bytes \<Rightarrow> artifact_meta" where
  "demo_meta aid content = \<lparr>am_artifact_id = aid, am_task_id = ''t1'', am_digest = digest_compute demo_sha content,
     am_media_type = ''text/plain'', am_byte_len = length content, am_inline = False, am_created_at = ''now''\<rparr>"

definition demo_blob :: bytes where
  "demo_blob = replicate 70000 0"

lemma sql_files_run:
  "db_artifacts (run_ops sql_step opers sql_init) = []" "db_blobs (run_ops sql_step opers sql_init) = []"
proof -
  have "db_frame sql_init (run_ops sql_step opers sql_init)"
  proof (induction opers rule: rev_induct)
    case (snoc oper opers)
    then show ?case
      using frame_step [of "run_ops sql_step opers sql_init" oper] prefix_order.order_trans
      by (fastforce simp: db_frame_def run_ops_def)
  qed simp
  then show "db_artifacts (run_ops sql_step opers sql_init) = []" "db_blobs (run_ops sql_step opers sql_init) = []"
    by (simp_all add: db_frame_def frame_of_def sql_init_def)
qed

lemma sql_holds_empty: "db_artifacts db = [] \<Longrightarrow> db_blobs db = [] \<Longrightarrow> sql_holds sha256 (db, fmempty) fmempty"
  by (simp add: sql_holds_def blobs_hold_def tally_def represents_def blob_refs_def ref_set_def blob_count_def)

lemma mem_holds_empty: "mem_files s = (fmempty, fmempty, fmempty) \<Longrightarrow> mem_holds sha256 (s, fmempty) fmempty"
  by (simp add: mem_files_def mem_holds_def mem_contents_def blob_refs_def ref_set_def)

lemma artifacts_fit_room:
  "artifacts_fit sha256 known room opers m \<Longrightarrow> artifacts_fit sha256 known (\<lambda>_. True) opers m"
  by (induction opers arbitrary: m) (auto split: artifact_op.splits)

lemma sql_mem_knows: "matches owner db s \<Longrightarrow> sql_knows (db, fs) tid = mem_knows (s, fs') tid"
  by (simp add: sql_knows_def mem_knows_def fetches find_task_def ok_or_def split: option.split)

lemma demo_sha_ok: "sha_ok demo_sha"
  by (simp add: sha_ok_def demo_sha_def)

lemma demo_storable:
  assumes "valid_id aid" and "length content \<le> 1000000" and "\<And>k a c. fmlookup m k = Some (a, c) \<Longrightarrow> c = content"
  shows "storable demo_sha m (demo_meta aid content) content"
proof -
  have "media_type_new ''text/plain'' = ''text/plain''" "valid_id ''t1''" by code_simp+
  with assms show ?thesis
    by (auto simp: storable_def demo_meta_def max_blob_bytes_def)
qed

lemma demo_blobs:
  "storable demo_sha fmempty (demo_meta ''a1'' demo_blob) demo_blob"
  "storable demo_sha (fmupd ''a1'' (r, demo_blob) fmempty) (demo_meta ''a2'' demo_blob) demo_blob"
proof -
  have "valid_id ''a1''" "valid_id ''a2''" by code_simp+
  then show "storable demo_sha fmempty (demo_meta ''a1'' demo_blob) demo_blob"
    "storable demo_sha (fmupd ''a1'' (r, demo_blob) fmempty) (demo_meta ''a2'' demo_blob) demo_blob"
    by (auto intro!: demo_storable simp: demo_blob_def split: if_split_asm)
qed

lemma demo_meta_ids [simp]: "am_artifact_id (demo_meta aid c) = aid" "am_task_id (demo_meta aid c) = ''t1''"
  by (simp_all add: demo_meta_def)

lemma demo_knows: "sql_knows (run_ops sql_step [AcceptTask demo_task] sql_init, fs) ''t1''"
  "list_all (sql_admissible demo_owner) [AcceptTask demo_task]"
proof -
  show adm: "list_all (sql_admissible demo_owner) [AcceptTask demo_task]" by code_simp
  have "mem_knows (run_ops mem_step [AcceptTask demo_task] mem_init, fmempty) ''t1''" by code_simp
  then show "sql_knows (run_ops sql_step [AcceptTask demo_task] sql_init, fs) ''t1''"
    using sql_mem_knows [OF sql_reachable_matches [OF adm]] by blast
qed

section \<open>The properties\<close>

text \<open>
  (C32) The artifact store of \<open>SqliteStore\<close> is a map: whatever tasks it holds, every fitting sequence
  of puts and deletes is answered like the abstract map from identifiers to records with content, and
  afterwards every get returns what the map holds. Reference counts, blob files, inline contents and
  their cleanup are invisible.
\<close>

theorem sqlite_artifacts_are_a_map:
  assumes "sha_ok sha256"
    and "artifacts_fit sha256 (sql_knows (run_ops sql_step tops sql_init, fmempty)) (\<lambda>_. True) opers fmempty"
  shows "let exec = artifact_exec sql_put_artifact sql_delete_artifact sha256; st = (run_ops sql_step tops sql_init, fmempty) in
    replies exec opers st = replies (artifact_spec sha256) opers fmempty \<and>
    (\<forall>aid. sql_get_artifact sha256 aid (run_ops exec opers st) =
       ok_or (fmlookup (run_ops (artifact_spec sha256) opers fmempty) aid) (ArtifactNotFound aid))"
  using sqlite_artifacts.run_refines [OF assms(1) sql_holds_empty [OF sql_files_run] assms(2)]
    sqlite_artifacts.get_law [OF assms(1)] by (simp add: Let_def)

theorem sqlite_artifacts_are_a_map_witness:
  "\<forall>aid. sql_get_artifact demo_sha aid (run_ops (artifact_exec sql_put_artifact sql_delete_artifact demo_sha)
     [PutArtifact (demo_meta ''a1'' demo_blob) demo_blob, PutArtifact (demo_meta ''a2'' demo_blob) demo_blob, DeleteArtifact ''a1'']
     (run_ops sql_step [AcceptTask demo_task] sql_init, fmempty)) =
     (if aid = ''a2'' then Inr (stored_as demo_sha (demo_meta ''a2'' demo_blob) demo_blob, demo_blob)
      else Inl (ArtifactNotFound aid))"
proof -
  let ?ops = "[PutArtifact (demo_meta ''a1'' demo_blob) demo_blob, PutArtifact (demo_meta ''a2'' demo_blob) demo_blob,
    DeleteArtifact ''a1'']"
  have "artifacts_fit demo_sha (sql_knows (run_ops sql_step [AcceptTask demo_task] sql_init, fmempty)) (\<lambda>_. True) ?ops fmempty"
    using demo_blobs demo_knows(1) by (simp del: run_ops_simps)
  note map = sqlite_artifacts_are_a_map [OF demo_sha_ok this]
  have "run_ops (artifact_spec demo_sha) ?ops fmempty =
      fmupd ''a2'' (stored_as demo_sha (demo_meta ''a2'' demo_blob) demo_blob, demo_blob) fmempty"
    by (intro fmap_ext) simp
  with map show ?thesis
    by (simp add: Let_def ok_or_def del: run_ops_simps)
qed

text \<open>
  (C33) The two backends store artifacts alike: after the same admissible task operations, the same
  fitting sequence of puts and deletes gets the same replies from \<open>SqliteStore\<close> and from
  \<open>InMemoryStore\<close>, and afterwards every get agrees. Fitting means here that each stored content has the
  digest its metadata claim, does not collide with a stored one and belongs to a known task, and that
  each put finds fewer than \<open>2^32 - 1\<close> artifacts stored, since the in-memory reference count is a \<open>u32\<close>.
\<close>

theorem artifact_backends_agree:
  assumes "sha_ok sha256" and "list_all (sql_admissible owner) tops"
    and "artifacts_fit sha256 (mem_knows (run_ops mem_step tops mem_init, fmempty)) countable_refs opers fmempty"
  shows "let sql = artifact_exec sql_put_artifact sql_delete_artifact sha256;
      mem = artifact_exec mem_put_artifact mem_delete_artifact sha256;
      db = (run_ops sql_step tops sql_init, fmempty); s = (run_ops mem_step tops mem_init, fmempty) in
    replies sql opers db = replies mem opers s \<and>
    (\<forall>aid. sql_get_artifact sha256 aid (run_ops sql opers db) = mem_get_artifact aid (fst (run_ops mem opers s)))"
proof -
  let ?db = "run_ops sql_step tops sql_init" and ?s = "run_ops mem_step tops mem_init"
  have "mem_files ?s = (fmempty, fmempty, fmempty)"
    unfolding mem_files_run by (simp add: mem_files_def mem_init_def)
  note mem = mem_artifacts.run_refines [OF assms(1) mem_holds_empty [OF this] assms(3)]
  have "sql_knows (?db, fmempty) = mem_knows (?s, fmempty)"
    using sql_mem_knows [OF sql_reachable_matches [OF assms(2)]] by blast
  with artifacts_fit_room [OF assms(3)] have "artifacts_fit sha256 (sql_knows (?db, fmempty)) (\<lambda>_. True) opers fmempty"
    by simp
  note sql = sqlite_artifacts.run_refines [OF assms(1) sql_holds_empty [OF sql_files_run] this]
  show ?thesis
    unfolding Let_def mem_artifacts.get_law [OF assms(1) conjunct2 [OF mem]]
      sqlite_artifacts.get_law [OF assms(1) conjunct2 [OF sql]] using mem sql by simp
qed

theorem artifact_backends_agree_witness:
  "\<forall>aid. sql_get_artifact demo_sha aid (run_ops (artifact_exec sql_put_artifact sql_delete_artifact demo_sha)
     [PutArtifact (demo_meta ''a1'' demo_blob) demo_blob, PutArtifact (demo_meta ''a2'' demo_blob) demo_blob, DeleteArtifact ''a1'']
     (run_ops sql_step [AcceptTask demo_task] sql_init, fmempty)) =
   mem_get_artifact aid (fst (run_ops (artifact_exec mem_put_artifact mem_delete_artifact demo_sha)
     [PutArtifact (demo_meta ''a1'' demo_blob) demo_blob, PutArtifact (demo_meta ''a2'' demo_blob) demo_blob, DeleteArtifact ''a1'']
     (run_ops mem_step [AcceptTask demo_task] mem_init, fmempty)))"
proof -
  let ?ops = "[PutArtifact (demo_meta ''a1'' demo_blob) demo_blob, PutArtifact (demo_meta ''a2'' demo_blob) demo_blob,
    DeleteArtifact ''a1'']"
  have "mem_knows (run_ops mem_step [AcceptTask demo_task] mem_init, fmempty) ''t1''" by code_simp
  moreover have "countable_refs fmempty" "countable_refs (fmupd ''a1'' (r, demo_blob) fmempty)" for r
    by (simp_all add: countable_refs_def fcard.rep_eq)
  ultimately have "artifacts_fit demo_sha (mem_knows (run_ops mem_step [AcceptTask demo_task] mem_init, fmempty)) countable_refs
      ?ops fmempty"
    using demo_blobs by (simp del: run_ops_simps)
  from artifact_backends_agree [OF demo_sha_ok demo_knows(2) this] show ?thesis
    by (simp add: Let_def del: run_ops_simps)
qed

text \<open>
  (C34) The cleanup of a deleted blob can destroy a newer artifact. A delete commits its transaction
  and removes the blob file afterwards; when a put of the same content runs in between, the put is
  acknowledged as stored and its content is gone: every later get is an error.
\<close>

theorem overtaken_cleanup_loses_artifact:
  assumes "sha_ok sha256" and "sql_holds sha256 (db, fs) m" and "fmlookup m aid = Some (a, content)"
    and "\<not> ar_inline a" and "blob_refs m (ar_digest a) = 1" and "storable sha256 m meta content"
    and "fmlookup m (am_artifact_id meta) = None" and "sql_knows (db, fs) (am_task_id meta)"
  shows "let (deleted, st1) = delete_artifact_tx aid (db, fs); (stored, st2) = sql_put_artifact sha256 meta content st1 in
    deleted = Inr [ar_digest a] \<and> stored = Inr (stored_as sha256 meta content) \<and>
    sql_get_artifact sha256 (am_artifact_id meta) (finalize_blob_cleanup [ar_digest a] st2) = Inl (Database os_not_found)"
  using overtaken_cleanup [OF assms] by (simp add: split_beta Let_def)

theorem overtaken_cleanup_loses_artifact_witness:
  "\<exists>st. let (deleted, st1) = delete_artifact_tx ''a1'' st;
         (stored, st2) = sql_put_artifact demo_sha (demo_meta ''a2'' demo_blob) demo_blob st1 in
     stored = Inr (stored_as demo_sha (demo_meta ''a2'' demo_blob) demo_blob) \<and>
     sql_get_artifact demo_sha ''a2'' (finalize_blob_cleanup [digest_compute demo_sha demo_blob] st2) = Inl (Database os_not_found)"
proof -
  let ?st0 = "(run_ops sql_step [AcceptTask demo_task] sql_init, fmempty)"
  let ?rec = "stored_as demo_sha (demo_meta ''a1'' demo_blob) demo_blob"
  let ?m = "fmupd ''a1'' (?rec, demo_blob) fmempty"
  from sqlite_artifacts.put_law [OF demo_sha_ok sql_holds_empty [OF sql_files_run] demo_blobs(1), of "[AcceptTask demo_task]"]
    sqlite_artifacts.put_known [of demo_sha "demo_meta ''a1'' demo_blob" demo_blob ?st0] demo_knows(1)
  obtain db fs where st: "sql_holds demo_sha (db, fs) ?m" "sql_knows (db, fs) ''t1''"
    by (auto simp del: run_ops_simps)
  have rec: "\<not> ar_inline ?rec" "ar_digest ?rec = digest_compute demo_sha demo_blob"
    by (simp_all add: artifact_record_from_meta_def should_inline_def max_inline_artifact_bytes_def demo_blob_def)
  then have "blob_refs ?m (ar_digest ?rec) = 1"
    by (simp add: blob_refs_upd) (simp add: blob_refs_def ref_set_def)
  then show ?thesis
    using demo_blobs(2) overtaken_cleanup_loses_artifact [OF demo_sha_ok st(1), of "''a1''" ?rec demo_blob "demo_meta ''a2'' demo_blob"]
      rec st(2) by (auto simp: split_beta Let_def)
qed

end
