(* ===== verification/Policy.thy ===== *)
theory Policy
  imports Core_Limits "HOL-Library.Finite_Map" "HOL-Library.Sublist"
begin

text \<open>
  The security policy crate (\<open>keryx-policy\<close>): node keys and their file format, node and scoped agent
  identities, bearer-token authentication, capability rules, audit events and redaction. The key file
  is a map from paths to contents, the random source an argument. A slice of a \<open>str\<close> that is not at a
  character boundary panics; functions that slice return \<open>None\<close> then.
\<close>

unbundle bit_operations_syntax

section \<open>Hexadecimal\<close>

definition hex_table :: string where
  "hex_table = ''0123456789abcdef''"

definition hex_encode :: "bytes \<Rightarrow> string" where
  "hex_encode bs = concat (map (\<lambda>b. [hex_table ! unat (drop_bit 4 b), hex_table ! unat (b AND 0x0f)]) bs)"

definition hex_value :: "u8 \<Rightarrow> string + u8" where
  "hex_value b =
     (if 48 \<le> b \<and> b \<le> 57 then Inr (b - 48)
      else if 97 \<le> b \<and> b \<le> 102 then Inr (b - 97 + 10)
      else if 65 \<le> b \<and> b \<le> 70 then Inr (b - 65 + 10)
      else Inl ''invalid hex in key'')"

fun hex_pairs :: "bytes \<Rightarrow> string + bytes" where
  "hex_pairs (a # b # rest) =
     bindR (hex_value a) (\<lambda>hi. bindR (hex_value b) (\<lambda>lo.
     bindR (hex_pairs rest) (\<lambda>out. Inr ((push_bit 4 hi OR lo) # out))))"
| "hex_pairs _ = Inr []"

definition hex_decode_exact :: "nat \<Rightarrow> string \<Rightarrow> string + bytes" where
  "hex_decode_exact n input =
     (if length input \<noteq> n * 2 then Inl ''invalid key length'' else hex_pairs (as_bytes input))"

section \<open>Node keys\<close>

definition node_key_bytes :: nat where
  "node_key_bytes = 32"

definition node_key_prefix :: string where
  "node_key_prefix = ''keryx-node-key-v1:''"

record node_key =
  nk_secret :: bytes

datatype io_error = NotFound | InvalidData string

type_synonym files = "(string, string) fmap"

definition node_key_id :: "node_key \<Rightarrow> string" where
  "node_key_id key = ''node-'' @ hex_encode (take 16 (nk_secret key))"

definition to_persisted_string :: "node_key \<Rightarrow> string" where
  "to_persisted_string key = node_key_prefix @ hex_encode (nk_secret key)"

definition from_persisted_str :: "string \<Rightarrow> string + node_key" where
  "from_persisted_str input =
     (let trimmed = trim input;
          hex = (if prefix node_key_prefix trimmed then drop (length node_key_prefix) trimmed else trimmed)
      in bindR (hex_decode_exact node_key_bytes hex) (\<lambda>bs. Inr \<lparr>nk_secret = bs\<rparr>))"

definition node_key_load :: "string \<Rightarrow> files \<Rightarrow> io_error + node_key" where
  "node_key_load path fs =
     bindR (ok_or (fmlookup fs path) NotFound) (\<lambda>raw. map_err InvalidData (from_persisted_str (trim raw)))"

definition node_key_store :: "node_key \<Rightarrow> string \<Rightarrow> files \<Rightarrow> files" where
  "node_key_store key path fs = fmupd path (to_persisted_string key @ [CHR 0x0A]) fs"

text \<open>\<open>entropy\<close> stands for the 32 bytes read from \<open>/dev/urandom\<close>.\<close>

definition node_key_load_or_generate :: "bytes \<Rightarrow> string \<Rightarrow> files \<Rightarrow> (io_error + node_key) \<times> files" where
  "node_key_load_or_generate entropy path fs =
     (if fmlookup fs path \<noteq> None then (node_key_load path fs, fs)
      else let key = \<lparr>nk_secret = entropy\<rparr> in (Inr key, node_key_store key path fs))"

section \<open>Identities\<close>

datatype identity_error =
    IEmpty string
  | IInvalidCharacter string string
  | MalformedScopedAgent
  | IValidation validation_error

definition is_component_byte :: "char \<Rightarrow> bool" where
  "is_component_byte c \<longleftrightarrow> is_ascii_alphanumeric c \<or> c \<in> set ''-_.:''"

definition validate_component :: "string \<Rightarrow> string \<Rightarrow> identity_error + string" where
  "validate_component kind value =
     (let trimmed = trim value in
      if trimmed = [] then Inl (IEmpty kind)
      else if list_all is_component_byte trimmed then Inr trimmed
      else Inl (IInvalidCharacter kind trimmed))"

type_synonym node_id = string

definition node_id_new :: "string \<Rightarrow> identity_error + node_id" where
  "node_id_new value = validate_component ''NodeId'' value"

record scoped_agent_identity =
  sa_node_id :: node_id
  sa_agent_id :: agent_id

text \<open>\<open>str::split_once\<close> at one character.\<close>

fun split_once :: "char \<Rightarrow> string \<Rightarrow> (string \<times> string) option" where
  "split_once c [] = None"
| "split_once c (x # xs) =
     (if x = c then Some ([], xs) else map_option (\<lambda>(l, r). (x # l, r)) (split_once c xs))"

definition scoped_agent_parse :: "string \<Rightarrow> identity_error + scoped_agent_identity" where
  "scoped_agent_parse value =
     bindR (ok_or (split_once (CHR ''/'') value) MalformedScopedAgent) (\<lambda>(node, agent).
     bindR (node_id_new node) (\<lambda>nid.
     bindR (map_err IValidation (agent_id_new agent)) (\<lambda>aid.
     Inr \<lparr>sa_node_id = nid, sa_agent_id = aid\<rparr>)))"

definition scoped_agent_display :: "scoped_agent_identity \<Rightarrow> string" where
  "scoped_agent_display a = sa_node_id a @ ''/'' @ sa_agent_id a"

definition is_under_node :: "scoped_agent_identity \<Rightarrow> node_id \<Rightarrow> bool" where
  "is_under_node a nid \<longleftrightarrow> sa_node_id a = nid"

section \<open>Token authentication\<close>

datatype auth_error = UnknownNode | InvalidToken | RevokedNode | MissingToken | WeakToken

datatype auth_decision = Allowed | Denied auth_error

fun auth_error_display :: "auth_error \<Rightarrow> string" where
  "auth_error_display UnknownNode = ''unknown node''"
| "auth_error_display InvalidToken = ''invalid node token''"
| "auth_error_display RevokedNode = ''node is revoked''"
| "auth_error_display MissingToken = ''node token is required''"
| "auth_error_display WeakToken = ''node token must be at least 16 bytes''"

type_synonym node_token = string

definition node_token_new :: "string \<Rightarrow> auth_error + node_token" where
  "node_token_new value = (let trimmed = trim value in if length trimmed < 16 then Inl WeakToken else Inr trimmed)"

record node_token_authenticator =
  na_tokens :: "(node_id, node_token) fmap"
  na_revoked :: "node_id set"

definition authenticator_new :: node_token_authenticator where
  "authenticator_new = \<lparr>na_tokens = fmempty, na_revoked = {}\<rparr>"

definition authenticator_insert :: "node_id \<Rightarrow> node_token \<Rightarrow> node_token_authenticator \<Rightarrow> node_token_authenticator" where
  "authenticator_insert nid token a =
     a\<lparr>na_tokens := fmupd nid token (na_tokens a), na_revoked := na_revoked a - {nid}\<rparr>"

definition allow_node :: "node_id \<Rightarrow> node_token \<Rightarrow> node_token_authenticator \<Rightarrow> node_token_authenticator" where
  "allow_node nid token a =
     a\<lparr>na_tokens := fmupd nid token (na_tokens a), na_revoked := na_revoked a - {nid}\<rparr>"

definition authenticator_revoke :: "node_id \<Rightarrow> node_token_authenticator \<Rightarrow> node_token_authenticator" where
  "authenticator_revoke nid a = a\<lparr>na_revoked := insert nid (na_revoked a)\<rparr>"

text \<open>\<open>usize\<close> is 64 bits wide; the loop folds over all positions and never stops early.\<close>

definition byte_at :: "bytes \<Rightarrow> nat \<Rightarrow> u8" where
  "byte_at bs i = (if i < length bs then bs ! i else 0)"

definition constant_time_eq :: "bytes \<Rightarrow> bytes \<Rightarrow> bool" where
  "constant_time_eq left right =
     (fold (\<lambda>i diff. diff OR ucast (byte_at left i XOR byte_at right i)) [0..<max (length left) (length right)]
        ((of_nat (length left) :: u64) XOR of_nat (length right)) = 0)"

definition authenticate :: "node_id \<Rightarrow> string \<Rightarrow> node_token_authenticator \<Rightarrow> auth_decision" where
  "authenticate nid presented_token a =
     (if nid \<in> na_revoked a then Denied RevokedNode
      else case fmlookup (na_tokens a) nid of
          None \<Rightarrow> Denied UnknownNode
        | Some expected \<Rightarrow>
            if constant_time_eq (as_bytes expected) (as_bytes presented_token) then Allowed
            else Denied InvalidToken)"

section \<open>Capability policy\<close>

datatype capability_permission = PAllow | PDeny | PApprovalRequired

fun permission_as_str :: "capability_permission \<Rightarrow> string" where
  "permission_as_str PAllow = ''allow''"
| "permission_as_str PDeny = ''deny''"
| "permission_as_str PApprovalRequired = ''approval_required''"

definition normalize_permission :: "string \<Rightarrow> string" where
  "normalize_permission value =
     map (\<lambda>c. if c = CHR '' '' \<or> c = CHR ''.'' then CHR ''_'' else c) (to_ascii_lowercase (trim value))"

text \<open>\<open>None\<close> is \<open>PermissionParseError\<close>.\<close>

definition permission_from_str :: "string \<Rightarrow> capability_permission option" where
  "permission_from_str value =
     (let v = normalize_permission value in
      if v \<in> {''allow'', ''allowed''} then Some PAllow
      else if v \<in> {''deny'', ''denied''} then Some PDeny
      else if v \<in> {''approvalrequired'', ''approval_required'', ''approval-required'', ''requireapproval'',
                   ''requiresapproval''} then Some PApprovalRequired
      else None)"

record policy_subject =
  ps_node_id :: node_id
  ps_agent :: "scoped_agent_identity option"

definition subject_node :: "node_id \<Rightarrow> policy_subject" where
  "subject_node nid = \<lparr>ps_node_id = nid, ps_agent = None\<rparr>"

definition subject_agent :: "scoped_agent_identity \<Rightarrow> policy_subject" where
  "subject_agent a = \<lparr>ps_node_id = sa_node_id a, ps_agent = Some a\<rparr>"

record capability_policy =
  cp_default :: capability_permission
  cp_global_rules :: "(string, capability_permission) fmap"
  cp_node_rules :: "(node_id \<times> string, capability_permission) fmap"
  cp_agent_rules :: "(scoped_agent_identity \<times> string, capability_permission) fmap"

definition capability_policy_new :: "capability_permission \<Rightarrow> capability_policy" where
  "capability_policy_new p =
     \<lparr>cp_default = p, cp_global_rules = fmempty, cp_node_rules = fmempty, cp_agent_rules = fmempty\<rparr>"

definition capability_policy_default :: capability_policy where
  "capability_policy_default = capability_policy_new PAllow"

definition set_global :: "string \<Rightarrow> capability_permission \<Rightarrow> capability_policy \<Rightarrow> capability_policy" where
  "set_global capability p pol = pol\<lparr>cp_global_rules := fmupd capability p (cp_global_rules pol)\<rparr>"

definition set_node :: "node_id \<Rightarrow> string \<Rightarrow> capability_permission \<Rightarrow> capability_policy \<Rightarrow> capability_policy" where
  "set_node nid capability p pol = pol\<lparr>cp_node_rules := fmupd (nid, capability) p (cp_node_rules pol)\<rparr>"

definition set_agent ::
  "scoped_agent_identity \<Rightarrow> string \<Rightarrow> capability_permission \<Rightarrow> capability_policy \<Rightarrow> capability_policy" where
  "set_agent a capability p pol = pol\<lparr>cp_agent_rules := fmupd (a, capability) p (cp_agent_rules pol)\<rparr>"

datatype policy_decision =
    DAllow string
  | DDeny string string
  | DApprovalRequired string string

fun from_permission :: "capability_permission \<Rightarrow> string \<Rightarrow> policy_decision" where
  "from_permission PAllow capability = DAllow capability"
| "from_permission PDeny capability = DDeny capability ''capability denied by policy''"
| "from_permission PApprovalRequired capability = DApprovalRequired capability ''operator approval required''"

fun is_allowed :: "policy_decision \<Rightarrow> bool" where
  "is_allowed (DAllow _) = True"
| "is_allowed _ = False"

fun requires_approval :: "policy_decision \<Rightarrow> bool" where
  "requires_approval (DApprovalRequired _ _) = True"
| "requires_approval _ = False"

text \<open>\<open>Option::or_else\<close>.\<close>

definition or_else :: "'a option \<Rightarrow> 'a option \<Rightarrow> 'a option" where
  "or_else x y = (case x of None \<Rightarrow> y | Some _ \<Rightarrow> x)"

definition evaluate :: "policy_subject \<Rightarrow> string \<Rightarrow> capability_policy \<Rightarrow> policy_decision" where
  "evaluate subject capability pol =
     from_permission
       (case or_else (or_else
               (Option.bind (ps_agent subject) (\<lambda>a. fmlookup (cp_agent_rules pol) (a, capability)))
               (fmlookup (cp_node_rules pol) (ps_node_id subject, capability)))
             (fmlookup (cp_global_rules pol) capability) of
          None \<Rightarrow> cp_default pol | Some p \<Rightarrow> p)
       capability"

section \<open>Redaction\<close>

definition is_secret_key :: "string \<Rightarrow> bool" where
  "is_secret_key key \<longleftrightarrow>
     list_ex (contains (to_ascii_lowercase key))
       [''secret'', ''token'', ''password'', ''passwd'', ''api_key'', ''apikey'', ''authorization'', ''bearer'',
        ''private_key'', ''node_key'', ''node_token'', ''credential'']"

definition looks_like_bearer_token :: "string \<Rightarrow> bool" where
  "looks_like_bearer_token value \<longleftrightarrow>
     to_ascii_lowercase value = ''bearer'' \<or>
     prefix ''Bearer'' value \<and> (let suffix = drop 6 value in suffix \<noteq> [] \<and> (hd suffix = CHR ''.'' \<or> hd suffix = CHR ''_''))"

text \<open>\<open>&s[n..]\<close> panics unless \<open>n\<close> is the end of the string or the start of a character.\<close>

definition is_char_boundary :: "string \<Rightarrow> nat \<Rightarrow> bool" where
  "is_char_boundary s n \<longleftrightarrow>
     n = 0 \<or> n = length s \<or> n < length s \<and> \<not> (0x80 \<le> (of_char (s ! n) :: nat) \<and> (of_char (s ! n) :: nat) < 0xC0)"

definition slice_from :: "nat \<Rightarrow> string \<Rightarrow> string option" where
  "slice_from n s = (if is_char_boundary s n then Some (drop n s) else None)"

definition is_separator :: "char \<Rightarrow> bool" where
  "is_separator c \<longleftrightarrow> c = CHR '','' \<or> c = CHR '';''"

definition trim_matches :: "(char \<Rightarrow> bool) \<Rightarrow> string \<Rightarrow> string" where
  "trim_matches P s = rev (dropWhile P (rev (dropWhile P s)))"

definition redact_token :: "string \<Rightarrow> string option" where
  "redact_token token =
     (let trimmed = trim_matches is_separator token in
      Option.bind (slice_from (length trimmed) token) (\<lambda>suffix.
      case (case split_once (CHR ''='') trimmed of
              Some (key, _) \<Rightarrow> Some (key, ''='')
            | None \<Rightarrow> map_option (\<lambda>(key, _). (key, '':'')) (split_once (CHR '':'') trimmed)) of
        None \<Rightarrow> Some (if looks_like_bearer_token trimmed then ''[REDACTED]'' else token)
      | Some (key, sep) \<Rightarrow>
          Some (if is_secret_key key then key @ sep @ ''[REDACTED]'' @ suffix else token)))"

text \<open>\<open>str::split_whitespace\<close>: the maximal runs without white space, in order.\<close>

function split_words :: "string \<Rightarrow> string \<Rightarrow> string list" where
  "split_words word s =
     (case s of
        [] \<Rightarrow> if word = [] then [] else [word]
      | c # cs \<Rightarrow>
          (case find (\<lambda>w. w \<noteq> [] \<and> prefix w s) white_space of
             Some w \<Rightarrow> (if word = [] then [] else [word]) @ split_words [] (drop (length w) s)
           | None \<Rightarrow> split_words (word @ [c]) cs))"
  by pat_completeness auto
termination
proof (relation "measure (\<lambda>(word, s). length s)")
  fix s cs w :: string and c
  assume "s = c # cs" and "find (\<lambda>w. w \<noteq> [] \<and> prefix w s) white_space = Some w"
  then show "(([], drop (length w) s), word, s) \<in> measure (\<lambda>(word, s). length s)" for word
    by (auto simp: find_Some_iff)
qed auto

declare split_words.simps [simp del]

fun join_words :: "string list \<Rightarrow> string" where
  "join_words [] = []"
| "join_words [w] = w"
| "join_words (w # ws) = w @ '' '' @ join_words ws"

definition redact_secrets :: "string \<Rightarrow> string option" where
  "redact_secrets input = map_option join_words (those (map redact_token (split_words [] input)))"

definition redact_value :: "string \<Rightarrow> string \<Rightarrow> string option" where
  "redact_value key value = (if is_secret_key key then Some ''[REDACTED]'' else redact_secrets value)"

definition redact_metadata :: "(string, string) fmap \<Rightarrow> (string, string) fmap option" where
  "redact_metadata m =
     map_option fmap_of_list
       (those (map (\<lambda>k. map_option (Pair k) (redact_value k (the (fmlookup m k)))) (fmkeys m)))"

section \<open>Audit events\<close>

datatype security_audit_event_type =
    NodeAuthentication | CapabilityDecision | ApprovalRequested | ApprovalGranted | ApprovalDenied | SecretRedacted

record security_audit_event =
  sae_event_type :: security_audit_event_type
  sae_node_id :: "node_id option"
  sae_agent_id :: "string option"
  sae_capability :: "string option"
  sae_decision :: string
  sae_reason :: string
  sae_metadata :: "(string, string) fmap"

definition audit_policy_decision :: "policy_subject option \<Rightarrow> string \<Rightarrow> policy_decision \<Rightarrow> security_audit_event option" where
  "audit_policy_decision subject capability decision =
     (let (label, reason) =
        (case decision of
           DAllow _ \<Rightarrow> (''allow'', ''capability allowed'')
         | DDeny _ reason \<Rightarrow> (''deny'', reason)
         | DApprovalRequired _ reason \<Rightarrow> (''approval_required'', reason))
      in map_option (\<lambda>redacted.
        \<lparr>sae_event_type = CapabilityDecision, sae_node_id = map_option ps_node_id subject,
         sae_agent_id = Option.bind subject (\<lambda>s. map_option scoped_agent_display (ps_agent s)),
         sae_capability = Some capability, sae_decision = label, sae_reason = redacted,
         sae_metadata = fmempty\<rparr>) (redact_secrets reason))"

definition audit_auth_decision :: "node_id option \<Rightarrow> auth_decision \<Rightarrow> security_audit_event option" where
  "audit_auth_decision nid decision =
     (let label = (case decision of Allowed \<Rightarrow> ''allow'' | Denied _ \<Rightarrow> ''deny'');
          reason = (case decision of Allowed \<Rightarrow> ''node token accepted'' | Denied error \<Rightarrow> auth_error_display error)
      in map_option (\<lambda>redacted.
        \<lparr>sae_event_type = NodeAuthentication, sae_node_id = nid, sae_agent_id = None, sae_capability = None,
         sae_decision = label, sae_reason = redacted, sae_metadata = fmempty\<rparr>) (redact_secrets reason))"

definition audit_with_metadata :: "string \<Rightarrow> string \<Rightarrow> security_audit_event \<Rightarrow> security_audit_event option" where
  "audit_with_metadata key value event =
     map_option (\<lambda>v. event\<lparr>sae_metadata := fmupd key v (sae_metadata event)\<rparr>) (redact_value key value)"

section \<open>Lemmas\<close>

lemma nibble_table:
  "list_all (\<lambda>n. hex_value (of_char (hex_table ! n)) = Inr (of_nat n) \<and> is_allowed_id_char (hex_table ! n)) [0..<16]"
  by code_simp

lemma nibble:
  assumes "unat (x :: u8) < 16"
  shows "hex_value (of_char (hex_table ! unat x)) = Inr x" and "is_allowed_id_char (hex_table ! unat x)"
proof -
  have "unat x \<in> set [0..<16]" using assms by simp
  with nibble_table have "hex_value (of_char (hex_table ! unat x)) = Inr (of_nat (unat x)) \<and> is_allowed_id_char (hex_table ! unat x)"
    unfolding list_all_iff by blast
  then show "hex_value (of_char (hex_table ! unat x)) = Inr x" "is_allowed_id_char (hex_table ! unat x)"
    by simp_all
qed

lemma nibble_parts:
  "unat (drop_bit 4 b) < 16" "unat (b AND 0x0f) < 16" "push_bit 4 (drop_bit 4 b) OR (b AND 0x0f) = b"
  for b :: u8
proof -
  have mask: "(0x0f :: u8) = mask 4" by (simp add: mask_eq_exp_minus_1)
  have "unat b < 256" using unsigned_less [of b, where ?'a = nat] by simp
  then show "unat (drop_bit 4 b) < 16"
    unfolding unat_drop_bit_eq by (simp add: drop_bit_eq_div)
  show "unat (b AND 0x0f) < 16"
    unfolding mask take_bit_eq_mask [symmetric] unsigned_take_bit_eq by (simp add: take_bit_eq_mod)
  show "push_bit 4 (drop_bit 4 b) OR (b AND 0x0f) = b"
    unfolding mask by (rule bit_eqI) (auto simp: bit_simps)
qed

lemma hex_pairs_encode: "hex_pairs (as_bytes (hex_encode bs)) = Inr bs"
  by (induction bs) (simp_all add: hex_encode_def as_bytes_def nibble nibble_parts)

lemma hex_encode_length: "length (hex_encode bs) = 2 * length bs"
  by (induction bs) (simp_all add: hex_encode_def)

lemma hex_encode_allowed: "list_all is_allowed_id_char (hex_encode bs)"
  by (induction bs) (simp_all add: hex_encode_def nibble nibble_parts)

lemma hex_round_trip: "length bs = n \<Longrightarrow> hex_decode_exact n (hex_encode bs) = Inr bs"
  by (simp add: hex_decode_exact_def hex_encode_length hex_pairs_encode)

text \<open>The accumulated difference is zero exactly when every byte agrees.\<close>

lemma fold_or_zero:
  "fold (\<lambda>i diff. diff OR f i) xs d = 0 \<longleftrightarrow> d = 0 \<and> (\<forall>i \<in> set xs. f i = 0)" for d :: "'a::len word"
  by (induction xs arbitrary: d) (auto simp: or_eq_0_iff)

lemma ucast_byte_zero: "(ucast (b :: u8) :: u64) = 0 \<longleftrightarrow> b = 0"
proof -
  have "unat b < 2 ^ 64" using unsigned_less [of b, where ?'a = nat] by simp
  then have "unat (ucast b :: u64) = unat b" by (simp add: unsigned_ucast_eq take_bit_nat_eq_self)
  then show ?thesis by (metis unat_0 word_unat_eq_iff)
qed

lemma xor_zero: "a XOR b = 0 \<longleftrightarrow> a = b" for a b :: "'a::len word"
proof
  assume "a XOR b = 0"
  then have "(a XOR b) XOR b = b" by simp
  then show "a = b" by (simp add: xor.assoc)
qed simp

lemma constant_time_eq_iff:
  assumes "length xs < 2 ^ 64" and "length ys < 2 ^ 64"
  shows "constant_time_eq xs ys \<longleftrightarrow> xs = ys"
proof -
  have len: "(of_nat (length xs) :: u64) = of_nat (length ys) \<longleftrightarrow> length xs = length ys"
    using assms by (simp add: word_of_nat_eq_iff take_bit_nat_eq_self)
  have "constant_time_eq xs ys \<longleftrightarrow> length xs = length ys \<and>
      (\<forall>i < max (length xs) (length ys). byte_at xs i = byte_at ys i)"
    by (auto simp: constant_time_eq_def fold_or_zero ucast_byte_zero xor_zero len)
  also have "\<dots> \<longleftrightarrow> xs = ys"
    by (auto simp: byte_at_def list_eq_iff_nth_eq)
  finally show ?thesis .
qed

lemma authenticate_iff:
  assumes "length presented < 2 ^ 64" and "\<And>token. fmlookup (na_tokens a) nid = Some token \<Longrightarrow> length token < 2 ^ 64"
  shows "authenticate nid presented a = Allowed \<longleftrightarrow>
    nid \<notin> na_revoked a \<and> fmlookup (na_tokens a) nid = Some presented"
proof -
  have byte: "unat (of_char c :: u8) = of_char c" for c
  proof -
    have "unat (of_nat (of_char c) :: u8) = of_char c mod 2 ^ 8" by (simp add: unat_of_nat)
    then show ?thesis by (simp add: of_nat_of_char)
  qed
  have "as_bytes s = as_bytes t \<longleftrightarrow> s = t" for s t
  proof
    assume "as_bytes s = as_bytes t"
    then have "map unat (as_bytes s) = map unat (as_bytes t)" by simp
    then have "map (of_char :: char \<Rightarrow> nat) s = map of_char t" by (simp add: as_bytes_def byte comp_def)
    then show "s = t" by (simp add: inj_map_eq_map inj_def)
  qed simp
  with assms constant_time_eq_iff [of "as_bytes _" "as_bytes presented"] show ?thesis
    by (auto simp: authenticate_def as_bytes_def split: option.split)
qed

subsection \<open>Persisted keys\<close>

lemma strip_front_allowed: "list_all is_allowed_id_char s \<Longrightarrow> strip_front (map rev white_space) s = s"
proof (rule strip_front_no_prefix)
  fix w
  assume s: "list_all is_allowed_id_char s" and w: "w \<in> set (map rev white_space)" "w \<noteq> []"
  then obtain v where v: "v \<in> set white_space" "w = rev v" by auto
  show "\<not> prefix w s"
  proof
    assume "prefix w s"
    with w(2) have "hd w \<in> set s" by (auto simp: prefix_def)
    with s have "is_allowed_id_char (hd w)" by (simp add: list_all_iff)
    with v white_space_not_allowed [OF v(1)] show False by (simp add: hd_rev)
  qed
qed

lemma trim_newline:
  assumes "list_all is_allowed_id_char s" and "s \<noteq> []"
  shows "trim (s @ [CHR 0x0A]) = s"
proof -
  have "strip_front white_space (s @ [CHR 0x0A]) = s @ [CHR 0x0A]"
  proof (rule strip_front_no_prefix)
    fix w
    assume w: "w \<in> set white_space" "w \<noteq> []"
    show "\<not> prefix w (s @ [CHR 0x0A])"
    proof
      assume "prefix w (s @ [CHR 0x0A])"
      with w(2) assms(2) have "hd w = hd s" by (cases w; cases s) auto
      with assms have "is_allowed_id_char (hd w)" by (cases s) auto
      with white_space_not_allowed [OF w(1)] show False by simp
    qed
  qed
  moreover have "strip_front (map rev white_space) (CHR 0x0A # rev s) = rev s"
  proof -
    have "map rev white_space = [CHR 0x09] # [CHR 0x0A] # tl (tl (map rev white_space))" by code_simp
    then have "find (\<lambda>w. w \<noteq> [] \<and> prefix w (CHR 0x0A # rev s)) (map rev white_space) = Some [CHR 0x0A]"
      by (rule ssubst) simp
    with strip_front_allowed [of "rev s"] assms(1) show ?thesis
      by (simp add: strip_front.simps [of _ "CHR 0x0A # rev s"])
  qed
  ultimately show ?thesis by (simp add: trim_def trim_start_def trim_end_def)
qed

lemma persisted_allowed: "list_all is_allowed_id_char (to_persisted_string key)"
proof -
  have "list_all is_allowed_id_char node_key_prefix" by code_simp
  then show ?thesis by (simp add: to_persisted_string_def hex_encode_allowed)
qed

lemma persisted_round_trip:
  "length (nk_secret key) = node_key_bytes \<Longrightarrow> from_persisted_str (to_persisted_string key) = Inr key"
  using persisted_allowed [of key]
  by (simp add: from_persisted_str_def trim_allowed Let_def) (simp add: to_persisted_string_def hex_round_trip)

lemma stored_key_loads:
  assumes "length (nk_secret key) = node_key_bytes"
  shows "node_key_load path (node_key_store key path fs) = Inr key"
proof -
  have "to_persisted_string key \<noteq> []" by (simp add: to_persisted_string_def node_key_prefix_def)
  then have "trim (to_persisted_string key @ [CHR 0x0A]) = to_persisted_string key"
    using trim_newline [OF persisted_allowed] by simp
  with assms show ?thesis
    by (simp add: node_key_load_def node_key_store_def persisted_round_trip)
qed

subsection \<open>Rules\<close>

datatype rule_op =
    SetGlobal string capability_permission
  | SetNode node_id string capability_permission
  | SetAgent scoped_agent_identity string capability_permission

fun apply_rule :: "rule_op \<Rightarrow> capability_policy \<Rightarrow> capability_policy" where
  "apply_rule (SetGlobal capability p) pol = set_global capability p pol"
| "apply_rule (SetNode nid capability p) pol = set_node nid capability p pol"
| "apply_rule (SetAgent a capability p) pol = set_agent a capability p pol"

fun rule_for_agent :: "scoped_agent_identity \<Rightarrow> string \<Rightarrow> rule_op \<Rightarrow> capability_permission option" where
  "rule_for_agent a capability (SetAgent b c p) = (if b = a \<and> c = capability then Some p else None)"
| "rule_for_agent a capability _ = None"

fun rule_for_node :: "node_id \<Rightarrow> string \<Rightarrow> rule_op \<Rightarrow> capability_permission option" where
  "rule_for_node nid capability (SetNode n c p) = (if n = nid \<and> c = capability then Some p else None)"
| "rule_for_node nid capability _ = None"

fun rule_for_all :: "string \<Rightarrow> rule_op \<Rightarrow> capability_permission option" where
  "rule_for_all capability (SetGlobal c p) = (if c = capability then Some p else None)"
| "rule_for_all capability _ = None"

text \<open>The permission of the last rule that applies.\<close>

definition latest :: "(rule_op \<Rightarrow> capability_permission option) \<Rightarrow> rule_op list \<Rightarrow> capability_permission option" where
  "latest applies rules = (case List.map_filter applies (rev rules) of [] \<Rightarrow> None | p # _ \<Rightarrow> Some p)"

lemma latest_simps [simp]:
  "latest applies [] = None"
  "latest applies (rules @ [r]) = (case applies r of Some p \<Rightarrow> Some p | None \<Rightarrow> latest applies rules)"
  by (auto simp: latest_def List.map_filter_simps split: option.split)

lemma rules_latest:
  "cp_default (fold apply_rule rules (capability_policy_new d)) = d"
  "fmlookup (cp_agent_rules (fold apply_rule rules (capability_policy_new d))) (a, c) = latest (rule_for_agent a c) rules"
  "fmlookup (cp_node_rules (fold apply_rule rules (capability_policy_new d))) (nid, c) = latest (rule_for_node nid c) rules"
  "fmlookup (cp_global_rules (fold apply_rule rules (capability_policy_new d))) c = latest (rule_for_all c) rules"
proof (induction rules rule: rev_induct)
  case (snoc r rules)
  {
    case 1 with snoc show ?case by (cases r) (simp_all add: set_global_def set_node_def set_agent_def)
  next
    case 2 with snoc show ?case by (cases r) (simp_all add: set_global_def set_node_def set_agent_def)
  next
    case 3 with snoc show ?case by (cases r) (simp_all add: set_global_def set_node_def set_agent_def)
  next
    case 4 with snoc show ?case by (cases r) (simp_all add: set_global_def set_node_def set_agent_def)
  }
qed (simp_all add: capability_policy_new_def)

subsection \<open>Redaction of one word\<close>

lemma split_once_first: "c \<notin> set l \<Longrightarrow> split_once c (l @ c # r) = Some (l, r)"
  by (induction l) auto

lemma drop_separators: "list_all P pre \<Longrightarrow> w \<noteq> [] \<Longrightarrow> \<not> P (hd w) \<Longrightarrow> dropWhile P (pre @ w) = w"
  by (induction pre) (cases w, auto)

lemma trim_matches_word:
  assumes "list_all P pre" and "list_all P post" and "w \<noteq> []" and "\<not> P (hd w)" and "\<not> P (last w)"
  shows "trim_matches P (pre @ w @ post) = w"
  using drop_separators [of P pre "w @ post"] drop_separators [of P "rev post" "rev w"] assms
  by (simp add: trim_matches_def hd_rev)

text \<open>
  What the function does to an assignment of a secret, with separators around it: the value is
  replaced, and the text behind it is taken at the wrong offset when separators come first. In
  \<open>assigns_secret\<close> the key begins the trimmed word and the value ends it; a key that is set off by a
  colon is found only when the word has no equals sign.
\<close>

definition assigns_secret :: "string \<Rightarrow> char \<Rightarrow> string \<Rightarrow> bool" where
  "assigns_secret key sep v \<longleftrightarrow>
     is_secret_key key \<and> key \<noteq> [] \<and> \<not> is_separator (hd key) \<and> (v \<noteq> [] \<longrightarrow> \<not> is_separator (last v)) \<and>
     (sep = CHR ''='' \<and> CHR ''='' \<notin> set key \<or>
      sep = CHR '':'' \<and> CHR '':'' \<notin> set key \<and> CHR ''='' \<notin> set key \<and> CHR ''='' \<notin> set v)"

lemma split_once_none: "c \<notin> set s \<Longrightarrow> split_once c s = None"
  by (induction s) auto

lemma redact_assignment:
  assumes a: "assigns_secret key sep v" and "list_all is_separator pre" and "list_all is_separator post"
  shows "redact_token (pre @ (key @ sep # v) @ post) =
    map_option (\<lambda>suffix. key @ sep # ''[REDACTED]'' @ suffix)
      (slice_from (length (key @ sep # v)) (pre @ (key @ sep # v) @ post))"
proof -
  let ?w = "key @ sep # v"
  have "\<not> is_separator (CHR ''='')" "\<not> is_separator (CHR '':'')" by code_simp+
  then have trim: "trim_matches is_separator (pre @ ?w @ post) = ?w"
    using assms by (intro trim_matches_word) (auto simp: assigns_secret_def)
  have split: "(case split_once (CHR ''='') ?w of
      Some (key, _) \<Rightarrow> Some (key, ''='')
    | None \<Rightarrow> map_option (\<lambda>(key, _). (key, '':'')) (split_once (CHR '':'') ?w)) = Some (key, [sep])"
    using a by (auto simp: assigns_secret_def split_once_first split_once_none)
  have "is_secret_key key" using a by (simp add: assigns_secret_def)
  then show ?thesis
    unfolding redact_token_def Let_def trim split
    by (cases "slice_from (length ?w) (pre @ ?w @ post)") simp_all
qed

lemma redact_hides:
  assumes "assigns_secret key sep v" and "list_all is_separator post"
  shows "redact_token (key @ sep # v @ post) = Some (key @ sep # ''[REDACTED]'' @ post)"
proof -
  have "slice_from (length (key @ sep # v)) ((key @ sep # v) @ post) = Some post"
  proof (cases post)
    case (Cons c cs)
    then have "is_separator c" using assms(2) by simp
    then have "(of_char c :: nat) < 128" by (auto simp: is_separator_def)
    with Cons show ?thesis by (simp add: slice_from_def is_char_boundary_def nth_append)
  qed (simp add: slice_from_def is_char_boundary_def)
  with redact_assignment [OF assms(1), of "[]" post] assms(2) show ?thesis by simp
qed

subsection \<open>Redaction of a text\<close>

definition is_printable :: "char \<Rightarrow> bool" where
  "is_printable c \<longleftrightarrow> 32 < (of_char c :: nat) \<and> (of_char c :: nat) < 127"

definition is_word :: "string \<Rightarrow> bool" where
  "is_word w \<longleftrightarrow> w \<noteq> [] \<and> list_all is_printable w"

lemma white_space_heads: "list_all (\<lambda>w. w \<noteq> [] \<and> \<not> is_printable (hd w)) white_space"
  by code_simp

lemma no_white_space: "is_printable c \<Longrightarrow> find (\<lambda>w. w \<noteq> [] \<and> prefix w (c # cs)) white_space = None"
  using white_space_heads by (auto simp: find_None_iff list_all_iff prefix_def neq_Nil_conv)

lemma split_words_word:
  "list_all is_printable w \<Longrightarrow> split_words acc (w @ s) = split_words (acc @ w) s"
  by (induction w arbitrary: acc) (simp_all add: split_words.simps [of _ "_ # _"] no_white_space)

lemma find_unique:
  assumes "x \<in> set xs" and "P x" and "\<And>y. y \<in> set xs \<Longrightarrow> P y \<Longrightarrow> y = x"
  shows "find P xs = Some x"
proof (cases "find P xs")
  case None
  with assms(1,2) show ?thesis unfolding find_None_iff by blast
next
  case (Some z)
  then have "z \<in> set xs" "P z" unfolding find_Some_iff by auto
  with Some assms(3) show ?thesis by blast
qed

lemma split_words_space:
  assumes "acc \<noteq> []"
  shows "split_words acc (CHR '' '' # s) = acc # split_words [] s"
proof -
  have heads: "list_all (\<lambda>w. hd w = CHR '' '' \<longrightarrow> tl w = []) white_space" by code_simp
  have "find (\<lambda>w. w \<noteq> [] \<and> prefix w (CHR '' '' # s)) white_space = Some '' ''"
  proof (rule find_unique)
    have "white_space ! 5 = '' ''" "5 < length white_space" by code_simp+
    then show "'' '' \<in> set white_space" by (metis nth_mem)
    show "w = '' ''" if "w \<in> set white_space" "w \<noteq> [] \<and> prefix w (CHR '' '' # s)" for w
    proof -
      have "w = CHR '' '' # tl w" using that(2) by (cases w) simp_all
      moreover from this have "hd w = CHR '' ''" by (metis list.sel(1))
      with heads that(1) have "tl w = []" unfolding list_all_iff by blast
      ultimately show ?thesis by simp
    qed
  qed simp
  with assms show ?thesis by (simp add: split_words.simps [of acc "_ # _"])
qed

lemma split_join_words: "list_all is_word ws \<Longrightarrow> split_words [] (join_words ws) = ws"
proof (induction ws rule: join_words.induct)
  case (2 w)
  then show ?case
    using split_words_word [of w "[]" "[]"] by (simp add: is_word_def split_words.simps [of _ "[]"])
next
  case (3 w v vs)
  then show ?case
    using split_words_word [of w "[]" "'' '' @ join_words (v # vs)"] by (simp add: is_word_def split_words_space)
qed (simp add: split_words.simps)

lemma redact_text:
  "list_all is_word ws \<Longrightarrow> redact_secrets (join_words ws) = map_option join_words (those (map redact_token ws))"
  by (simp add: redact_secrets_def split_join_words)

end
