(* ===== verification/Policy_Properties.thy ===== *)
theory Policy_Properties
  imports Policy
begin

text \<open>
  The properties of the security policy crate: who is authenticated, which rule decides, that a node
  keeps its identity, and what redaction does and does not hide.
\<close>

section \<open>Authentication\<close>

text \<open>
  (C35) A node is authenticated exactly when it is not revoked and presents the very token that was
  registered for it: the comparison that never stops early decides equality. Tokens are shorter than
  \<open>2^64\<close> bytes, as every Rust string is.
\<close>

theorem authenticated_iff_registered:
  assumes "length presented < 2 ^ 64" and "\<And>token. fmlookup (na_tokens a) nid = Some token \<Longrightarrow> length token < 2 ^ 64"
  shows "authenticate nid presented a = Allowed \<longleftrightarrow>
    nid \<notin> na_revoked a \<and> fmlookup (na_tokens a) nid = Some presented"
  by (rule authenticate_iff [OF assms])

theorem authenticated_iff_registered_witness:
  "authenticate ''n1'' ''0123456789abcdef''
     (authenticator_revoke ''n2'' (authenticator_insert ''n1'' ''0123456789abcdef'' authenticator_new)) = Allowed"
  using authenticated_iff_registered [of "''0123456789abcdef''"
      "authenticator_revoke ''n2'' (authenticator_insert ''n1'' ''0123456789abcdef'' authenticator_new)" "''n1''"]
  by (simp add: authenticator_revoke_def authenticator_insert_def authenticator_new_def)

section \<open>Capability rules\<close>

text \<open>
  (C36) The most specific rule decides and among equally specific ones the last: after any sequence
  of rule settings the permission of a subject for a capability is that of the last rule for its
  agent, else of the last rule for its node, else of the last global rule, else the default.
\<close>

theorem most_specific_rule_decides:
  "evaluate subject capability (fold apply_rule rules (capability_policy_new d)) =
    from_permission
      (case Option.bind (ps_agent subject) (\<lambda>a. latest (rule_for_agent a capability) rules) of
         Some p \<Rightarrow> p
       | None \<Rightarrow>
           (case latest (rule_for_node (ps_node_id subject) capability) rules of
              Some p \<Rightarrow> p
            | None \<Rightarrow> (case latest (rule_for_all capability) rules of Some p \<Rightarrow> p | None \<Rightarrow> d)))
      capability"
proof -
  have "Option.bind (ps_agent subject) (\<lambda>a. fmlookup (cp_agent_rules (fold apply_rule rules (capability_policy_new d)))
      (a, capability)) = Option.bind (ps_agent subject) (\<lambda>a. latest (rule_for_agent a capability) rules)"
    by (simp add: rules_latest)
  then show ?thesis
    by (simp add: evaluate_def rules_latest or_else_def split: option.split)
qed

section \<open>The identity of a node\<close>

text \<open>
  (C37) A node keeps its key: a key that is generated at the first start is written to its file and
  read back unchanged at every later start, whatever randomness is offered then.
\<close>

theorem node_key_survives_restart:
  assumes "length entropy = node_key_bytes" and "fmlookup fs path = None"
  shows "let (key, fs') = node_key_load_or_generate entropy path fs in
    key = Inr \<lparr>nk_secret = entropy\<rparr> \<and> node_key_load_or_generate entropy' path fs' = (key, fs')"
  using assms stored_key_loads [of "\<lparr>nk_secret = entropy\<rparr>" path fs]
  by (simp add: node_key_load_or_generate_def Let_def) (simp add: node_key_store_def)

theorem node_key_survives_restart_witness:
  "fst (node_key_load_or_generate [] ''node.key''
     (snd (node_key_load_or_generate (replicate 32 0xA5) ''node.key'' fmempty))) = Inr \<lparr>nk_secret = replicate 32 0xA5\<rparr>"
  using node_key_survives_restart [of "replicate 32 0xA5" fmempty "''node.key''" "[]"]
  by (simp add: node_key_bytes_def split_beta Let_def)

text \<open>
  (C38) The node identifier gives half of the private key away: whoever sees it decodes the first
  sixteen of the thirty-two secret bytes from it.
\<close>

theorem node_id_reveals_half_the_key:
  assumes "length (nk_secret key) = node_key_bytes"
  shows "hex_decode_exact 16 (drop 5 (node_key_id key)) = Inr (take 16 (nk_secret key))"
  using assms by (simp add: node_key_id_def node_key_bytes_def hex_round_trip)

theorem node_id_reveals_half_the_key_witness:
  "hex_decode_exact 16 (drop 5 (node_key_id \<lparr>nk_secret = replicate 32 0xA5\<rparr>)) = Inr (replicate 16 0xA5)"
  using node_id_reveals_half_the_key [of "\<lparr>nk_secret = replicate 32 0xA5\<rparr>"]
  by (simp add: node_key_bytes_def)

section \<open>Redaction\<close>

text \<open>
  (C39) The value of a secret that is assigned in one word leaves no trace. When the key begins the word
  and is set off by an equals sign, or by a colon in a word without equals signs, the word is redacted
  to the key, the mark and the commas and semicolons that follow the value. So in a text of printable
  words nothing depends on the value. The key must begin its word, and a value ends at white space.
\<close>

theorem redaction_hides_secret_values:
  assumes "assigns_secret key sep v1" and "assigns_secret key sep v2" and "list_all is_separator after"
    and "list_all is_word (pre @ (key @ sep # v1 @ after) # (key @ sep # v2 @ after) # post)"
  shows "redact_token (key @ sep # v1 @ after) = Some (key @ sep # ''[REDACTED]'' @ after) \<and>
    redact_secrets (join_words (pre @ (key @ sep # v1 @ after) # post)) =
    redact_secrets (join_words (pre @ (key @ sep # v2 @ after) # post))"
  using assms(4) redact_hides [OF assms(1,3)] redact_hides [OF assms(2,3)] by (simp add: redact_text)

theorem redaction_hides_secret_values_witness:
  "redact_secrets (join_words [''user=bob'', ''token:abc,'', ''ok'']) = redact_secrets (join_words [''user=bob'', ''token:xyz,'', ''ok''])"
proof -
  have "assigns_secret ''token'' (CHR '':'') ''abc''" "assigns_secret ''token'' (CHR '':'') ''xyz''" "list_all is_separator '',''"
    "list_all is_word ([''user=bob''] @ (''token'' @ CHR '':'' # ''abc'' @ '','') # (''token'' @ CHR '':'' # ''xyz'' @ '','') # [''ok''])"
    by code_simp+
  from redaction_hides_secret_values [OF this] show ?thesis by simp
qed

text \<open>
  (C40) A separator in front of the word undoes redaction: with \<open>n\<close> leading commas or semicolons the
  last \<open>n\<close> bytes of the value follow the redaction mark, the whole value when there are as many
  separators as bytes; and when that cuts a multi-byte character the function panics.
\<close>

theorem leading_separators_leak_the_secret:
  assumes "is_secret_key key" and "CHR ''='' \<notin> set key" and "key \<noteq> []" and "\<not> is_separator (hd key)"
    and "list_all is_separator pre" and "pre \<noteq> []" and "length pre \<le> length v" and "\<not> is_separator (last v)"
  shows "redact_token (pre @ key @ CHR ''='' # v) =
    (let c = v ! (length v - length pre) in
     if 0x80 \<le> (of_char c :: nat) \<and> (of_char c :: nat) < 0xC0 then None
     else Some (key @ ''=[REDACTED]'' @ drop (length v - length pre) v))"
proof -
  let ?w = "key @ CHR ''='' # v" and ?k = "length v - length pre"
  have split: "pre @ ?w = (pre @ key @ CHR ''='' # take ?k v) @ drop ?k v"
    by simp
  have len: "length (pre @ key @ CHR ''='' # take ?k v) = length ?w"
    using assms(7) by simp
  have cut: "drop (length xs) (xs @ ys) = ys" "ys \<noteq> [] \<Longrightarrow> (xs @ ys) ! length xs = hd ys" for xs ys :: string
    by (simp_all add: nth_append hd_conv_nth)
  have drop: "drop (length ?w) (pre @ ?w) = drop ?k v"
    using cut(1) [of "pre @ key @ CHR ''='' # take ?k v" "drop ?k v"] unfolding len split [symmetric] .
  have k: "?k < length v" using assms(6,7) by (cases pre) auto
  then have "(pre @ ?w) ! length ?w = hd (drop ?k v)"
    using cut(2) [of "drop ?k v" "pre @ key @ CHR ''='' # take ?k v"] unfolding len split [symmetric] by simp
  then have nth: "(pre @ ?w) ! length ?w = v ! ?k" "length ?w < length (pre @ ?w)" "length ?w \<noteq> 0"
    using k assms(6) by (simp_all add: hd_drop_conv_nth)
  have "v \<noteq> []" using assms(6,7) by auto
  then show ?thesis
    using redact_assignment [of key "CHR ''=''" v pre "[]"] assms(1-5,8) nth drop
    by (simp add: assigns_secret_def slice_from_def is_char_boundary_def Let_def)
qed

theorem leading_separators_leak_the_secret_witness:
  "redact_token '',,,token=abc'' = Some ''token=[REDACTED]abc''"
proof -
  have "is_secret_key ''token''" "\<not> is_separator (hd ''token'')" "list_all is_separator '',,,''"
    "\<not> is_separator (last ''abc'')" by code_simp+
  then show ?thesis
    using leading_separators_leak_the_secret [of "''token''" "'',,,''" "''abc''"] by simp
qed

end
