(* ===== verification/Spec2Isabelle.thy ===== *)
theory Spec2Isabelle
  imports Lifecycle_Properties Result_Properties Artifact_Properties Policy_Properties
begin

text \<open>
  Verification of Hermes Keryx, a task relay for agents on several nodes. A node accepts tasks, leases
  them to workers, records results, and returns them to the peer that asked. The tasks, leases, events,
  results and artifacts of a node are kept by its store (\<open>crates/keryx-store\<close>), which the daemon
  (\<open>crates/keryx-daemon\<close>) calls from its gRPC handlers and timer loops. The development models the domain
  rules (\<open>crates/keryx-core\<close>), the store with both of its backends, and the security policy
  (\<open>crates/keryx-policy\<close>).

  \<^bold>\<open>Conventions.\<close> A Rust \<open>Result\<close> is a sum whose left side is the error; \<open>bindR\<close> is the question mark, and
  \<open>attempt\<close> is the same for operations that return a state. Strings are their UTF-8 bytes. \<open>u32\<close> and
  \<open>u64\<close> are words, timestamps are integers with \<open>sat_add_i64\<close> where the code saturates. Hash maps are
  finite maps. A mutex and an SQL transaction make an operation one step; an operation that reads the
  task back after its commit does so in the same step. A table is the list of its rows, and a statement
  is the list operation it denotes, unique constraints included. Names are those of the code, with the
  prefixes \<open>mem_\<close> and \<open>sql_\<close> for the two backends.

  \<^bold>\<open>Theories and sources.\<close>
  \<^item> \<open>Prelude\<close>: sums, strings with trimming, saturating arithmetic, finite maps with sorted keys.
  \<^item> \<open>Core_Task\<close>, \<open>Core_Limits\<close>: identifiers, task states and transitions, legacy events, retry policy,
    limits, artifact metadata and agent cards (\<open>keryx-core/src\<close>).
  \<^item> \<open>Store_Types\<close>: records, errors and guards that both backends share, and the replay of a task from its
    events (\<open>keryx-store/src/lib.rs\<close>, \<open>results.rs\<close>). \<open>Task_Store\<close>: the operations, and the contracts
    \<open>event_sourced_store\<close> and \<open>store_simulation\<close> as locales.
  \<^item> \<open>Mem_Store\<close>: \<open>InMemoryStore\<close>. \<open>Mem_Invariant\<close> proves its invariant and interprets the store contract;
    \<open>Mem_Effects\<close> and \<open>Mem_Frame\<close> say what single operations do and leave alone.
  \<^item> \<open>Sql_Codec\<close>, \<open>Sql_Store\<close>: the rows and their decoding, the statements, and every task operation of
    \<open>SqliteStore\<close>. \<open>Sql_Tables\<close> relates tables to maps; \<open>Sql_Refinement\<close>, \<open>Sql_Accept\<close>, \<open>Sql_Sweep\<close> and
    \<open>Sql_Contract\<close> prove the simulation operation by operation and interpret both contracts;
    \<open>Sql_Queries\<close>, \<open>Sql_Frame\<close>, \<open>Sql_Effects\<close> and \<open>Sql_Lifecycle\<close> carry it over to queries and effects.
  \<^item> \<open>Result_Outbox\<close>, \<open>Result_Effects\<close>: claim, acknowledgement and failure of result deliveries and the relay
    receipt (\<open>results.rs\<close>), the life of one delivery as a step relation, and the contract
    \<open>delivery_queue\<close> interpreted on them.
  \<^item> \<open>Artifact_Store\<close>, \<open>Artifact_Contract\<close>, \<open>Artifact_Mem\<close>, \<open>Artifact_Sqlite\<close>: artifacts, blob files and
    reference counts, and the contract \<open>artifact_store\<close> interpreted on both backends.
  \<^item> \<open>Remote_Results\<close>, \<open>Remote_Files\<close>, \<open>Remote_Effects\<close>: the ingest of a result from the executing peer
    (\<open>ingest_remote_result_with_artifacts\<close> and what it calls in \<open>results.rs\<close>).
  \<^item> \<open>Node_Runs\<close>: the states that all operations of the store together reach, and the two steps that break
    the invariants of the code.
  \<^item> \<open>Policy\<close>: node keys, token authentication, capability rules, audit events and redaction
    (\<open>keryx-policy/src/lib.rs\<close>).

  \<^bold>\<open>What is shown.\<close> \<open>Store_Properties\<close>: the SQLite store refines the in-memory store in replies and queries;
  the event log determines the snapshot, terminal tasks are final, histories only grow, leases fence the
  workers, errors roll back, the task tables are well typed. \<open>Lifecycle_Properties\<close>: acceptance, leasing,
  retries, cancellation, the two sweeps, and the list of claimable work. \<open>Result_Properties\<close>: results are
  queued atomically, deliveries are claimed exclusively, settled by their live claim only, and attempted
  at most ten times. \<open>Artifact_Properties\<close>: both artifact stores are maps, and one interleaving loses an
  artifact. \<open>Policy_Properties\<close>: authentication, rule precedence, key files, and what redaction hides and
  leaks. This theory: remote results are applied exactly once, by the executor only, and leave a lease
  of the task behind.

  \<^bold>\<open>Hypotheses.\<close> Operations are admissible (\<open>admissible\<close>, \<open>typed_op\<close>, \<open>node_admissible\<close>): identifiers are
  valid as the newtypes guarantee; submitted records are well formed and, for \<open>accept_task\<close>, pending; a
  lease names its task and a worker; a lease identifier is used for one task (\<open>owner\<close>); a limit fits an
  \<open>i64\<close>; the legacy event \<open>TaskApprovalDenied\<close> does not occur. \<open>node_after\<close> runs task operations,
  deliveries and relay receipts; \<open>reached\<close> adds artifact operations and remote results, which carry no
  return peer, as the daemon builds them, and find the task not leased on this node. The exclusion of
  the denied approval and of the leased task is needed: both break invariants of the code, which is
  proved. SHA-256 is a parameter that returns 32 bytes (\<open>sha_ok\<close>) and, where contents are shared, does not
  collide on the contents at hand. Random bytes and times are arguments.

  \<^bold>\<open>Bounds.\<close> Every function is total and terminates; there is no fuel. Limits are those of the code: ten
  delivery attempts, the maximal retry delay, the inline and blob sizes, \<open>2^63\<close> for SQL limits. The retry
  theorem excludes \<open>max_retries = u32::MAX\<close>, where the saturating counter never passes the limit.

  \<^bold>\<open>Not modelled.\<close> The daemon, the command line and the Python SDK: asynchronous network code that acts on
  tasks through the store operations above. The relay process (\<open>crates/keryx-relay\<close>): it shares no state
  with the store, and its routing and registry tables are outside the scope of this development. Schema
  migration, connection pools, file permissions and I/O errors of SQLite and of the file system; a blob
  file is written whole or not at all. Concurrency inside one operation, except for the blob cleanup
  after a commit, which is a step of its own. Code generated from the protocol files, logging, metrics,
  and the \<open>Debug\<close>, \<open>Display\<close> and serde instances.
\<close>

section \<open>A task sent to a peer\<close>

definition demo_context :: transport_context where
  "demo_context = \<lparr>tc_task_id = ''t1'', tc_authenticated_sender_peer_id = Some ''p1'', tc_expected_executor_peer_id = Some ''p2'',
     tc_destination_peer_id = ''p2'', tc_relay_frame_id = None, tc_received_at_ms = 5\<rparr>"

definition demo_sent_ops :: "store_op list" where
  "demo_sent_ops = [AcceptTaskWithContext demo_task demo_envelope demo_context]"

definition demo_remote_result :: terminal_result where
  "demo_remote_result = \<lparr>tm_task_id = ''t1'', tm_encoded_result = [7], tm_terminal_status = Failed,
     tm_return_peer_id = None, tm_executor_peer_id = ''p2'', tm_created_at_ms = 15\<rparr>"

definition demo_origin_artifact :: origin_result_artifact where
  "demo_origin_artifact = \<lparr>oa_ordinal = 0, oa_meta = demo_meta (origin_result_artifact_id demo_sha ''t1'' 0) demo_blob,
     oa_content = demo_blob\<rparr>"

definition demo_sent_lease_ops :: "store_op list" where
  "demo_sent_lease_ops = [AcceptTaskWithContext demo_task demo_envelope demo_context, LeaseTask ''t1'' demo_lease None]"

abbreviation demo_sent :: sql_db where
  "demo_sent \<equiv> node_after (map TaskOp demo_sent_ops)"

lemma demo_sent_admissible: "list_all (sql_admissible demo_owner) demo_sent_ops"
  by code_simp

lemma demo_sent_state:
  "sql_inv demo_owner demo_sent" "sql_holds demo_sha (demo_sent, fmempty) fmempty"
  "sql_get_transport_context ''t1'' demo_sent = Inr demo_context"
  "awaits_result demo_sent ''t1'' ''p2'' demo_task"
proof -
  show "sql_inv demo_owner demo_sent"
    using demo_sent_admissible by (intro node_inv) (simp add: task_ops_admissible)
  show "sql_holds demo_sha (demo_sent, fmempty) fmempty"
    unfolding task_ops_run by (intro sql_holds_empty sql_files_run)
  have s: "sql_get_task ''t1'' demo_sent = Inr demo_task" "sql_active_lease ''t1'' demo_sent = Inr None"
    "sql_get_transport_context ''t1'' demo_sent = Inr demo_context"
    "sql_get_terminal_result ''t1'' demo_sent = Inl (TerminalResultNotFound ''t1'')"
    unfolding task_ops_queries [OF demo_sent_admissible] by code_simp+
  then show "sql_get_transport_context ''t1'' demo_sent = Inr demo_context"
    "awaits_result demo_sent ''t1'' ''p2'' demo_task"
    by (simp_all add: awaits_result_def demo_task_def task_record_new_def demo_context_def)
qed

lemma demo_origin_ok:
  "validate_origin_result_artifacts demo_sha ''t1'' [demo_origin_artifact] = Inr [origin_record demo_sha demo_origin_artifact]"
  "collision_free demo_sha fmempty [demo_origin_artifact]" "fresh_origin_artifacts fmempty ''t1'' [demo_origin_artifact]"
proof -
  show "validate_origin_result_artifacts demo_sha ''t1'' [demo_origin_artifact] = Inr [origin_record demo_sha demo_origin_artifact]"
    by (simp add: validate_origin_result_artifacts_def demo_origin_artifact_def demo_meta_def demo_blob_def Let_def
        max_cross_node_result_artifact_bytes_def)
  have "media_type_new ''text/plain'' = ''text/plain''" by code_simp
  then show "fresh_origin_artifacts fmempty ''t1'' [demo_origin_artifact]"
    by (simp add: fresh_origin_artifacts_def demo_origin_artifact_def demo_meta_def)
qed (simp add: collision_free_def)

section \<open>The properties\<close>

text \<open>
  (C29) Only the executor a task was sent to can change the store through a remote result, and only
  once: unless the ingest reports the result as applied, the database and the blob directory are as they
  were, whatever was written in between. When it does, the authenticated peer is the one the transport
  context names, no result was stored, and the living task has taken the status of the result.
\<close>

theorem only_the_executor_applies:
  assumes "sql_holds sha256 (db, fs) m" and "collision_free sha256 m artifacts"
  shows "case ingest_remote_result_with_artifacts sha256 r artifacts peer (db, fs) of
      (Inr (Applied t'), db', fs') \<Rightarrow>
        tm_executor_peer_id r = peer \<and>
        (\<exists>ctx t. sql_get_transport_context (tm_task_id r) db = Inr ctx \<and> tc_expected_executor_peer_id ctx = Some peer \<and>
           sql_get_task (tm_task_id r) db = Inr t \<and> \<not> is_terminal (tr_status t) \<and>
           t' = t\<lparr>tr_status := tm_terminal_status r\<rparr> \<and> sql_get_task (tm_task_id r) db' = Inr t' \<and>
           sql_get_terminal_result (tm_task_id r) db = Inl (TerminalResultNotFound (tm_task_id r)))
    | (_, st') \<Rightarrow> st' = (db, fs)"
  using ingest_unless_applied [OF assms, of r peer] unfolding unless_applied_def .

theorem only_the_executor_applies_witness:
  "snd (ingest_remote_result_with_artifacts demo_sha (demo_remote_result\<lparr>tm_executor_peer_id := ''p3''\<rparr>)
     [demo_origin_artifact] ''p3'' (demo_sent, fmempty)) = (demo_sent, fmempty)"
proof -
  let ?r = "demo_remote_result\<lparr>tm_executor_peer_id := ''p3''\<rparr>"
  note only_the_executor_applies [OF demo_sent_state(2) demo_origin_ok(2), of ?r "''p3''"]
  moreover have "tm_task_id ?r = ''t1''" "tc_expected_executor_peer_id demo_context \<noteq> Some ''p3''"
    by (simp_all add: demo_remote_result_def demo_context_def)
  ultimately show ?thesis
    using demo_sent_state(3)
    by (auto split: prod.splits sum.splits remote_result_ingest_outcome.splits simp del: run_ops_simps)
qed



text \<open>
  (C31) A remote result does not end a lease: when a result of the expected executor arrives for a task
  that is leased on this node, it is applied and the task is finished, but its lease stays active. The
  task is then finished and leased at once, as no task of a reached database is.
\<close>

theorem remote_result_leaves_lease_active:
  assumes "reached owner sha256 (db, fs)" and "sql_active_lease (tm_task_id r) db = Inr (Some l)"
    and "sql_get_transport_context (tm_task_id r) db = Inr ctx" and "tc_expected_executor_peer_id ctx = Some peer"
    and "remote_result_ok r peer" and "sql_get_task (tm_task_id r) db = Inr t"
  shows "\<exists>t' db'. ingest_remote_result_with_artifacts sha256 r [] peer (db, fs) = (Inr (Applied t'), db', fs) \<and>
    sql_get_task (tm_task_id r) db' = Inr t' \<and> is_terminal (tr_status t') \<and>
    sql_active_lease (tm_task_id r) db' = Inr (Some l)"
proof -
  have "is_terminal (tm_terminal_status r)" using assms(5) by (simp add: remote_result_ok_def)
  with ingest_keeps_lease [OF reached_db [OF assms(1)] assms(2-6), of sha256 fs] show ?thesis by auto
qed

theorem remote_result_leaves_lease_active_witness:
  "\<exists>t' db'. ingest_remote_result_with_artifacts demo_sha demo_remote_result [] ''p2''
       (node_after (map TaskOp demo_sent_lease_ops), fmempty) = (Inr (Applied t'), db', fmempty) \<and>
     is_terminal (tr_status t') \<and> sql_active_lease ''t1'' db' = Inr (Some demo_lease)"
proof -
  have adm: "list_all (sql_admissible demo_owner) demo_sent_lease_ops" by code_simp
  have q: "sql_active_lease ''t1'' (node_after (map TaskOp demo_sent_lease_ops)) = Inr (Some demo_lease)"
    "sql_get_transport_context ''t1'' (node_after (map TaskOp demo_sent_lease_ops)) = Inr demo_context"
    "sql_get_task ''t1'' (node_after (map TaskOp demo_sent_lease_ops)) = Inr (demo_task\<lparr>tr_status := Running\<rparr>)"
    unfolding task_ops_queries [OF adm] by code_simp+
  have r: "tm_task_id demo_remote_result = ''t1''" "remote_result_ok demo_remote_result ''p2''"
    "tc_expected_executor_peer_id demo_context = Some ''p2''" by code_simp+
  from remote_result_leaves_lease_active [OF node_reached [OF adm [folded task_ops_admissible]], of demo_remote_result,
      unfolded r(1), OF q(1,2) r(3,2) q(3)]
  show ?thesis by blast
qed

end
